(* ===== verification/Prelude.thy ===== *)
theory Prelude
  imports Main "HOL-Library.Word" "HOL-Library.Multiset" "HOL-Library.Sublist"
begin

unbundle bit_operations_syntax

section \<open>Shared vocabulary of the development\<close>

text \<open>
  The vocabulary every component theory uses: the Rust standard library's \<open>Poll\<close>, \<open>Result\<close> and
  machine-word types, the combinators the source calls on them (\<open>map_err\<close>, \<open>ok_or\<close>, the \<open>?\<close>
  operator), the collections the component proofs share, and generic lemmas on lists, options and
  words.
\<close>

named_theorems op_defs \<open>defining equations of the straight-line operations\<close>
named_theorems inv_intros \<open>an operation keeps the invariant of its component\<close>

subsection \<open>The standard library's types\<close>

text \<open>\<open>core::task::Poll\<close>.\<close>

datatype 'a poll = Ready 'a | Pending

fun map_poll :: "('a \<Rightarrow> 'b) \<Rightarrow> 'a poll \<Rightarrow> 'b poll" where
  "map_poll f (Ready x) = Ready (f x)"
| "map_poll f Pending = Pending"

text \<open>
  \<open>core::result::Result\<close>: a sum with the error on the left. \<open>Ok\<close> and \<open>Err\<close> are the source's names
  of the injections.
\<close>

abbreviation Ok :: "'a \<Rightarrow> 'e + 'a" where "Ok \<equiv> Inr"
abbreviation Err :: "'e \<Rightarrow> 'e + 'a" where "Err \<equiv> Inl"

fun map_err :: "('e \<Rightarrow> 'f) \<Rightarrow> 'e + 'a \<Rightarrow> 'f + 'a" where
  "map_err f (Inl e) = Inl (f e)"
| "map_err f (Inr x) = Inr x"

fun ok_or :: "'e \<Rightarrow> 'a option \<Rightarrow> 'e + 'a" where
  "ok_or e None = Inl e"
| "ok_or e (Some x) = Inr x"

text \<open>\<open>Result::is_ok\<close>, and the \<open>?\<close> operator: the first error leaves the function.\<close>

fun is_ok :: "'e + 'a \<Rightarrow> bool" where
  "is_ok (Inl _) = False"
| "is_ok (Inr _) = True"

fun and_then :: "'e + 'a \<Rightarrow> ('a \<Rightarrow> 'e + 'b) \<Rightarrow> 'e + 'b" where
  "and_then (Inl e) f = Inl e"
| "and_then (Inr x) f = f x"

text \<open>
  \<open>usize\<close> is 64 bits wide on the targets the crates are built for. A \<open>Duration\<close> and an \<open>Instant\<close> are
  counted in nanoseconds; the crates only store, compare and add them.
\<close>

type_synonym usize = "64 word"
type_synonym duration = nat
type_synonym instant = nat

subsection \<open>Generic lemmas\<close>

lemma map_err_eq_Ok [simp]: "map_err f r = Inr x \<longleftrightarrow> r = Inr x"
  by (cases r) auto

lemma map_err_eq_Err: "map_err f r = Inl e \<longleftrightarrow> (\<exists>e'. r = Inl e' \<and> e = f e')"
  by (cases r) auto

lemma ok_or_eq_Ok [simp]: "ok_or e opt = Inr x \<longleftrightarrow> opt = Some x"
  by (cases opt) auto

lemma and_then_eq_Ok [simp]: "and_then r f = Inr y \<longleftrightarrow> (\<exists>x. r = Inr x \<and> f x = Inr y)"
  by (cases r) auto

lemma and_then_eq_Err: "and_then r f = Inl e \<longleftrightarrow> r = Inl e \<or> (\<exists>x. r = Inr x \<and> f x = Inl e)"
  by (cases r) auto

lemma map_poll_eq_Ready [simp]: "map_poll f p = Ready y \<longleftrightarrow> (\<exists>x. p = Ready x \<and> y = f x)"
  by (cases p) auto

lemma map_poll_eq_Pending [simp]: "map_poll f p = Pending \<longleftrightarrow> p = Pending"
  by (cases p) auto

lemma list_all2_in_right: "list_all2 R xs ys \<Longrightarrow> y \<in> set ys \<Longrightarrow> \<exists>x \<in> set xs. R x y"
  by (induction rule: list_all2_induct) auto

lemma Inr_if_Inl [simp]:
  "(if b then Inr x else Inl e) = Inr y \<longleftrightarrow> b \<and> x = y"
  "(if b then Inl e else Inr x) = Inr y \<longleftrightarrow> \<not> b \<and> x = y"
  by auto

text \<open>Parity of a word is its lowest bit, which is how the crates use the bit.\<close>

lemma and_one_word_eq: "(w :: usize) AND 1 = (if even w then 0 else 1)"
  by (simp add: and_one_eq even_iff_mod_2_eq_zero odd_iff_mod_2_eq_one)

lemma unat_usize_lt: "unat (w :: usize) < 2 ^ 64"
  using unsigned_less [of w] by simp

lemma of_nat_usize_inject:
  "m < 2 ^ 64 \<Longrightarrow> n < 2 ^ 64 \<Longrightarrow> (of_nat m = (of_nat n :: usize)) \<longleftrightarrow> m = n"
  by (simp add: word_of_nat_eq_iff take_bit_nat_eq_self)

lemma unat_of_nat_usize: "n < 2 ^ 64 \<Longrightarrow> unat (of_nat n :: usize) = n"
  by (simp add: unat_of_nat take_bit_nat_eq_self)

text \<open>\<open>usize::MAX\<close>; below it, adding one does not wrap.\<close>

abbreviation usize_max :: usize where "usize_max \<equiv> - 1"

lemma unat_usize_Suc: "(k :: usize) \<noteq> usize_max \<Longrightarrow> unat (k + 1) = Suc (unat k)"
proof -
  assume k: "k \<noteq> usize_max"
  have "unat usize_max = 2 ^ 64 - 1" by (simp add: unsigned_minus_1_eq_mask mask_eq_exp_minus_1)
  with k have "unat k \<noteq> 2 ^ 64 - 1" by (metis word_unat_eq_iff)
  with unat_usize_lt [of k] show ?thesis by (simp add: unat_plus_if')
qed

lemma less_usize_Suc: "(k :: usize) \<noteq> usize_max \<Longrightarrow> j < k + 1 \<longleftrightarrow> j \<le> k"
  by (simp add: word_less_nat_alt word_le_nat_alt unat_usize_Suc less_Suc_eq_le)

lemma less_usize_max [simp]: "(k :: usize) < usize_max \<longleftrightarrow> k \<noteq> usize_max"
  using unat_usize_lt [of k]
  by (auto simp: word_less_nat_alt word_unat_eq_iff unsigned_minus_1_eq_mask mask_eq_exp_minus_1)

subsection \<open>Strings\<close>

text \<open>\<open>str::contains\<close>, \<open>String::pop\<close> and \<open>str::split\<close> by a character: the pieces between its
  occurrences, one more than there are occurrences.\<close>

fun str_contains :: "string \<Rightarrow> string \<Rightarrow> bool" where
  "str_contains needle [] = (needle = [])"
| "str_contains needle (c # cs) = (prefix needle (c # cs) \<or> str_contains needle cs)"

lemma str_contains_iff: "str_contains needle s \<longleftrightarrow> (\<exists>a b. s = a @ needle @ b)"
  by (induction s) (auto simp: prefix_def Cons_eq_append_conv)

definition str_pop :: "string \<Rightarrow> string" where "str_pop s = butlast s"

fun split_on :: "char \<Rightarrow> string \<Rightarrow> string list" where
  "split_on d [] = [[]]"
| "split_on d (c # cs) =
     (if c = d then [] # split_on d cs
      else (case split_on d cs of [] \<Rightarrow> [[c]] | p # ps \<Rightarrow> (c # p) # ps))"

lemma split_on_not_Nil [simp]: "split_on d s \<noteq> []"
  by (induction s) (auto split: list.splits)

lemma split_on_append: "d \<notin> set p \<Longrightarrow> split_on d (p @ d # s) = p # split_on d s"
  by (induction p) auto

lemma split_on_single: "d \<notin> set p \<Longrightarrow> split_on d p = [p]"
  by (induction p) auto

end
