(* ===== verification/Send_Error.thy ===== *)
theory Send_Error
  imports Prelude
begin

section \<open>The error type (\<open>src/error.rs\<close>)\<close>

text \<open>
  The one error enum of the crate, the text its \<open>Debug\<close> implementation writes, and its \<open>Display\<close>
  implementation, which formats \<open>self\<close> with \<open>Display\<close> again and so never produces a string.
\<close>

datatype actix_send_error =
  Canceled | Closed | Timeout | Blocking | TypeCast | Subscribe | Broadcast

type_synonym 'a send_result = "actix_send_error + 'a"

text \<open>The two fields \<open>Debug::fmt\<close> adds for each variant, in the order the match lists them.\<close>

fun error_fields :: "actix_send_error \<Rightarrow> (string \<times> string) list" where
  "error_fields TypeCast =
     [(''cause'', ''TypeCast''),
      (''description'', ''Failed to downcast from dyn Any to a concrete type'')]"
| "error_fields Timeout =
     [(''cause'', ''Timeout''),
      (''description'', ''Could not process the message in time'')]"
| "error_fields Canceled =
     [(''cause'', ''Canceled''),
      (''description'', ''Oneshot channel is closed before we send anything through it'')]"
| "error_fields Closed =
     [(''cause'', ''Closed''),
      (''description'', ''Actor'' @ [CHR 0x27] @ ''s message channel is closed'')]"
| "error_fields Blocking =
     [(''cause'', ''Blocking''),
      (''description'', ''Failed to run blocking code'')]"
| "error_fields Subscribe =
     [(''cause'', ''Subscribe''),
      (''description'', ''This address can not be subscribed'')]"
| "error_fields Broadcast =
     [(''cause'', ''Broadcast''),
      (''description'', ''This address can not broadcasting'')]"

text \<open>
  \<open>Formatter::debug_struct\<close> of the standard library in its one-line form: the name, then each field
  as \<open>name: "value"\<close>.
\<close>

definition debug_field :: "string \<times> string \<Rightarrow> string" where
  "debug_field f = fst f @ '': '' @ [CHR 0x22] @ snd f @ [CHR 0x22]"

fun debug_fields :: "(string \<times> string) list \<Rightarrow> string" where
  "debug_fields [] = ''''"
| "debug_fields [f] = debug_field f"
| "debug_fields (f # g # fs) = debug_field f @ '', '' @ debug_fields (g # fs)"

definition debug_struct :: "string \<Rightarrow> (string \<times> string) list \<Rightarrow> string" where
  "debug_struct name fs = (if fs = [] then name else name @ '' { '' @ debug_fields fs @ '' }'')"

definition error_debug :: "actix_send_error \<Rightarrow> string" where
  "error_debug e = debug_struct ''ActixSendError'' (error_fields e)"

text \<open>
  \<open>Display::fmt\<close> is \<open>write!(f, "({})", self)\<close>: it writes a bracket and then displays the same value.
  The recursion has no base case, so the model is a partial function.
\<close>

partial_function (option) error_display :: "actix_send_error \<Rightarrow> string option" where
  "error_display e = Option.bind (error_display e) (\<lambda>s. Some (''('' @ s @ '')''))"

lemma error_display_Some_False:
  assumes "error_display e = Some s"
  shows False
  by (rule error_display.raw_induct [where P = "\<lambda>_ _. False", OF _ assms])
    (auto simp: bind_eq_Some_conv)

text \<open>
  Displaying an error never produces a string: for no variant does the \<open>Display\<close>
  implementation return.
\<close>

theorem error_display_diverges: "error_display e = None"
  using error_display_Some_False by (cases "error_display e") auto

text \<open>
  The \<open>Debug\<close> text identifies the variant: two errors that print the same are equal.
\<close>

theorem error_debug_inject: "error_debug d = error_debug e \<longleftrightarrow> d = e"
  by (cases d; cases e) (simp_all add: error_debug_def debug_struct_def debug_field_def)

end
