(* ===== verification/Any_Object.thy ===== *)
theory Any_Object
  imports Prelude
begin

section \<open>Type-erased values and boxed closures (\<open>src/object.rs\<close>)\<close>

text \<open>
  \<open>AnyObjectContainer\<close> packs a value into a \<open>Box<dyn Any>\<close> holding an \<open>Option\<close>, so that it can be
  taken out again at the right type, once. \<open>FutureObject\<close> is a boxed closure whose result is packed.
  A value of any Rust type is a \<open>'v\<close>, tagged with its type's \<open>TypeId\<close>, a \<open>'ty\<close>. What the closure does
  is user code: a parameter \<open>call\<close> that returns the result with its type, the closure's new captured
  state and the actor's new state.
\<close>

record ('ty, 'v) any_object =
  any_type :: 'ty
  any_inner :: "'v option"

definition any_pack :: "'ty \<Rightarrow> 'v \<Rightarrow> ('ty, 'v) any_object" where
  "any_pack ty r = \<lparr>any_type = ty, any_inner = Some r\<rparr>"

text \<open>\<open>downcast_mut::<Option<R>>()?.take()\<close>: a failed downcast leaves the container alone.\<close>

definition any_unpack :: "'ty \<Rightarrow> ('ty, 'v) any_object \<Rightarrow> 'v option \<times> ('ty, 'v) any_object" where
  "any_unpack ty c =
     (if any_type c = ty then (any_inner c, c\<lparr>any_inner := None\<rparr>) else (None, c))"

record 'f future_container =
  func :: 'f

definition future_pack :: "'f \<Rightarrow> 'f future_container" where
  "future_pack f = \<lparr>func = f\<rparr>"

definition future_object_handle ::
  "('f \<Rightarrow> 'a \<Rightarrow> ('ty \<times> 'v) \<times> 'f \<times> 'a) \<Rightarrow> 'f \<Rightarrow> 'a \<Rightarrow> ('ty, 'v) any_object \<times> 'f \<times> 'a" where
  "future_object_handle call f act =
     (let ((ty, r), f', act') = call f act in (any_pack ty r, f', act'))"

definition future_container_handle ::
  "('f \<Rightarrow> 'a \<Rightarrow> ('ty \<times> 'v) \<times> 'f \<times> 'a) \<Rightarrow> 'f future_container \<Rightarrow> 'a
     \<Rightarrow> ('ty, 'v) any_object \<times> 'f future_container \<times> 'a" where
  "future_container_handle call c act =
     (let (obj, f', act') = future_object_handle call (func c) act in (obj, c\<lparr>func := f'\<rparr>, act'))"

lemmas any_defs [op_defs] =
  any_pack_def any_unpack_def future_pack_def future_object_handle_def future_container_handle_def

lemma any_unpack_pack [simp]:
  "fst (any_unpack ty (any_pack ty' r)) = (if ty = ty' then Some r else None)"
  by (simp add: op_defs)

lemma any_unpack_twice: "fst (any_unpack ty' (snd (any_unpack ty c))) \<noteq> None \<Longrightarrow> ty' \<noteq> ty"
  by (auto simp: op_defs split: if_splits)

lemma container_handle_eq:
  "call (func c) act = ((ty, r), f', act')
    \<Longrightarrow> future_container_handle call c act = (any_pack ty r, c\<lparr>func := f'\<rparr>, act')"
  by (simp add: op_defs)

end
