(* ===== verification/Messages.thy ===== *)
theory Messages
  imports Any_Object
begin

section \<open>The messages between an address and its actors (\<open>src/context.rs\<close>)\<close>

text \<open>
  \<open>ContextMessage\<close> and its three sub-enums. A \<open>OneShotSender\<close> is the number of its channel. The type
  variables are \<open>A::Message\<close> (\<open>'m\<close>) and the boxed closures (\<open>'f\<close>). \<open>InstantMessage\<close> and
  \<open>DelayedMessage\<close> both have variants \<open>Static\<close> and \<open>Dynamic\<close>; here they carry their enum's name.
\<close>

type_synonym oneshot = nat

datatype ('m, 'f) instant_message =
  InstantStatic "oneshot option" 'm
| InstantDynamic "oneshot option" "'f future_container"

datatype ('m, 'f) delayed_message =
  DelayedStatic 'm duration
| DelayedDynamic "'f future_container" duration

datatype 'f interval_message =
  Register oneshot "'f future_container" duration
| Run usize
| Remove usize

datatype ('m, 'f) context_message =
  ManualShutDown oneshot
| Instant "('m, 'f) instant_message"
| Delayed "('m, 'f) delayed_message"
| Interval "'f interval_message"

text \<open>
  The state of an actor context that \<open>Address::close_one\<close> gives back (\<open>ActorContextState\<close>), and the
  handle of a cancelable task (\<open>FutureHandler\<close>, in \<open>src/util/future_handle.rs\<close>): the number of the
  shared cell its \<open>Arc\<close> points to, and for an interval task the index it is registered under. The
  weak sender of the pair is that of the handler's own address.
\<close>

record context_state =
  cs_id :: usize
  cs_generation :: usize

record future_handler =
  fh_cell :: nat
  fh_tx :: "usize option"

text \<open>What travels back through a oneshot channel, one constructor per type the source sends.\<close>

datatype ('r, 'ty, 'v) reply =
  ReplyResult 'r
| ReplyAny "('ty, 'v) any_object"
| ReplyState context_state
| ReplyHandler future_handler

text \<open>
  What an operation asks of the code outside \<open>src/\<close>: waking a task, sending on a oneshot channel,
  and the three kinds of task the crate spawns on the runtime. A spawned sender task holds a strong
  sender of its own.
\<close>

datatype ('m, 'f, 'rep, 'wk) effect =
  WakeTask 'wk
| OneshotSend oneshot 'rep
| SpawnSend "('m, 'f) context_message"
| SpawnDelay nat duration bool "('m, 'f) context_message"
| SpawnInterval nat duration usize

text \<open>The oneshot sender a message carries, if it carries one.\<close>

fun message_oneshot :: "('m, 'f) context_message \<Rightarrow> oneshot option" where
  "message_oneshot (ManualShutDown tx) = Some tx"
| "message_oneshot (Instant (InstantStatic tx _)) = tx"
| "message_oneshot (Instant (InstantDynamic tx _)) = tx"
| "message_oneshot (Interval (Register tx _ _)) = Some tx"
| "message_oneshot _ = None"

text \<open>The replies among a list of effects, in order.\<close>

fun replies :: "('m, 'f, 'rep, 'wk) effect list \<Rightarrow> (oneshot \<times> 'rep) list" where
  "replies [] = []"
| "replies (OneshotSend tx r # es) = (tx, r) # replies es"
| "replies (_ # es) = replies es"

lemma replies_append [simp]: "replies (es @ fs) = replies es @ replies fs"
  by (induction es rule: replies.induct) auto

end
