(* ===== verification/Interval_Set.thy ===== *)
theory Interval_Set
  imports Any_Object
begin

section \<open>The set of registered interval closures (\<open>src/interval.rs\<close>)\<close>

text \<open>
  The \<open>HashMap\<close> from keys to closures behind the async lock, and the atomic counter the keys come
  from. \<open>fetch_add\<close> wraps; the \<open>assert!\<close> after it panics at the largest key, when the counter has
  already wrapped to \<open>0\<close>. A panic is \<open>None\<close> in the first component.
\<close>

record 'f interval_set =
  next_key :: usize
  futures :: "usize \<rightharpoonup> 'f"

definition interval_default :: "'f interval_set" where
  "interval_default = \<lparr>next_key = 0, futures = Map.empty\<rparr>"

definition interval_insert :: "'f \<Rightarrow> 'f interval_set \<Rightarrow> usize option \<times> 'f interval_set" where
  "interval_insert future s =
     (let key = next_key s; s' = s\<lparr>next_key := key + 1\<rparr>
      in if key < usize_max then (Some key, s'\<lparr>futures := (futures s')(key \<mapsto> future)\<rparr>)
         else (None, s'))"

definition interval_remove :: "usize \<Rightarrow> 'f interval_set \<Rightarrow> 'f interval_set" where
  "interval_remove key s = s\<lparr>futures := (futures s)(key := None)\<rparr>"

text \<open>\<open>guard.get_mut(&idx)\<close> under \<open>lock()\<close>: the closure, and the set with the closure's new state.\<close>

definition interval_get :: "usize \<Rightarrow> 'f interval_set \<Rightarrow> 'f option" where
  "interval_get key s = futures s key"

definition interval_put :: "usize \<Rightarrow> 'f \<Rightarrow> 'f interval_set \<Rightarrow> 'f interval_set" where
  "interval_put key f s = s\<lparr>futures := (futures s)(key \<mapsto> f)\<rparr>"

lemmas interval_defs [op_defs] =
  interval_default_def interval_insert_def interval_remove_def interval_get_def interval_put_def

text \<open>The invariant: every key in the map was handed out by the counter.\<close>

definition keys_issued :: "'f interval_set \<Rightarrow> bool" where
  "keys_issued s \<longleftrightarrow> (\<forall>k \<in> dom (futures s). k < next_key s)"

lemma keys_issued_default [inv_intros]: "keys_issued interval_default"
  by (simp add: keys_issued_def op_defs)

subsection \<open>The interface the actor context relies on\<close>

text \<open>
  A registry hands out a fresh key for every value it accepts, keeps the values it holds, and drops
  exactly the one removed. A registration that fails changes no value; nothing is promised after it.
\<close>

locale registry =
  fixes insert :: "'f \<Rightarrow> 's \<Rightarrow> 'k option \<times> 's"
    and remove :: "'k \<Rightarrow> 's \<Rightarrow> 's"
    and lookup :: "'s \<Rightarrow> 'k \<rightharpoonup> 'f"
    and inv :: "'s \<Rightarrow> bool"
  assumes insert_fresh: "inv s \<Longrightarrow> insert f s = (Some k, s') \<Longrightarrow> lookup s k = None"
    and insert_lookup: "inv s \<Longrightarrow> insert f s = (Some k, s') \<Longrightarrow> lookup s' = (lookup s)(k \<mapsto> f)"
    and insert_full: "insert f s = (None, s') \<Longrightarrow> lookup s' = lookup s"
    and insert_inv: "inv s \<Longrightarrow> insert f s = (Some k, s') \<Longrightarrow> inv s'"
    and remove_lookup: "lookup (remove k s) = (lookup s)(k := None)"
    and remove_inv: "inv s \<Longrightarrow> inv (remove k s)"

text \<open>Registering a list of values, until one is refused.\<close>

fun register_all ::
  "('f \<Rightarrow> 's \<Rightarrow> 'k option \<times> 's) \<Rightarrow> 'f list \<Rightarrow> 's \<Rightarrow> 'k list option \<times> 's" where
  "register_all ins [] s = (Some [], s)"
| "register_all ins (f # fs) s =
     (case ins f s of
        (None, s') \<Rightarrow> (None, s')
      | (Some k, s') \<Rightarrow>
          (case register_all ins fs s' of
             (None, s'') \<Rightarrow> (None, s'')
           | (Some ks, s'') \<Rightarrow> (Some (k # ks), s'')))"

context registry begin

lemma insert_keeps:
  "inv s \<Longrightarrow> insert f s = (Some k, s') \<Longrightarrow> lookup s j = Some g \<Longrightarrow> j \<noteq> k \<and> lookup s' j = Some g"
  using insert_fresh insert_lookup by fastforce

lemma register_all_keeps:
  "inv s \<Longrightarrow> register_all insert fs s = (Some ks, s') \<Longrightarrow> lookup s j = Some g
    \<Longrightarrow> j \<notin> set ks \<and> lookup s' j = Some g"
proof (induction fs arbitrary: s ks)
  case Nil
  then show ?case by simp
next
  case (Cons f fs)
  then obtain k s1 ks' where s1: "insert f s = (Some k, s1)"
    and ks: "register_all insert fs s1 = (Some ks', s')" "ks = k # ks'"
    by (auto split: prod.splits option.splits)
  from insert_keeps [OF Cons.prems(1) s1 Cons.prems(3)]
  have j: "j \<noteq> k" "lookup s1 j = Some g" by auto
  with Cons.IH [OF insert_inv [OF Cons.prems(1) s1] ks(1)] ks(2) show ?case by simp
qed

lemma register_all_inv: "inv s \<Longrightarrow> register_all insert fs s = (Some ks, s') \<Longrightarrow> inv s'"
  by (induction fs arbitrary: s ks) (auto split: prod.splits option.splits intro: insert_inv)

lemma register_all_distinct:
  "inv s \<Longrightarrow> register_all insert fs s = (Some ks, s')
    \<Longrightarrow> distinct ks \<and> map (lookup s') ks = map Some fs"
proof (induction fs arbitrary: s ks)
  case Nil
  then show ?case by simp
next
  case (Cons f fs)
  then obtain k s1 ks' where s1: "insert f s = (Some k, s1)"
    and ks: "register_all insert fs s1 = (Some ks', s')" "ks = k # ks'"
    by (auto split: prod.splits option.splits)
  have inv1: "inv s1" by (rule insert_inv [OF Cons.prems(1) s1])
  have k: "lookup s1 k = Some f" by (simp add: insert_lookup [OF Cons.prems(1) s1])
  from register_all_keeps [OF inv1 ks(1) k] Cons.IH [OF inv1 ks(1)] ks(2) show ?case by simp
qed

end

lemma interval_insert_SomeD:
  assumes "interval_insert f s = (Some k, s')"
  shows "k = next_key s" "k \<noteq> usize_max"
    and "s' = \<lparr>next_key = k + 1, futures = (futures s)(k \<mapsto> f)\<rparr>"
  using assms by (auto simp: op_defs Let_def split: if_splits)

lemma interval_insert_keys_issued:
  assumes "keys_issued s" and ins: "interval_insert f s = (Some k, s')"
  shows "keys_issued s'"
  using assms(1) interval_insert_SomeD [OF ins]
  by (auto simp: keys_issued_def less_usize_Suc dest: order.strict_implies_order)

lemma interval_remove_keys_issued [inv_intros]: "keys_issued s \<Longrightarrow> keys_issued (interval_remove k s)"
  by (auto simp: keys_issued_def op_defs)

lemma interval_put_keys_issued [inv_intros]:
  "keys_issued s \<Longrightarrow> interval_get k s = Some g \<Longrightarrow> keys_issued (interval_put k f s)"
  by (auto simp: keys_issued_def op_defs)

interpretation intervals: registry interval_insert interval_remove futures keys_issued
proof (unfold_locales, goal_cases)
  case (1 s f k s')
  then show ?case using interval_insert_SomeD [OF 1(2)] by (auto simp: keys_issued_def)
next
  case (2 s f k s')
  then show ?case using interval_insert_SomeD [OF 2(2)] by simp
next
  case (3 f s s')
  then show ?case by (auto simp: op_defs Let_def split: if_splits)
next
  case (4 s f k s')
  then show ?case by (rule interval_insert_keys_issued)
next
  case (5 k s)
  then show ?case by (simp add: op_defs)
next
  case (6 s k)
  then show ?case by (rule interval_remove_keys_issued)
qed

text \<open>
  Interval closures registered one after another get distinct keys, and afterwards every key
  leads to the closure it was handed out for.
\<close>

theorem interval_keys_distinct:
  assumes "keys_issued s" and "register_all interval_insert fs s = (Some ks, s')"
  shows "distinct ks \<and> map (\<lambda>k. interval_get k s') ks = map Some fs"
  using intervals.register_all_distinct [OF assms] by (simp add: op_defs)

theorem interval_keys_distinct_witness:
  "distinct [0 :: usize, 1, 2] \<and>
   map (\<lambda>k. interval_get k
          \<lparr>next_key = 3, futures = [0 \<mapsto> ''a'', 1 \<mapsto> ''b'', 2 \<mapsto> ''c'']\<rparr>) [0, 1, 2]
     = map Some [''a'', ''b'', ''c'']"
proof (rule interval_keys_distinct)
  show "keys_issued interval_default" by (rule keys_issued_default)
  show "register_all interval_insert [''a'', ''b'', ''c''] interval_default =
    (Some [0, 1, 2], \<lparr>next_key = 3, futures = [0 \<mapsto> ''a'', 1 \<mapsto> ''b'', 2 \<mapsto> ''c'']\<rparr>)"
    by (simp add: op_defs)
qed

end
