(* ===== verification/Future_Handle.thy ===== *)
theory Future_Handle
  imports Messages
begin

section \<open>Cancelable tasks (\<open>src/util/future_handle.rs\<close>)\<close>

text \<open>
  A cancelable task and its handlers share one locked cell, a flag and the waker of the last poll. The
  task is a \<open>select\<close> of a \<open>FinisherFuture\<close>, which completes once the flag is set, and of the future
  proper. A waker is a \<open>'wk\<close>; an \<open>Arc\<close> to a cell is the cell's number in a list of cells.
  \<open>select\<close> is code of futures-util: a parameter \<open>sel\<close> that combines what the two polls returned.
\<close>

record 'wk finisher =
  fin_done :: bool
  fin_waker :: "'wk option"

definition finisher_new :: "'wk finisher" where
  "finisher_new = \<lparr>fin_done = False, fin_waker = None\<rparr>"

definition finisher_poll :: "'wk \<Rightarrow> 'wk finisher \<Rightarrow> unit poll \<times> 'wk finisher" where
  "finisher_poll wk s =
     (if fin_done s then (Ready (), s) else (Pending, s\<lparr>fin_waker := Some wk\<rparr>))"

text \<open>The locked part of \<open>FutureHandler::cancel\<close>: the waker it takes out, and the cell.\<close>

definition finisher_cancel :: "'wk finisher \<Rightarrow> 'wk option \<times> 'wk finisher" where
  "finisher_cancel s = (fin_waker s, s\<lparr>fin_done := True, fin_waker := None\<rparr>)"

lemmas finisher_defs [op_defs] = finisher_new_def finisher_poll_def finisher_cancel_def

text \<open>One poll of the task of \<open>spawn_cancelable\<close>: \<open>select\<close> of the finisher and the future.\<close>

definition cancelable_poll ::
  "(unit poll \<Rightarrow> 'o poll \<Rightarrow> (unit + 'o) poll) \<Rightarrow> 'wk \<Rightarrow> 'o poll \<Rightarrow> 'wk finisher
     \<Rightarrow> (unit + 'o) poll \<times> 'wk finisher" where
  "cancelable_poll sel wk fut s = (let (fin, s') = finisher_poll wk s in (sel fin fut, s'))"

text \<open>What futures-util documents of \<open>select\<close>: it completes as soon as one side does.\<close>

definition select_completes :: "(unit poll \<Rightarrow> 'o poll \<Rightarrow> (unit + 'o) poll) \<Rightarrow> bool" where
  "select_completes sel \<longleftrightarrow>
     sel Pending Pending = Pending \<and>
     sel (Ready ()) Pending = Ready (Inl ()) \<and>
     (\<forall>x. sel Pending (Ready x) = Ready (Inr x)) \<and>
     (\<forall>x. sel (Ready ()) (Ready x) \<in> {Ready (Inl ()), Ready (Inr x)})"

text \<open>
  \<open>spawn_cancelable\<close> allocates the cell, shared by the task it spawns and the handler it returns;
  \<open>attach_tx\<close> marks the handler of an interval task; \<open>Clone\<close> copies the \<open>Arc\<close> and the mark.
\<close>

definition spawn_cancelable ::
  "'wk finisher list \<Rightarrow> (nat \<Rightarrow> ('m, 'f, 'rep, 'wk) effect)
     \<Rightarrow> future_handler \<times> 'wk finisher list \<times> ('m, 'f, 'rep, 'wk) effect list" where
  "spawn_cancelable cells task =
     (\<lparr>fh_cell = length cells, fh_tx = None\<rparr>, cells @ [finisher_new], [task (length cells)])"

definition attach_tx :: "usize \<Rightarrow> future_handler \<Rightarrow> future_handler" where
  "attach_tx index h = h\<lparr>fh_tx := Some index\<rparr>"

definition handler_clone :: "future_handler \<Rightarrow> future_handler" where
  "handler_clone h = \<lparr>fh_cell = fh_cell h, fh_tx = map_option (\<lambda>idx. idx) (fh_tx h)\<rparr>"

text \<open>
  \<open>FutureHandler::cancel\<close>: set the flag, wake the task, and for an interval task ask the actor to
  drop the closure, if the address's channel can still be reached (\<open>alive\<close>, the result of
  \<open>upgrade\<close>).
\<close>

definition handler_cancel ::
  "bool \<Rightarrow> future_handler \<Rightarrow> 'wk finisher list
     \<Rightarrow> 'wk finisher list \<times> ('m, 'f, 'rep, 'wk) effect list" where
  "handler_cancel alive h cells =
     (let (opt, cell) = finisher_cancel (cells ! fh_cell h)
      in (cells[fh_cell h := cell],
          (case opt of None \<Rightarrow> [] | Some waker \<Rightarrow> [WakeTask waker]) @
          (case fh_tx h of
             None \<Rightarrow> []
           | Some index \<Rightarrow> if alive then [SpawnSend (Interval (Remove index))] else [])))"

text \<open>The completion callbacks: of a delayed message, and of an interval loop.\<close>

definition delay_on_ready ::
  "bool \<Rightarrow> ('m, 'f) context_message \<Rightarrow> unit + unit \<Rightarrow> ('m, 'f) context_message option" where
  "delay_on_ready handle_delay_on_shutdown msg either =
     (case either of
        Inl _ \<Rightarrow> if \<not> handle_delay_on_shutdown then None else Some msg
      | Inr _ \<Rightarrow> Some msg)"

lemmas handler_defs [op_defs] =
  spawn_cancelable_def attach_tx_def handler_clone_def handler_cancel_def cancelable_poll_def
  delay_on_ready_def

lemma handler_clone_same [simp]: "handler_clone h = h"
  by (simp add: op_defs option.map_ident)

lemma fst_handler_cancel:
  "fst (handler_cancel alive h cells) =
     cells[fh_cell h := snd (finisher_cancel (cells ! fh_cell h))]"
  by (simp add: op_defs Let_def split_def)

lemma handler_cancel_wakes:
  "fin_waker (cells ! fh_cell h) = Some wk \<Longrightarrow> WakeTask wk \<in> set (snd (handler_cancel alive h cells))"
  by (simp add: op_defs Let_def split_def)

lemma cancel_cell_done_mono:
  "fin_done (cells ! j) \<Longrightarrow> fin_done (cells[i := snd (finisher_cancel (cells ! i))] ! j)"
  by (cases "j = i"; cases "i < length cells")
    (simp_all add: finisher_cancel_def not_less list_update_beyond)

lemma handler_cancel_replies [simp]: "replies (snd (handler_cancel alive h cells)) = []"
  by (simp add: op_defs Let_def split_def split: option.splits)

subsection \<open>No wake-up is lost\<close>

text \<open>
  The two sides of a cell as a sequence of operations: polls by the task, with the waker each
  carries, and cancellations by the handlers. The lock makes each one atomic. The output of an
  operation is what the poll returned, or the waker the cancellation took.
\<close>

datatype 'wk finisher_op = FinPoll 'wk | FinCancel
datatype 'wk finisher_out = Polled "unit poll" | Woke "'wk option"

fun finisher_step :: "'wk finisher_op \<Rightarrow> 'wk finisher \<Rightarrow> 'wk finisher_out \<times> 'wk finisher" where
  "finisher_step (FinPoll wk) s = (let (p, s') = finisher_poll wk s in (Polled p, s'))"
| "finisher_step FinCancel s = (let (w, s') = finisher_cancel s in (Woke w, s'))"

fun finisher_run :: "'wk finisher_op list \<Rightarrow> 'wk finisher \<Rightarrow> 'wk finisher_out list \<times> 'wk finisher" where
  "finisher_run [] s = ([], s)"
| "finisher_run (x # xs) s =
     (let (out, s') = finisher_step x s; (outs, s'') = finisher_run xs s' in (out # outs, s''))"

lemma finisher_run_append:
  "finisher_run (xs @ ys) s =
     (let (o1, s1) = finisher_run xs s; (o2, s2) = finisher_run ys s1 in (o1 @ o2, s2))"
  by (induction xs arbitrary: s) (simp_all add: Let_def split_def)

lemma length_finisher_run [simp]: "length (fst (finisher_run xs s)) = length xs"
  by (induction xs arbitrary: s) (simp_all add: Let_def split_def)

lemma finisher_run_done:
  "fin_done (snd (finisher_run xs s)) \<longleftrightarrow> fin_done s \<or> FinCancel \<in> set xs"
proof (induction xs arbitrary: s)
  case Nil
  then show ?case by simp
next
  case (Cons x xs)
  show ?case by (cases x) (auto simp: Cons.IH op_defs Let_def split_def)
qed

text \<open>Once the flag is set, every poll completes and no waker is stored.\<close>

lemma finisher_run_after_done:
  "fin_done s \<Longrightarrow> fin_waker s = None
    \<Longrightarrow> fst (finisher_run xs s) =
         map (\<lambda>x. case x of FinPoll _ \<Rightarrow> Polled (Ready ()) | FinCancel \<Rightarrow> Woke None) xs"
proof (induction xs arbitrary: s)
  case Nil
  then show ?case by simp
next
  case (Cons x xs)
  then show ?case by (cases x) (simp_all add: op_defs Let_def split_def)
qed

lemma finisher_run_polls:
  "FinCancel \<notin> set xs \<Longrightarrow> \<not> fin_done s
    \<Longrightarrow> snd (finisher_run (xs @ [FinPoll wk]) s) = \<lparr>fin_done = False, fin_waker = Some wk\<rparr>"
proof (induction xs arbitrary: s)
  case Nil
  then show ?case by (simp add: op_defs Let_def)
next
  case (Cons x xs)
  then show ?case by (cases x) (simp_all add: op_defs Let_def split_def)
qed

text \<open>
  A cancellation is never lost: whatever polls came before it, the first cancellation wakes the
  task with the waker of its last poll, and every later poll completes.
\<close>

theorem cancel_wakes_task:
  assumes "FinCancel \<notin> set before"
  shows "fst (finisher_run (before @ [FinPoll wk, FinCancel] @ after) finisher_new) =
           map (\<lambda>_. Polled Pending) before @ [Polled Pending, Woke (Some wk)] @
           map (\<lambda>x. case x of FinPoll _ \<Rightarrow> Polled (Ready ()) | FinCancel \<Rightarrow> Woke None) after"
proof -
  have pend: "\<not> fin_done s \<Longrightarrow> FinCancel \<notin> set xs
      \<Longrightarrow> fst (finisher_run xs s) = map (\<lambda>_. Polled Pending) xs" for xs and s :: "'a finisher"
  proof (induction xs arbitrary: s)
    case (Cons x xs)
    then show ?case by (cases x) (simp_all add: op_defs Let_def split_def)
  qed simp
  define s where "s = snd (finisher_run (before @ [FinPoll wk]) finisher_new)"
  have s: "s = \<lparr>fin_done = False, fin_waker = Some wk\<rparr>"
    unfolding s_def by (rule finisher_run_polls) (use assms in \<open>simp_all add: op_defs\<close>)
  have "fst (finisher_run (before @ [FinPoll wk]) finisher_new) =
      map (\<lambda>_. Polled Pending) (before @ [FinPoll wk])"
    using assms by (intro pend) (auto simp: op_defs)
  moreover have "fst (finisher_run (FinCancel # after) s) =
      Woke (Some wk) # map (\<lambda>x. case x of FinPoll _ \<Rightarrow> Polled (Ready ()) | FinCancel \<Rightarrow> Woke None) after"
    by (simp add: s op_defs Let_def split_def finisher_run_after_done)
  ultimately show ?thesis
    using finisher_run_append [of "before @ [FinPoll wk]" "FinCancel # after" finisher_new]
    by (simp add: s_def Let_def split_def)
qed

theorem cancel_wakes_task_witness:
  "fst (finisher_run ([FinPoll (7 :: nat)] @ [FinPoll 8, FinCancel] @ [FinCancel, FinPoll 9]) finisher_new) =
     map (\<lambda>_. Polled Pending) [FinPoll (7 :: nat)] @ [Polled Pending, Woke (Some 8)] @
     map (\<lambda>x. case x of FinPoll _ \<Rightarrow> Polled (Ready ()) | FinCancel \<Rightarrow> Woke None) [FinCancel, FinPoll (9 :: nat)]"
  by (rule cancel_wakes_task) simp

text \<open>
  A cancelled task completes at its next poll, whatever its own future does; a task that is not
  cancelled completes exactly when its future does, with the future's output.
\<close>

theorem cancelable_poll_completes:
  assumes "select_completes sel"
  shows "fst (cancelable_poll sel wk fut s) \<in>
           (if fin_done s
            then (case fut of
                    Pending \<Rightarrow> {Ready (Inl ())}
                  | Ready x \<Rightarrow> {Ready (Inl ()), Ready (Inr x)})
            else {map_poll Inr fut})"
  using assms by (cases fut) (auto simp: op_defs select_completes_def)

theorem cancelable_poll_completes_witness:
  "fst (cancelable_poll
          (\<lambda>l r. case l of Ready u \<Rightarrow> Ready (Inl u) | Pending \<Rightarrow> map_poll Inr r)
          (0 :: nat) (Ready True) finisher_new) \<in> {Ready (Inr True)}"
  using cancelable_poll_completes
    [of "\<lambda>l r. case l of Ready u \<Rightarrow> Ready (Inl u) | Pending \<Rightarrow> map_poll Inr r" "0 :: nat" "Ready True"
        finisher_new]
  by (simp add: select_completes_def finisher_new_def)

end
