(* ===== verification/Actor_Config.thy ===== *)
theory Actor_Config
  imports Prelude
begin

section \<open>The settings of a set of actors (\<open>src/builder.rs\<close>)\<close>

text \<open>
  \<open>Config\<close>, its defaults, and the setters of \<open>Builder\<close>. The setters take and return the whole
  builder; here they take and return its configuration, the only field they write. \<open>Builder::num\<close>
  panics when the number is not above \<open>0\<close>; a panic is \<open>None\<close>.
\<close>

record config =
  num :: usize
  restart_on_err :: bool
  handle_delayed_on_shutdown :: bool
  allow_broadcast :: bool
  allow_subscribe :: bool
  timeout :: duration

text \<open>\<open>Duration::from_secs\<close>.\<close>

definition from_secs :: "nat \<Rightarrow> duration" where
  "from_secs n = n * 1000000000"

definition config_default :: config where
  "config_default =
     \<lparr>num = 1, restart_on_err = False, handle_delayed_on_shutdown = False,
      allow_broadcast = False, allow_subscribe = False, timeout = from_secs 10\<rparr>"

definition check_num :: "usize \<Rightarrow> usize \<Rightarrow> bool" where
  "check_num n target \<longleftrightarrow> n > target"

definition builder_num :: "usize \<Rightarrow> config \<Rightarrow> config option" where
  "builder_num n c = (if check_num n 0 then Some (c\<lparr>num := n\<rparr>) else None)"

definition builder_handle_delayed_on_shutdown :: "config \<Rightarrow> config" where
  "builder_handle_delayed_on_shutdown c = c\<lparr>handle_delayed_on_shutdown := True\<rparr>"

definition builder_restart_on_err :: "config \<Rightarrow> config" where
  "builder_restart_on_err c = c\<lparr>restart_on_err := True\<rparr>"

definition builder_timeout :: "duration \<Rightarrow> config \<Rightarrow> config" where
  "builder_timeout d c = c\<lparr>timeout := d\<rparr>"

definition builder_allow_broadcast :: "config \<Rightarrow> config" where
  "builder_allow_broadcast c = c\<lparr>allow_broadcast := True\<rparr>"

definition builder_allow_subscribe :: "config \<Rightarrow> config" where
  "builder_allow_subscribe c = c\<lparr>allow_subscribe := True\<rparr>"

lemmas config_defs [op_defs] =
  from_secs_def config_default_def check_num_def builder_num_def
  builder_handle_delayed_on_shutdown_def builder_restart_on_err_def builder_timeout_def
  builder_allow_broadcast_def builder_allow_subscribe_def

text \<open>One call of a setter, and a chain of them as a caller writes it.\<close>

datatype setter =
  SetNum usize | SetHandleDelayed | SetRestart | SetTimeout duration | SetBroadcast | SetSubscribe

fun apply_setter :: "setter \<Rightarrow> config \<Rightarrow> config option" where
  "apply_setter (SetNum n) c = builder_num n c"
| "apply_setter SetHandleDelayed c = Some (builder_handle_delayed_on_shutdown c)"
| "apply_setter SetRestart c = Some (builder_restart_on_err c)"
| "apply_setter (SetTimeout d) c = Some (builder_timeout d c)"
| "apply_setter SetBroadcast c = Some (builder_allow_broadcast c)"
| "apply_setter SetSubscribe c = Some (builder_allow_subscribe c)"

fun apply_setters :: "setter list \<Rightarrow> config \<Rightarrow> config option" where
  "apply_setters [] c = Some c"
| "apply_setters (s # ss) c = Option.bind (apply_setter s c) (apply_setters ss)"

text \<open>
  A chain of setters on the defaults: it panics exactly when some call asks for no actors, and
  otherwise each setting is that of the last call for it, or the default.
\<close>

definition last_setting :: "(setter \<Rightarrow> 'x option) \<Rightarrow> 'x \<Rightarrow> setter list \<Rightarrow> 'x" where
  "last_setting sel d ss = foldl (\<lambda>x s. case sel s of None \<Rightarrow> x | Some y \<Rightarrow> y) d ss"

fun set_num :: "setter \<Rightarrow> usize option" where
  "set_num (SetNum n) = Some n" | "set_num _ = None"

fun set_timeout :: "setter \<Rightarrow> duration option" where
  "set_timeout (SetTimeout d) = Some d" | "set_timeout _ = None"

definition config_of_setters :: "config \<Rightarrow> setter list \<Rightarrow> config" where
  "config_of_setters c ss =
     \<lparr>num = last_setting set_num (num c) ss,
      restart_on_err = (restart_on_err c \<or> SetRestart \<in> set ss),
      handle_delayed_on_shutdown = (handle_delayed_on_shutdown c \<or> SetHandleDelayed \<in> set ss),
      allow_broadcast = (allow_broadcast c \<or> SetBroadcast \<in> set ss),
      allow_subscribe = (allow_subscribe c \<or> SetSubscribe \<in> set ss),
      timeout = last_setting set_timeout (timeout c) ss\<rparr>"

text \<open>
  A chain of builder calls panics exactly when one of them asks for zero actors; otherwise a
  flag is set when some call sets it, and the number and the timeout are those of the last call.
\<close>

theorem builder_chain:
  "apply_setters ss c = (if SetNum 0 \<in> set ss then None else Some (config_of_setters c ss))"
proof (induction ss arbitrary: c)
  case Nil
  show ?case by (simp add: config_of_setters_def last_setting_def)
next
  case (Cons s ss)
  show ?case
    by (cases s)
      (auto simp: Cons.IH op_defs config_of_setters_def last_setting_def word_gt_0)
qed

end
