(* ===== verification/Actor_State.thy ===== *)
theory Actor_State
  imports Future_Handle Interval_Set Actor_Config
begin

section \<open>The state a set of actors shares (\<open>src/actor.rs\<close>)\<close>

text \<open>
  \<open>ActorState\<close>: the atomic counter of running actors, whose lowest bit marks that the address is
  shutting down, the handlers of the delayed and interval tasks, the registered interval closures and
  the configuration. The \<open>Arc\<close>s make every clone of the state one and the same record.
\<close>

definition MARKER :: usize where "MARKER = 1"

definition UNIT :: usize where "UNIT = push_bit 1 1"

record 'f actor_state =
  active :: usize
  handlers :: "future_handler list"
  interval_futures :: "'f future_container interval_set"
  state_config :: config

definition actor_state_new :: "config \<Rightarrow> 'f actor_state" where
  "actor_state_new c =
     \<lparr>active = 0, handlers = [], interval_futures = interval_default, state_config = c\<rparr>"

definition is_running :: "'f actor_state \<Rightarrow> bool" where
  "is_running s \<longleftrightarrow> active s AND MARKER = 0"

definition push_handler :: "future_handler list \<Rightarrow> 'f actor_state \<Rightarrow> 'f actor_state" where
  "push_handler hs s = (if is_running s then s\<lparr>handlers := handlers s @ hs\<rparr> else s)"

definition state_restart_on_err :: "'f actor_state \<Rightarrow> bool" where
  "state_restart_on_err s = restart_on_err (state_config s)"

definition handle_delay_on_shutdown :: "'f actor_state \<Rightarrow> bool" where
  "handle_delay_on_shutdown s = handle_delayed_on_shutdown (state_config s)"

definition state_allow_broadcast :: "'f actor_state \<Rightarrow> bool" where
  "state_allow_broadcast s = allow_broadcast (state_config s)"

definition state_allow_subscribe :: "'f actor_state \<Rightarrow> bool" where
  "state_allow_subscribe s = allow_subscribe (state_config s)"

definition state_timeout :: "'f actor_state \<Rightarrow> duration" where
  "state_timeout s = timeout (state_config s)"

text \<open>
  \<open>broadcast_receiver\<close>: with broadcasting allowed, a new bounded channel, whose sender is pushed onto
  the caller's list. Creating the channel is code of async-channel: the parameter \<open>bounded\<close>, which
  gives the two ends of a channel of a capacity in some world.
\<close>

definition broadcast_receiver ::
  "(usize \<Rightarrow> 'w \<Rightarrow> 'tx \<times> 'rx \<times> 'w) \<Rightarrow> 'f actor_state \<Rightarrow> usize \<Rightarrow> 'tx list \<Rightarrow> 'w
     \<Rightarrow> 'rx option \<times> 'tx list \<times> 'w" where
  "broadcast_receiver bounded s n senders w =
     (if state_allow_broadcast s
      then (let (tx, rx, w') = bounded n w in (Some rx, senders @ [tx], w'))
      else (None, senders, w))"

text \<open>
  \<open>modify_active\<close> when nobody interferes with its compare-and-exchange: the loop's first round. That
  the loop does the same under interference is the subject of the last section.
\<close>

definition modify_active :: "(usize \<Rightarrow> usize) \<Rightarrow> 'f actor_state \<Rightarrow> bool \<times> 'f actor_state" where
  "modify_active f s =
     (if active s AND MARKER \<noteq> 0 then (False, s) else (True, s\<lparr>active := f (active s)\<rparr>))"

definition inc_active :: "'f actor_state \<Rightarrow> bool \<times> 'f actor_state" where
  "inc_active = modify_active (\<lambda>a. a + UNIT)"

definition dec_active :: "'f actor_state \<Rightarrow> bool \<times> 'f actor_state" where
  "dec_active = modify_active (\<lambda>a. a - UNIT)"

definition current_active :: "'f actor_state \<Rightarrow> usize" where
  "current_active s = drop_bit 1 (active s)"

text \<open>\<open>shutdown\<close> cancels every handler in turn.\<close>

fun cancel_all ::
  "bool \<Rightarrow> future_handler list \<Rightarrow> 'wk finisher list
     \<Rightarrow> 'wk finisher list \<times> ('m, 'f, 'rep, 'wk) effect list" where
  "cancel_all alive [] cells = (cells, [])"
| "cancel_all alive (h # hs) cells =
     (let (cells', es) = handler_cancel alive h cells;
          (cells'', es') = cancel_all alive hs cells'
      in (cells'', es @ es'))"

definition shutdown ::
  "bool \<Rightarrow> 'f actor_state \<Rightarrow> 'wk finisher list
     \<Rightarrow> 'f actor_state \<times> 'wk finisher list \<times> ('m, 'f, 'rep, 'wk) effect list" where
  "shutdown alive s cells =
     (let s' = s\<lparr>active := active s OR MARKER\<rparr>;
          (cells', es) = cancel_all alive (handlers s') cells
      in (s', cells', es))"

lemmas actor_state_defs [op_defs] =
  MARKER_def UNIT_def actor_state_new_def is_running_def push_handler_def state_restart_on_err_def
  handle_delay_on_shutdown_def state_allow_broadcast_def state_allow_subscribe_def state_timeout_def
  broadcast_receiver_def modify_active_def inc_active_def dec_active_def current_active_def
  shutdown_def

subsection \<open>The counter\<close>

lemma marker_clear_iff: "(a :: usize) AND MARKER = 0 \<longleftrightarrow> even a"
  by (simp add: MARKER_def and_one_word_eq)

lemma UNIT_eq: "UNIT = 2"
  by (simp add: UNIT_def push_bit_eq_mult)

lemma is_running_iff_even: "is_running s \<longleftrightarrow> even (active s)"
  by (simp add: is_running_def marker_clear_iff)

lemma modify_active_eq:
  "modify_active f s =
     (if is_running s then (True, s\<lparr>active := f (active s)\<rparr>) else (False, s))"
  by (simp add: modify_active_def is_running_def)

lemma is_running_inc [simp]: "is_running (snd (inc_active s)) = is_running s"
  by (simp add: inc_active_def modify_active_eq is_running_iff_even UNIT_eq)

lemma is_running_dec [simp]: "is_running (snd (dec_active s)) = is_running s"
  by (simp add: dec_active_def modify_active_eq is_running_iff_even UNIT_eq)

lemma dec_inc_active [simp]: "snd (dec_active (snd (inc_active s))) = s"
  by (simp add: inc_active_def dec_active_def modify_active_eq is_running_iff_even UNIT_eq)

subsection \<open>Shutting down\<close>

text \<open>What cancelling does to the cells alone.\<close>

abbreviation cancel_cell :: "'wk finisher list \<Rightarrow> future_handler \<Rightarrow> 'wk finisher list" where
  "cancel_cell cells h \<equiv> cells[fh_cell h := snd (finisher_cancel (cells ! fh_cell h))]"

lemma fst_cancel_all: "fst (cancel_all alive hs cells) = foldl cancel_cell cells hs"
  by (induction hs arbitrary: cells) (simp_all add: Let_def split_def fst_handler_cancel)

lemma snd_cancel_all_Cons:
  "snd (cancel_all alive (h # hs) cells) =
     snd (handler_cancel alive h cells) @ snd (cancel_all alive hs (cancel_cell cells h))"
  by (simp add: Let_def split_def fst_handler_cancel)

lemma foldl_cancel_done_mono:
  "fin_done (cells ! j) \<Longrightarrow> fin_done (foldl cancel_cell cells hs ! j)"
  by (induction hs arbitrary: cells) (simp_all add: cancel_cell_done_mono)

lemma foldl_cancel_done:
  "h \<in> set hs \<Longrightarrow> \<forall>h \<in> set hs. fh_cell h < length cells
    \<Longrightarrow> fin_done (foldl cancel_cell cells hs ! fh_cell h)"
proof (induction hs arbitrary: cells)
  case (Cons g hs)
  show ?case
  proof (cases "h = g")
    case True
    with Cons.prems(2) have "fin_done (cancel_cell cells g ! fh_cell h)"
      by (simp add: finisher_cancel_def)
    then show ?thesis by (simp add: foldl_cancel_done_mono)
  qed (use Cons in simp)
qed simp

lemma cancel_all_wakes:
  "h \<in> set hs \<Longrightarrow> \<forall>h \<in> set hs. fh_cell h < length cells \<Longrightarrow> fin_waker (cells ! fh_cell h) = Some wk
    \<Longrightarrow> WakeTask wk \<in> set (snd (cancel_all alive hs cells))"
proof (induction hs arbitrary: cells)
  case (Cons g hs)
  show ?case
  proof (cases "fh_cell g = fh_cell h")
    case True
    with Cons.prems(3) show ?thesis
      by (simp add: snd_cancel_all_Cons handler_cancel_wakes del: cancel_all.simps)
  next
    case False
    with Cons.prems have "h \<in> set hs" by auto
    with False Cons show ?thesis by (simp add: snd_cancel_all_Cons del: cancel_all.simps)
  qed
qed simp

text \<open>
  C27. \<open>shutdown\<close> sets the marker, keeps the number of active actors, cancels every task whose handler
  was pushed and wakes each one that is waiting; from then on the counter is frozen and no handler
  is accepted.
\<close>

theorem shutdown_cancels_all:
  assumes "shutdown alive s cells = (s', cells', es)"
    and "\<forall>h \<in> set (handlers s). fh_cell h < length cells"
  shows "\<not> is_running s' \<and> current_active s' = current_active s
     \<and> (\<forall>h \<in> set (handlers s). fin_done (cells' ! fh_cell h)
          \<and> set_option (fin_waker (cells ! fh_cell h)) \<subseteq> {wk. WakeTask wk \<in> set es})
     \<and> inc_active s' = (False, s') \<and> dec_active s' = (False, s') \<and> push_handler hs s' = s'"
proof -
  from assms(1) have s': "s' = s\<lparr>active := active s OR MARKER\<rparr>"
    and c: "cancel_all alive (handlers s) cells = (cells', es)"
    by (auto simp: shutdown_def Let_def split_def)
  have stop: "\<not> is_running s'" by (simp add: s' is_running_iff_even MARKER_def even_or_iff)
  have count: "current_active s' = current_active s"
    by (simp add: s' current_active_def MARKER_def drop_bit_or)
  have es: "es = snd (cancel_all alive (handlers s) cells)" by (simp add: c)
  have "cells' = fst (cells', es)" by simp
  then have cells': "cells' = foldl cancel_cell cells (handlers s)"
    unfolding c [symmetric] by (simp only: fst_cancel_all)
  have wakes: "WakeTask wk \<in> set es"
    if "h \<in> set (handlers s)" "fin_waker (cells ! fh_cell h) = Some wk" for h wk
    unfolding es by (rule cancel_all_wakes [OF that(1) assms(2) that(2)])
  have "fin_done (cells' ! fh_cell h) \<and> set_option (fin_waker (cells ! fh_cell h)) \<subseteq> {wk. WakeTask wk \<in> set es}"
    if "h \<in> set (handlers s)" for h
    using foldl_cancel_done [OF that assms(2)] wakes [OF that] by (auto simp: cells')
  with stop count show ?thesis
    by (simp add: inc_active_def dec_active_def modify_active_eq push_handler_def)
qed

theorem shutdown_cancels_all_witness:
  "\<exists>s' :: unit actor_state. \<exists>cells'.
     \<not> is_running s' \<and> current_active s' = 3 \<and> fin_done (cells' ! 0 :: nat finisher) \<and>
     inc_active s' = (False, s')"
proof -
  let ?s = "(actor_state_new config_default :: unit actor_state)
    \<lparr>active := 6, handlers := [\<lparr>fh_cell = 0, fh_tx = None\<rparr>]\<rparr>"
  let ?cells = "[\<lparr>fin_done = False, fin_waker = Some (4 :: nat)\<rparr>]"
  obtain s' cells' es where sh: "shutdown True ?s ?cells =
      (s', cells', es :: (unit, unit, unit, nat) effect list)"
    by (metis prod_cases3)
  have "\<forall>h \<in> set (handlers ?s). fh_cell h < length ?cells" by simp
  from shutdown_cancels_all [OF sh this, of "[]"] show ?thesis
    by (intro exI [of _ s'] exI [of _ cells']) (simp add: current_active_def drop_bit_eq_div)
qed

end
