(* ===== verification/Active_Counter.thy ===== *)
theory Active_Counter
  imports Actor_State
begin

section \<open>The lock-free counter under interference (\<open>modify_active\<close> in \<open>src/actor.rs\<close>)\<close>

text \<open>
  \<open>inc_active\<close> and \<open>dec_active\<close> load the counter and then loop on a weak compare-and-exchange, which
  may also fail for no reason. Every actor of the set runs this loop on the same atomic, and
  \<open>shutdown\<close> may set the marker between any two of its steps. The abstract counter does each
  operation in one step; every interleaving of the loops is a run of the abstract counter.
\<close>

text \<open>
  Where a caller is in the loop: before the load, with the value it last read, or returned. One
  step per access to the atomic; \<open>weak\<close> says that this exchange fails spuriously.
\<close>

datatype cas_local = CasLoad | CasTry usize | CasDone bool

fun modify_active_step ::
  "(usize \<Rightarrow> usize) \<Rightarrow> bool \<Rightarrow> usize \<times> cas_local \<Rightarrow> usize \<times> cas_local" where
  "modify_active_step f weak (m, CasLoad) = (m, CasTry m)"
| "modify_active_step f weak (m, CasTry a) =
     (if a AND MARKER \<noteq> 0 then (m, CasDone False)
      else if m = a \<and> \<not> weak then (f a, CasDone True)
      else (m, CasTry m))"
| "modify_active_step f weak (m, CasDone r) = (m, CasDone r)"

datatype active_op = IncActive | DecActive

fun active_fun :: "active_op \<Rightarrow> usize \<Rightarrow> usize" where
  "active_fun IncActive = (\<lambda>a. a + UNIT)"
| "active_fun DecActive = (\<lambda>a. a - UNIT)"

text \<open>With nobody interfering the loop is the operation of \<open>Actor_State\<close>.\<close>

lemma modify_active_uncontended:
  "modify_active_step f False (modify_active_step f False (active s, CasLoad)) =
     (active (snd (modify_active f s)), CasDone (fst (modify_active f s)))"
  by (simp add: modify_active_def)

record counter_sys =
  word_val :: usize
  locals :: "nat \<Rightarrow> cas_local"

datatype counter_event = Silent | Finished active_op bool | Marked

fun event_of :: "active_op \<Rightarrow> cas_local \<Rightarrow> counter_event" where
  "event_of op (CasDone b) = Finished op b"
| "event_of op _ = Silent"

text \<open>
  A move is one step of caller \<open>i\<close>, which runs the operation \<open>ops i\<close>, or \<open>shutdown\<close>'s \<open>fetch_or\<close>. An
  interleaving is a list of moves; its log says what returned, and when.
\<close>

datatype counter_move = Caller nat bool | Mark

fun counter_step ::
  "(nat \<Rightarrow> active_op) \<Rightarrow> counter_move \<Rightarrow> counter_sys \<Rightarrow> counter_event \<times> counter_sys" where
  "counter_step ops (Caller i weak) s =
     (case locals s i of
        CasDone _ \<Rightarrow> (Silent, s)
      | l \<Rightarrow>
          (let (m', l') = modify_active_step (active_fun (ops i)) weak (word_val s, l)
           in (event_of (ops i) l', s\<lparr>word_val := m', locals := (locals s)(i := l')\<rparr>)))"
| "counter_step ops Mark s = (Marked, s\<lparr>word_val := word_val s OR MARKER\<rparr>)"

fun counter_run ::
  "(nat \<Rightarrow> active_op) \<Rightarrow> counter_move list \<Rightarrow> counter_sys \<Rightarrow> counter_event list \<times> counter_sys" where
  "counter_run ops [] s = ([], s)"
| "counter_run ops (x # xs) s =
     (let (e, s') = counter_step ops x s; (es, s'') = counter_run ops xs s' in (e # es, s''))"

text \<open>The abstract counter: an operation succeeds when the marker is clear, and is refused otherwise.\<close>

fun counter_spec :: "counter_event \<Rightarrow> usize \<Rightarrow> usize option" where
  "counter_spec Silent w = Some w"
| "counter_spec Marked w = Some (w OR MARKER)"
| "counter_spec (Finished op b) w =
     (if b = even w then Some (if b then active_fun op w else w) else None)"

fun counter_spec_run :: "counter_event list \<Rightarrow> usize \<Rightarrow> usize option" where
  "counter_spec_run [] w = Some w"
| "counter_spec_run (e # es) w = Option.bind (counter_spec e w) (counter_spec_run es)"

text \<open>
  The invariant of the simulation: a caller that read the marker read it from the counter, where it
  still is, since no operation clears it.
\<close>

definition marker_sticks :: "counter_sys \<Rightarrow> bool" where
  "marker_sticks s \<longleftrightarrow> (\<forall>i a. locals s i = CasTry a \<longrightarrow> odd a \<longrightarrow> odd (word_val s))"

definition counter_start :: "usize \<Rightarrow> counter_sys" where
  "counter_start w = \<lparr>word_val = w, locals = (\<lambda>_. CasLoad)\<rparr>"

lemma even_active_fun [simp]: "even (active_fun op w) = even w"
  by (cases op) (simp_all add: UNIT_eq)

lemma counter_step_spec:
  assumes "counter_step ops x s = (e, t)" and "marker_sticks s"
  shows "counter_spec e (word_val s) = Some (word_val t) \<and> marker_sticks t"
proof (cases x)
  case (Caller i weak)
  with assms show ?thesis
    by (cases "locals s i") (auto simp: marker_sticks_def marker_clear_iff split: if_splits)
next
  case Mark
  with assms show ?thesis by (auto simp: marker_sticks_def MARKER_def even_or_iff)
qed

lemma counter_run_spec:
  "counter_run ops xs s = (evs, t) \<Longrightarrow> marker_sticks s
    \<Longrightarrow> counter_spec_run evs (word_val s) = Some (word_val t)"
proof (induction xs arbitrary: s evs)
  case (Cons x xs)
  then obtain e u es where u: "counter_step ops x s = (e, u)" and es: "counter_run ops xs u = (es, t)"
    and evs: "evs = e # es"
    by (auto simp: Let_def split: prod.splits)
  with Cons.IH [OF es] counter_step_spec [OF u Cons.prems(2)] show ?case by simp
qed simp

lemma counter_run_from_start:
  "counter_run ops xs (counter_start w) = (evs, s) \<Longrightarrow> counter_spec_run evs w = Some (word_val s)"
  using counter_run_spec by (fastforce simp: counter_start_def marker_sticks_def)

text \<open>
  C33. The compare-and-exchange loops are linearizable: in every interleaving, the operations that have
  returned, in the order they returned, with the results they returned, take the abstract counter
  from the first value to the present one.
\<close>

theorem modify_active_linearizable:
  assumes "counter_run ops xs (counter_start w) = (evs, s)"
  shows "counter_spec_run evs w = Some (word_val s)"
  by (rule counter_run_from_start [OF assms])

text \<open>
  An interleaving in which caller \<open>0\<close> counts itself while caller \<open>1\<close> has read the counter: the
  exchange of caller \<open>1\<close> fails, is tried again and succeeds; then the address shuts down, and caller
  \<open>2\<close>, which stops, is refused.
\<close>

definition contended_moves :: "counter_move list" where
  "contended_moves =
     [Caller 1 False, Caller 0 False, Caller 0 False, Caller 1 False, Caller 1 False, Mark,
      Caller 2 False, Caller 2 False]"

definition contended_ops :: "nat \<Rightarrow> active_op" where
  "contended_ops i = (if i = 2 then DecActive else IncActive)"

definition contended_log :: "counter_event list" where
  "contended_log =
     [Silent, Silent, Finished IncActive True, Silent, Finished IncActive True, Marked,
      Silent, Finished DecActive False]"

lemma contended_run:
  "counter_run contended_ops contended_moves (counter_start 0) =
     (contended_log,
      \<lparr>word_val = 5,
       locals = (\<lambda>_. CasLoad)(0 := CasDone True, 1 := CasDone True, 2 := CasDone False)\<rparr>)"
  by (simp add: contended_moves_def contended_ops_def contended_log_def counter_start_def
      MARKER_def UNIT_eq fun_upd_twist)

theorem modify_active_linearizable_witness: "counter_spec_run contended_log 0 = Some 5"
  using modify_active_linearizable [OF contended_run] by simp

subsection \<open>What the counter counts\<close>

definition succeeded :: "active_op \<Rightarrow> counter_event list \<Rightarrow> nat" where
  "succeeded op evs = length (filter (\<lambda>e. e = Finished op True) evs)"

lemma or_marker_eq: "(w :: usize) OR 1 = (if even w then w + 1 else w)"
  by (simp add: or_one_eq)

lemma counter_spec_run_value:
  "counter_spec_run evs w = Some v \<Longrightarrow>
     v = w + 2 * of_nat (succeeded IncActive evs) - 2 * of_nat (succeeded DecActive evs)
       + (if Marked \<in> set evs \<and> even w then 1 else 0)"
proof (induction evs arbitrary: w)
  case Nil
  then show ?case by (simp add: succeeded_def)
next
  case (Cons e evs)
  then obtain u where u: "counter_spec e w = Some u" and v: "counter_spec_run evs u = Some v"
    by (auto simp: bind_eq_Some_conv)
  show ?case
  proof (cases e)
    case (Finished op b)
    with Cons.IH [OF v] u show ?thesis
      by (cases op; cases b) (auto simp: succeeded_def UNIT_eq algebra_simps split: if_splits)
  qed (use Cons.IH [OF v] u in \<open>auto simp: succeeded_def MARKER_def or_marker_eq algebra_simps\<close>)
qed

text \<open>
  However the loops interleave, the number \<open>current_active\<close> reads is the number of increments
  that succeeded less the number of decrements that did, also after the shutdown marker is set.
\<close>

theorem current_active_counts:
  assumes "counter_run ops xs (counter_start 0) = (evs, s)" and "active st = word_val s"
    and "succeeded DecActive evs \<le> succeeded IncActive evs"
    and "succeeded IncActive evs - succeeded DecActive evs < 2 ^ 63"
  shows "unat (current_active st) = succeeded IncActive evs - succeeded DecActive evs
     \<and> (is_running st \<longleftrightarrow> Marked \<notin> set evs)"
proof -
  define n where "n = succeeded IncActive evs - succeeded DecActive evs"
  define k :: nat where "k = (if Marked \<in> set evs then 1 else 0)"
  have "word_val s = 2 * of_nat (succeeded IncActive evs) - 2 * of_nat (succeeded DecActive evs)
      + of_nat k"
    using counter_spec_run_value [OF counter_run_from_start [OF assms(1)]] by (simp add: k_def)
  also have "\<dots> = of_nat (2 * n + k)" using assms(3) by (simp add: n_def of_nat_diff algebra_simps)
  finally have w: "active st = of_nat (2 * n + k)" by (simp add: assms(2))
  have "2 * n + k < 2 ^ 64" using assms(4) by (simp add: n_def k_def)
  then have u: "unat (active st) = 2 * n + k" by (simp only: w unat_of_nat_usize)
  have "unat (current_active st) = n"
    unfolding current_active_def unat_drop_bit_eq u by (simp add: drop_bit_eq_div k_def)
  moreover have "even (active st) \<longleftrightarrow> k = 0"
    by (simp add: w k_def)
  ultimately show ?thesis by (simp add: n_def k_def is_running_iff_even)
qed

theorem current_active_counts_witness:
  "unat (current_active ((actor_state_new config_default :: unit actor_state)\<lparr>active := 5\<rparr>)) = 2"
  using current_active_counts [OF contended_run,
      of "(actor_state_new config_default :: unit actor_state)\<lparr>active := 5\<rparr>"]
  by (simp add: contended_log_def succeeded_def)

text \<open>
  The loop is obstruction free: a caller that runs alone, with exchanges that do not fail
  spuriously, has returned after two steps wherever it was in the loop, and from the load on it
  returns whether the marker was clear.
\<close>

theorem modify_active_returns:
  "snd ((modify_active_step f False ^^ 2) (m, l)) \<in> range CasDone
   \<and> snd ((modify_active_step f False ^^ 2) (m, CasLoad)) = CasDone (even m)"
  by (cases l) (auto simp: numeral_2_eq_2 marker_clear_iff)

end
