(* ===== verification/Channel_Sender.thy ===== *)
theory Channel_Sender
  imports Send_Error
begin

section \<open>Senders, receivers and timeouts
  (\<open>src/sender.rs\<close>, \<open>src/receiver.rs\<close>, \<open>src/util/runtime.rs\<close>)\<close>

text \<open>
  \<open>Sender\<close> is an \<open>Arc\<close> around a channel's sending half. The \<open>Arc\<close> is the standard library's: a
  strong count, here the number of live \<open>Sender\<close>s. The channel is code of async-channel (or of tokio's
  mpsc): a parameter of operations over some channel state.
\<close>

subsection \<open>Reference counts\<close>

text \<open>The strong count of an \<open>Arc\<close> when it is created, cloned, dropped, and upgraded from a \<open>Weak\<close>.\<close>

definition sender_from :: nat where "sender_from = 1"

definition sender_clone :: "nat \<Rightarrow> nat" where "sender_clone n = n + 1"

definition sender_drop :: "nat \<Rightarrow> nat" where "sender_drop n = n - 1"

definition weak_upgrade :: "nat \<Rightarrow> nat option" where
  "weak_upgrade n = (if 0 < n then Some (n + 1) else None)"

text \<open>\<open>GroupSender\<close> and \<open>WeakGroupSender\<close>: the same around a vector of senders.\<close>

definition group_from :: nat where "group_from = 1"

definition group_clone :: "nat \<Rightarrow> nat" where "group_clone n = n + 1"

definition group_upgrade :: "nat \<Rightarrow> nat option" where
  "group_upgrade n = (if 0 < n then Some (n + 1) else None)"

subsection \<open>Sending and receiving\<close>

text \<open>
  What the crate calls on a channel: polling a send, sending without waiting, and polling a receive.
  The error of a send or a receive carries nothing the crate looks at.
\<close>

record ('ch, 'm) channel_ops =
  ch_send :: "'m \<Rightarrow> 'ch \<Rightarrow> ((unit + unit) \<times> 'ch) poll"
  ch_try_send :: "'m \<Rightarrow> 'ch \<Rightarrow> (unit + unit) \<times> 'ch"
  ch_recv :: "'ch \<Rightarrow> ((unit + 'm) \<times> 'ch) poll"

definition sender_send :: "('ch, 'm) channel_ops \<Rightarrow> 'm \<Rightarrow> 'ch \<Rightarrow> (unit send_result \<times> 'ch) poll" where
  "sender_send C msg ch = map_poll (map_prod (map_err (\<lambda>_. Closed)) id) (ch_send C msg ch)"

definition sender_try_send :: "('ch, 'm) channel_ops \<Rightarrow> 'm \<Rightarrow> 'ch \<Rightarrow> unit send_result \<times> 'ch" where
  "sender_try_send C msg ch = map_prod (map_err (\<lambda>_. Closed)) id (ch_try_send C msg ch)"

text \<open>With the feature \<open>actix-runtime-mpsc\<close> both send without waiting.\<close>

definition mpsc_sender_send :: "('ch, 'm) channel_ops \<Rightarrow> 'm \<Rightarrow> 'ch \<Rightarrow> (unit send_result \<times> 'ch) poll" where
  "mpsc_sender_send C msg ch = Ready (map_prod (map_err (\<lambda>_. Closed)) id (ch_try_send C msg ch))"

definition receiver_recv :: "('ch, 'm) channel_ops \<Rightarrow> 'ch \<Rightarrow> ('m send_result \<times> 'ch) poll" where
  "receiver_recv C ch = map_poll (map_prod (map_err (\<lambda>_. Closed)) id) (ch_recv C ch)"

text \<open>
  \<open>runtime::timeout\<close>: the runtime's timer, a parameter \<open>tmo\<close> that polls a future under a deadline,
  with its error renamed. \<open>Sender::send_timeout\<close> sends under a deadline; a send that the deadline cuts
  off leaves the channel as it was.
\<close>

definition runtime_timeout ::
  "(duration \<Rightarrow> 'x poll \<Rightarrow> (unit + 'x) poll) \<Rightarrow> duration \<Rightarrow> 'x poll \<Rightarrow> 'x send_result poll" where
  "runtime_timeout tmo dur fut = map_poll (map_err (\<lambda>_. Timeout)) (tmo dur fut)"

definition send_timeout ::
  "(duration \<Rightarrow> (unit send_result \<times> 'ch) poll \<Rightarrow> (unit + unit send_result \<times> 'ch) poll)
     \<Rightarrow> ('ch, 'm) channel_ops \<Rightarrow> 'm \<Rightarrow> duration \<Rightarrow> 'ch \<Rightarrow> (unit send_result \<times> 'ch) poll" where
  "send_timeout tmo C msg dur ch =
     (let fut = sender_send C msg ch
      in map_poll
           (\<lambda>r. case r of
              Inl e \<Rightarrow> (Inl e, ch)
            | Inr (sent, ch') \<Rightarrow> (map_err (\<lambda>_. Closed) sent, ch'))
           (runtime_timeout tmo dur fut))"

text \<open>
  \<open>spawn_blocking\<close>, by the runtime the crate is built for: what joining the spawned closure gives is a
  parameter, an error when the closure panicked. \<open>None\<close> is a panic.
\<close>

datatype runtime = TokioRuntime | AsyncStdRuntime | ActixRuntime

definition runtime_spawn_blocking :: "runtime \<Rightarrow> unit + 'v \<Rightarrow> 'v send_result option" where
  "runtime_spawn_blocking rt joined =
     (case rt of
        TokioRuntime \<Rightarrow> Some (map_err (\<lambda>_. Blocking) joined)
      | AsyncStdRuntime \<Rightarrow> (case joined of Inr v \<Rightarrow> Some (Ok v) | Inl _ \<Rightarrow> None)
      | ActixRuntime \<Rightarrow> None)"

text \<open>
  \<open>yield_now\<close>: a future that is pending once. A poll gives what it returns, whether it wakes its own
  task, and the flag \<open>yielded\<close>.
\<close>

definition yield_now_poll :: "bool \<Rightarrow> unit poll \<times> bool \<times> bool" where
  "yield_now_poll yielded = (if yielded then (Ready (), False, yielded) else (Pending, True, True))"

lemmas sender_defs [op_defs] =
  sender_from_def sender_clone_def sender_drop_def weak_upgrade_def group_from_def group_clone_def
  group_upgrade_def sender_send_def sender_try_send_def mpsc_sender_send_def receiver_recv_def
  runtime_timeout_def send_timeout_def

text \<open>
  What the runtimes document of a timeout: the value of the future if it completes, an error once the
  deadline has passed, and otherwise waiting.
\<close>

definition timeout_law :: "(duration \<Rightarrow> 'x poll \<Rightarrow> (unit + 'x) poll) \<Rightarrow> bool" where
  "timeout_law tmo \<longleftrightarrow>
     (\<forall>d x. tmo d (Ready x) = Ready (Inr x)) \<and> (\<forall>d. tmo d Pending \<in> {Ready (Inl ()), Pending})"

text \<open>
  A send under a deadline succeeds exactly when the channel takes the message at once, is
  \<open>Closed\<close> exactly when the channel refuses it, and is cut off with \<open>Timeout\<close> only while the channel
  makes it wait, in which case the channel is unchanged.
\<close>

theorem send_timeout_outcome:
  assumes "timeout_law tmo"
  shows "send_timeout tmo C msg dur ch =
           (case ch_send C msg ch of
              Ready (Inr u, ch') \<Rightarrow> Ready (Ok u, ch')
            | Ready (Inl _, ch') \<Rightarrow> Ready (Err Closed, ch')
            | Pending \<Rightarrow> (if tmo dur Pending = Pending then Pending else Ready (Err Timeout, ch)))"
proof (cases "ch_send C msg ch")
  case (Ready r)
  obtain s ch' where "r = (s, ch')" by force
  with Ready assms show ?thesis
    by (cases s) (simp_all add: op_defs timeout_law_def Let_def)
next
  case Pending
  from assms have "tmo dur Pending = Pending \<or> tmo dur Pending = Ready (Inl ())"
    by (auto simp: timeout_law_def)
  with Pending show ?thesis by (auto simp: op_defs)
qed

text \<open>A channel that holds at most two messages, and a runtime on which every deadline has passed.\<close>

definition two_slot :: "(nat list, nat) channel_ops" where
  "two_slot =
     \<lparr>ch_send = (\<lambda>m ms. if length ms < 2 then Ready (Inr (), ms @ [m]) else Pending),
      ch_try_send = (\<lambda>m ms. if length ms < 2 then (Inr (), ms @ [m]) else (Inl (), ms)),
      ch_recv = (\<lambda>ms. case ms of [] \<Rightarrow> Pending | m # ms' \<Rightarrow> Ready (Inr m, ms'))\<rparr>"

definition deadline_passed :: "duration \<Rightarrow> 'x poll \<Rightarrow> (unit + 'x) poll" where
  "deadline_passed d p = (case p of Ready x \<Rightarrow> Ready (Inr x) | Pending \<Rightarrow> Ready (Inl ()))"

theorem send_timeout_outcome_witness:
  "send_timeout deadline_passed two_slot 7 10 [5, 6] = Ready (Err Timeout, [5, 6])"
proof -
  have "timeout_law (deadline_passed :: duration \<Rightarrow> (unit send_result \<times> nat list) poll \<Rightarrow> _)"
    by (simp add: timeout_law_def deadline_passed_def)
  from send_timeout_outcome [OF this, of two_slot 7 10 "[5, 6]"] show ?thesis
    by (simp add: two_slot_def deadline_passed_def)
qed

end
