(* ===== verification/Actor_Context.thy ===== *)
theory Actor_Context
  imports Actor_State Channel_Sender
begin

section \<open>The actor context (\<open>src/context.rs\<close>)\<close>

text \<open>
  \<open>ActorContext\<close> owns one actor instance and handles the messages it takes from the channel. What the
  user writes, the \<open>Handler\<close> implementation, the two hooks and the closures, is a parameter: a record
  of functions on the actor's state \<open>'a\<close>. The state all actors of an address share is threaded
  through; what the code asks of the runtime and of the oneshot channels is a list of effects.
  Whether the receiving half of a oneshot channel is still there is a parameter \<open>open_rx\<close>.
\<close>

record ('a, 'm, 'r, 'f, 'ty, 'v) actor_impl =
  impl_handle :: "'m \<Rightarrow> 'a \<Rightarrow> 'r \<times> 'a"
  impl_call :: "'f \<Rightarrow> 'a \<Rightarrow> ('ty \<times> 'v) \<times> 'f \<times> 'a"
  impl_on_start :: "'a \<Rightarrow> 'a"
  impl_on_stop :: "'a \<Rightarrow> 'a"

text \<open>The hooks an \<open>Actor\<close> implementation inherits when it writes none.\<close>

definition default_on_start :: "'a \<Rightarrow> 'a" where "default_on_start a = a"

definition default_on_stop :: "'a \<Rightarrow> 'a" where "default_on_stop a = a"

record 'a actor_context =
  ctx_id :: usize
  generation :: usize
  selecting :: bool
  manual_shutdown :: bool
  actor :: 'a

text \<open>
  The shared side: the \<open>ActorState\<close>, the cells of the cancelable tasks, and the number of strong
  senders of the channel, which the context's \<open>WeakSender\<close> can upgrade.
\<close>

record ('f, 'wk) shared =
  state :: "'f actor_state"
  cells :: "'wk finisher list"
  tx_strong :: nat

type_synonym ('m, 'r, 'f, 'ty, 'v, 'wk) ctx_effect = "('m, 'f, ('r, 'ty, 'v) reply, 'wk) effect"

text \<open>\<open>ActorContext::new\<close>: with a broadcast receiver the context selects over both channels.\<close>

definition context_new :: "usize \<Rightarrow> 'rx option \<Rightarrow> 'a \<Rightarrow> 'a actor_context" where
  "context_new i broadcast_rx act =
     \<lparr>ctx_id = i, generation = 0,
      selecting = (case broadcast_rx of Some _ \<Rightarrow> True | None \<Rightarrow> False),
      manual_shutdown = False, actor = act\<rparr>"

definition context_state_of :: "'a actor_context \<Rightarrow> context_state" where
  "context_state_of c = \<lparr>cs_id = ctx_id c, cs_generation = generation c\<rparr>"

subsection \<open>The handlers\<close>

fun handle_instant_msg ::
  "('a, 'm, 'r, 'f, 'ty, 'v) actor_impl \<Rightarrow> ('m, 'f) instant_message \<Rightarrow> 'a actor_context
     \<Rightarrow> 'a actor_context \<times> ('m, 'r, 'f, 'ty, 'v, 'wk) ctx_effect list" where
  "handle_instant_msg impl (InstantStatic tx msg) c =
     (let (res, act) = impl_handle impl msg (actor c)
      in (c\<lparr>actor := act\<rparr>,
          case tx of Some tx \<Rightarrow> [OneshotSend tx (ReplyResult res)] | None \<Rightarrow> []))"
| "handle_instant_msg impl (InstantDynamic tx fut) c =
     (let (res, fut', act) = future_container_handle (impl_call impl) fut (actor c)
      in (c\<lparr>actor := act\<rparr>,
          case tx of Some tx \<Rightarrow> [OneshotSend tx (ReplyAny res)] | None \<Rightarrow> []))"

fun instant_of_delayed :: "('m, 'f) delayed_message \<Rightarrow> ('m, 'f) context_message \<times> duration" where
  "instant_of_delayed (DelayedStatic msg dur) = (Instant (InstantStatic None msg), dur)"
| "instant_of_delayed (DelayedDynamic fut dur) = (Instant (InstantDynamic None fut), dur)"

definition handle_delayed_msg ::
  "('m, 'f) delayed_message \<Rightarrow> ('f, 'wk) shared
     \<Rightarrow> ('f, 'wk) shared \<times> ('m, 'r, 'f, 'ty, 'v, 'wk) ctx_effect list" where
  "handle_delayed_msg dmsg sh =
     (let (msg, dur) = instant_of_delayed dmsg
      in case weak_upgrade (tx_strong sh) of
           None \<Rightarrow> (sh, [])
         | Some strong \<Rightarrow>
             (let on_shutdown = handle_delay_on_shutdown (state sh);
                  (handler, cells', es) =
                    spawn_cancelable (cells sh) (\<lambda>cell. SpawnDelay cell dur on_shutdown msg)
              in (sh\<lparr>state := push_handler [handler] (state sh), cells := cells',
                     tx_strong := strong\<rparr>, es)))"

text \<open>
  \<open>handle_interval_msg\<close>. The assertion in \<open>insert\<close> can panic, which ends the actor's task: the second
  component is then \<open>None\<close>.
\<close>

fun handle_interval_msg ::
  "('a, 'm, 'r, 'f, 'ty, 'v) actor_impl \<Rightarrow> 'f interval_message \<Rightarrow> ('f, 'wk) shared
     \<Rightarrow> 'a actor_context
     \<Rightarrow> ('f, 'wk) shared
         \<times> ('a actor_context \<times> ('m, 'r, 'f, 'ty, 'v, 'wk) ctx_effect list) option" where
  "handle_interval_msg impl (Run idx) sh c =
     (case interval_get idx (interval_futures (state sh)) of
        Some fut \<Rightarrow>
          (let (_, fut', act) = future_container_handle (impl_call impl) fut (actor c)
           in (sh\<lparr>state := (state sh)
                  \<lparr>interval_futures := interval_put idx fut' (interval_futures (state sh))\<rparr>\<rparr>,
               Some (c\<lparr>actor := act\<rparr>, [])))
      | None \<Rightarrow> (sh, Some (c, [])))"
| "handle_interval_msg impl (Remove idx) sh c =
     (sh\<lparr>state := (state sh)
        \<lparr>interval_futures := interval_remove idx (interval_futures (state sh))\<rparr>\<rparr>,
      Some (c, []))"
| "handle_interval_msg impl (Register tx fut dur) sh c =
     (let (key, futs) = interval_insert fut (interval_futures (state sh));
          sh1 = sh\<lparr>state := (state sh)\<lparr>interval_futures := futs\<rparr>\<rparr>
      in case key of
           None \<Rightarrow> (sh1, None)
         | Some index \<Rightarrow>
             (let (h, cells', es) = spawn_cancelable (cells sh1) (\<lambda>cell. SpawnInterval cell dur index);
                  handler = attach_tx index h
              in (sh1\<lparr>state := push_handler [handler_clone handler] (state sh1), cells := cells'\<rparr>,
                  Some (c, es @ [OneshotSend tx (ReplyHandler handler)]))))"

text \<open>One turn of the interval loop that \<open>Register\<close> spawns: \<open>None\<close> when the loop ends.\<close>

definition interval_tick :: "nat \<Rightarrow> usize \<Rightarrow> ('m, 'f) context_message option" where
  "interval_tick strong index =
     (case weak_upgrade strong of
        Some _ \<Rightarrow> Some (Interval (Run index))
      | None \<Rightarrow> None)"

text \<open>\<open>handle_msg\<close>: whether to leave the loop, with the context and the effects; \<open>None\<close> is a panic.\<close>

fun handle_msg ::
  "('a, 'm, 'r, 'f, 'ty, 'v) actor_impl \<Rightarrow> (oneshot \<Rightarrow> bool) \<Rightarrow> ('m, 'f) context_message
     \<Rightarrow> ('f, 'wk) shared \<Rightarrow> 'a actor_context
     \<Rightarrow> ('f, 'wk) shared
         \<times> (bool \<times> 'a actor_context \<times> ('m, 'r, 'f, 'ty, 'v, 'wk) ctx_effect list) option" where
  "handle_msg impl open_rx (Instant msg) sh c =
     (let (c', es) = handle_instant_msg impl msg c in (sh, Some (False, c', es)))"
| "handle_msg impl open_rx (Delayed msg) sh c =
     (let (sh', es) = handle_delayed_msg msg sh in (sh', Some (False, c, es)))"
| "handle_msg impl open_rx (Interval msg) sh c =
     (case handle_interval_msg impl msg sh c of
        (sh', None) \<Rightarrow> (sh', None)
      | (sh', Some (c', es)) \<Rightarrow> (sh', Some (False, c', es)))"
| "handle_msg impl open_rx (ManualShutDown tx) sh c =
     (if open_rx tx
      then (sh, Some (True, c\<lparr>manual_shutdown := True\<rparr>,
                      [OneshotSend tx (ReplyState (context_state_of c))]))
      else (sh, Some (False, c, [])))"

subsection \<open>What one message does\<close>

lemma spawn_cancelable_simps [simp]:
  "spawn_cancelable cs task = (\<lparr>fh_cell = length cs, fh_tx = None\<rparr>, cs @ [finisher_new], [task (length cs)])"
  by (simp add: spawn_cancelable_def)

lemma push_handler_frame [simp]:
  "active (push_handler hs s) = active s"
  "interval_futures (push_handler hs s) = interval_futures s"
  "state_config (push_handler hs s) = state_config s"
  by (simp_all add: push_handler_def)

lemma is_running_frame [simp]:
  "is_running (s\<lparr>interval_futures := x\<rparr>) = is_running s"
  by (simp add: is_running_def)

lemma handle_delayed_frame:
  "handle_delayed_msg m sh = (sh', es) \<Longrightarrow>
     active (state sh') = active (state sh) \<and> state_config (state sh') = state_config (state sh)"
  by (auto simp: handle_delayed_msg_def Let_def split: option.splits prod.splits)

lemma handle_interval_frame:
  "handle_interval_msg impl m sh c = (sh', r) \<Longrightarrow>
     active (state sh') = active (state sh) \<and> state_config (state sh') = state_config (state sh)"
  by (cases m) (auto simp: Let_def split: option.splits prod.splits)

text \<open>No message changes the counter or the configuration.\<close>

lemma handle_msg_frame:
  assumes "handle_msg impl open_rx m sh c = (sh', r)"
  shows "active (state sh') = active (state sh)" "state_config (state sh') = state_config (state sh)"
  using assms by (cases m;
    force simp: Let_def dest: handle_delayed_frame handle_interval_frame
      split: prod.splits option.splits if_splits)+

text \<open>The context's number and generation stay; only a shutdown request sets \<open>manual_shutdown\<close>.\<close>

lemma handle_msg_context:
  assumes "handle_msg impl open_rx m sh c = (sh', Some (brk, c', es))"
  shows "ctx_id c' = ctx_id c \<and> generation c' = generation c
     \<and> manual_shutdown c' = (brk \<or> manual_shutdown c)"
proof (cases m)
  case (Instant im)
  with assms show ?thesis by (cases im) (auto simp: Let_def split: prod.splits)
next
  case (Interval im)
  with assms show ?thesis by (cases im) (auto simp: Let_def split: prod.splits option.splits)
qed (use assms in \<open>auto simp: Let_def split: prod.splits if_splits\<close>)

text \<open>
  Every message that carries a oneshot sender is answered exactly once, on that sender, and no other
  sender is used; the one exception is a shutdown request whose caller has gone, which is not
  answered and does not stop the loop. Nothing else stops the loop.
\<close>

theorem handle_msg_replies_once:
  assumes "handle_msg impl open_rx m sh c = (sh', Some (should_break, c', es))"
  shows "map fst (replies es) =
           (case m of
              ManualShutDown tx \<Rightarrow> if open_rx tx then [tx] else []
            | _ \<Rightarrow> (case message_oneshot m of None \<Rightarrow> [] | Some tx \<Rightarrow> [tx]))
     \<and> should_break = (case m of ManualShutDown tx \<Rightarrow> open_rx tx | _ \<Rightarrow> False)"
proof (cases m)
  case (Instant im)
  with assms show ?thesis by (cases im) (auto simp: Let_def split: prod.splits option.splits)
next
  case (Interval im)
  with assms show ?thesis by (cases im) (auto simp: Let_def split: prod.splits option.splits)
next
  case (Delayed dm)
  with assms show ?thesis
    by (auto simp: handle_delayed_msg_def Let_def split: prod.splits option.splits)
qed (use assms in \<open>auto split: if_splits\<close>)

text \<open>
  A delayed message is held by one cancelable task. When its delay is over, the message is sent as an
  instant message that expects no reply. When the task is cancelled first it is sent at once with
  \<open>handle_delayed_on_shutdown\<close>, and dropped without. The task holds a sender, so the channel stays
  open while it waits. With every sender gone nothing is spawned.
\<close>

theorem delayed_message_fate:
  "handle_delayed_msg dm sh =
     (if tx_strong sh = 0 then (sh, [])
      else (sh\<lparr>state := push_handler [\<lparr>fh_cell = length (cells sh), fh_tx = None\<rparr>] (state sh),
               cells := cells sh @ [finisher_new], tx_strong := tx_strong sh + 1\<rparr>,
            [SpawnDelay (length (cells sh)) (snd (instant_of_delayed dm))
               (handle_delay_on_shutdown (state sh)) (fst (instant_of_delayed dm))]))
   \<and> message_oneshot (fst (instant_of_delayed dm)) = None
   \<and> delay_on_ready flag msg (Inr ()) = Some msg
   \<and> delay_on_ready flag msg (Inl ()) = (if flag then Some msg else None)"
  by (cases dm) (simp_all add: handle_delayed_msg_def weak_upgrade_def delay_on_ready_def)

subsection \<open>The invariant of the shared state\<close>

text \<open>Every handler points at a cell, and the interval keys in use were issued by the counter.\<close>

definition shared_ok :: "('f, 'wk) shared \<Rightarrow> bool" where
  "shared_ok sh \<longleftrightarrow>
     (\<forall>h \<in> set (handlers (state sh)). fh_cell h < length (cells sh)) \<and>
     keys_issued (interval_futures (state sh))"

lemma handle_delayed_ok [inv_intros]:
  "shared_ok sh \<Longrightarrow> handle_delayed_msg m sh = (sh', es) \<Longrightarrow> shared_ok sh'"
  by (auto simp: shared_ok_def handle_delayed_msg_def push_handler_def Let_def less_Suc_eq
      split: prod.splits option.splits if_splits)

lemma handle_interval_ok [inv_intros]:
  assumes "shared_ok sh" and "handle_interval_msg impl m sh c = (sh', Some r)"
  shows "shared_ok sh'"
proof (cases m)
  case (Register tx fut dur)
  with assms obtain index futs
    where ins: "interval_insert fut (interval_futures (state sh)) = (Some index, futs)"
    by (auto simp: Let_def split: prod.splits option.splits)
  from assms(1) have "keys_issued futs"
    by (auto simp: shared_ok_def intro: interval_insert_keys_issued [OF _ ins])
  with assms Register ins show ?thesis
    by (auto simp: shared_ok_def push_handler_def attach_tx_def Let_def less_Suc_eq split: if_splits)
next
  case (Run idx)
  with assms show ?thesis
    by (auto simp: shared_ok_def Let_def split: prod.splits option.splits
        intro: interval_put_keys_issued)
next
  case (Remove idx)
  with assms show ?thesis by (auto simp: shared_ok_def intro: interval_remove_keys_issued)
qed

text \<open>
  Handling a message keeps the invariant of the shared state, whatever the message, unless it
  panics.
\<close>

theorem handle_msg_keeps_shared_ok:
  assumes "shared_ok sh" and "handle_msg impl open_rx m sh c = (sh', Some r)"
  shows "shared_ok sh'"
  using assms
  by (cases m) (auto simp: Let_def split: prod.splits option.splits if_splits
      intro: handle_delayed_ok handle_interval_ok)

subsection \<open>Interval closures\<close>

lemma handle_register_SomeD:
  assumes "handle_interval_msg impl (Register tx fut dur) sh c = (sh', Some (c', es))"
  obtains index where "index \<noteq> usize_max" "index = next_key (interval_futures (state sh))"
    and "interval_futures (state sh') =
           \<lparr>next_key = index + 1, futures = (futures (interval_futures (state sh)))(index \<mapsto> fut)\<rparr>"
    and "c' = c"
    and "es = [SpawnInterval (length (cells sh)) dur index,
               OneshotSend tx (ReplyHandler \<lparr>fh_cell = length (cells sh), fh_tx = Some index\<rparr>)]"
proof -
  from assms obtain index futs
    where ins: "interval_insert fut (interval_futures (state sh)) = (Some index, futs)"
    by (auto simp: Let_def split: prod.splits option.splits)
  with assms that interval_insert_SomeD [OF ins] show ?thesis by (auto simp: attach_tx_def Let_def)
qed

text \<open>
  Registering an interval closure answers with a handler that carries its index; from then on a
  tick of that index runs this closure on the actor that takes the message, and keeps the closure's
  new state; after the index is removed a tick of it changes nothing.
\<close>

theorem interval_register_then_run:
  assumes "handle_interval_msg impl (Register tx fut dur) sh c = (sh1, Some (c1, es))"
    and "impl_call impl (func fut) (actor c2) = (out, f', act')"
  shows "\<exists>index h. replies es = [(tx, ReplyHandler h)] \<and> fh_tx h = Some index \<and>
     (\<exists>sh2. handle_interval_msg impl (Run index) sh1 c2 = (sh2, Some (c2\<lparr>actor := act'\<rparr>, []))
        \<and> interval_get index (interval_futures (state sh2)) = Some (fut\<lparr>func := f'\<rparr>)) \<and>
     (\<exists>sh2. handle_interval_msg impl (Remove index) sh1 c2 = (sh2, Some (c2, []))
        \<and> handle_interval_msg impl (Run index) sh2 c2 = (sh2, Some (c2, [])))"
proof -
  from assms(1) obtain index where reg:
    "interval_futures (state sh1) =
       \<lparr>next_key = index + 1, futures = (futures (interval_futures (state sh)))(index \<mapsto> fut)\<rparr>"
    "es = [SpawnInterval (length (cells sh)) dur index,
           OneshotSend tx (ReplyHandler \<lparr>fh_cell = length (cells sh), fh_tx = Some index\<rparr>)]"
    by (rule handle_register_SomeD)
  obtain ty v where out: "out = (ty, v)" by force
  note run = container_handle_eq
    [of "impl_call impl" fut "actor c2" ty v f' act', OF assms(2) [unfolded out]]
  show ?thesis
    by (rule exI [of _ index], rule exI [of _ "\<lparr>fh_cell = length (cells sh), fh_tx = Some index\<rparr>"])
      (simp add: reg run interval_get_def interval_put_def interval_remove_def)
qed

subsection \<open>The theorems at work\<close>

text \<open>
  An actor that adds up numbers and answers with the sum, whose start counts one; its closures add
  their captured number and capture the next.
\<close>

definition demo_impl :: "(nat, nat, nat, nat, nat, nat) actor_impl" where
  "demo_impl =
     \<lparr>impl_handle = (\<lambda>m a. (a + m, a + m)),
      impl_call = (\<lambda>f a. ((0, f), f + 1, a + f)),
      impl_on_start = Suc, impl_on_stop = default_on_stop\<rparr>"

definition demo_context :: "nat actor_context" where
  "demo_context = context_new 0 (None :: unit option) 0"

definition demo_sh :: "(nat, nat) shared" where
  "demo_sh = \<lparr>state = actor_state_new config_default, cells = [], tx_strong = 1\<rparr>"

lemma demo_sh_ok: "shared_ok demo_sh"
  by (simp add: demo_sh_def shared_ok_def actor_state_new_def keys_issued_default)

lemma demo_register:
  "handle_interval_msg demo_impl (Register 9 \<lparr>func = 5\<rparr> 100) demo_sh demo_context =
     (\<lparr>state = (actor_state_new config_default)
          \<lparr>handlers := [\<lparr>fh_cell = 0, fh_tx = Some 0\<rparr>],
           interval_futures := \<lparr>next_key = 1, futures = [0 \<mapsto> \<lparr>func = 5\<rparr>]\<rparr>\<rparr>,
       cells = [finisher_new], tx_strong = 1\<rparr>,
      Some (demo_context,
        [SpawnInterval 0 100 0, OneshotSend 9 (ReplyHandler \<lparr>fh_cell = 0, fh_tx = Some 0\<rparr>)]))"
  by (simp add: demo_sh_def actor_state_new_def interval_default_def interval_insert_def
      push_handler_def is_running_def attach_tx_def Let_def)

theorem handle_msg_replies_once_witness:
  "map fst (replies [OneshotSend 2 (ReplyResult (7 :: nat)) :: (nat, nat, nat, nat, nat, nat) ctx_effect])
     = [2]"
proof -
  have "handle_msg demo_impl (\<lambda>_. True) (Instant (InstantStatic (Some 2) 7)) demo_sh demo_context =
      (demo_sh, Some (False, demo_context\<lparr>actor := 7\<rparr>, [OneshotSend 2 (ReplyResult 7)]))"
    by (simp add: demo_impl_def demo_context_def context_new_def)
  from handle_msg_replies_once [OF this] show ?thesis by simp
qed

theorem handle_msg_keeps_shared_ok_witness:
  "shared_ok (fst (handle_msg demo_impl (\<lambda>_. True) (Interval (Register 9 \<lparr>func = 5\<rparr> 100))
     demo_sh demo_context))"
proof -
  have "\<exists>sh' r. handle_msg demo_impl (\<lambda>_. True) (Interval (Register 9 \<lparr>func = 5\<rparr> 100))
      demo_sh demo_context = (sh', Some r)"
    by (auto simp: demo_register simp del: handle_interval_msg.simps)
  then show ?thesis using handle_msg_keeps_shared_ok [OF demo_sh_ok] by fastforce
qed

theorem interval_register_then_run_witness:
  "\<exists>index sh1 c1 es sh2.
     handle_interval_msg demo_impl (Register 9 \<lparr>func = 5\<rparr> 100) demo_sh demo_context =
       (sh1, Some (c1, es :: (nat, nat, nat, nat, nat, nat) ctx_effect list)) \<and>
     handle_interval_msg demo_impl (Run index) sh1 demo_context =
       (sh2, Some (demo_context\<lparr>actor := 5\<rparr>, [] :: (nat, nat, nat, nat, nat, nat) ctx_effect list))"
proof -
  have "impl_call demo_impl (func \<lparr>func = 5\<rparr>) (actor demo_context) = ((0, 5), 6, 5)"
    by (simp add: demo_impl_def demo_context_def context_new_def)
  from interval_register_then_run [OF demo_register this] demo_register show ?thesis by blast
qed

end
