(* ===== verification/Spawn_Loop.thy ===== *)
theory Spawn_Loop
  imports Actor_Context
begin

section \<open>The life of an actor's task (\<open>spawn_loop\<close> in \<open>src/context.rs\<close>)\<close>

text \<open>
  The task starts the actor, counts it, receives until the channel is closed or a message tells it to
  stop, and then restarts or stops. What the successive receives return is the list of inputs: a
  message, or \<open>None\<close> for a closed channel (\<open>Err\<close> from \<open>recv\<close>, \<open>None\<close> from the selector). The loop
  with the selector and the one without have the same body. When the list ends the task waits.
\<close>

datatype run_end = Exited | Blocked | Panicked

fun recv_loop ::
  "('a, 'm, 'r, 'f, 'ty, 'v) actor_impl \<Rightarrow> (oneshot \<Rightarrow> bool) \<Rightarrow> ('m, 'f) context_message option list
     \<Rightarrow> ('f, 'wk) shared \<Rightarrow> 'a actor_context
     \<Rightarrow> run_end \<times> ('m, 'f) context_message option list \<times> ('f, 'wk) shared \<times> 'a actor_context
         \<times> ('m, 'r, 'f, 'ty, 'v, 'wk) ctx_effect list" where
  "recv_loop impl open_rx [] sh c = (Blocked, [], sh, c, [])"
| "recv_loop impl open_rx (None # ins) sh c = (Exited, ins, sh, c, [])"
| "recv_loop impl open_rx (Some msg # ins) sh c =
     (case handle_msg impl open_rx msg sh c of
        (sh', None) \<Rightarrow> (Panicked, ins, sh', c, [])
      | (sh', Some (should_break, c', es)) \<Rightarrow>
          if should_break then (Exited, ins, sh', c', es)
          else (let (e, ins', sh'', c'', es') = recv_loop impl open_rx ins sh' c'
                in (e, ins', sh'', c'', es @ es')))"

definition context_start ::
  "('a, 'm, 'r, 'f, 'ty, 'v) actor_impl \<Rightarrow> ('f, 'wk) shared \<Rightarrow> 'a actor_context
     \<Rightarrow> ('f, 'wk) shared \<times> 'a actor_context" where
  "context_start impl sh c =
     (let c' = c\<lparr>actor := impl_on_start impl (actor c)\<rparr>;
          (_, st) = inc_active (state sh)
      in (sh\<lparr>state := st\<rparr>, c'))"

text \<open>
  After the loop: whether the task starts over, with the next generation, or runs \<open>on_stop\<close> and ends.
\<close>

definition context_exit ::
  "('a, 'm, 'r, 'f, 'ty, 'v) actor_impl \<Rightarrow> ('f, 'wk) shared \<Rightarrow> 'a actor_context
     \<Rightarrow> bool \<times> ('f, 'wk) shared \<times> 'a actor_context" where
  "context_exit impl sh c =
     (let (dec, st) = dec_active (state sh); sh' = sh\<lparr>state := st\<rparr>
      in if dec \<and> state_restart_on_err st \<and> \<not> manual_shutdown c
         then (True, sh', c\<lparr>generation := generation c + 1\<rparr>)
         else (False, sh', c\<lparr>actor := impl_on_stop impl (actor c)\<rparr>))"

lemma recv_loop_consumes:
  "recv_loop impl open_rx ins sh c = (Exited, ins', sh', c', es) \<Longrightarrow> length ins' < length ins"
proof (induction impl open_rx ins sh c arbitrary: es rule: recv_loop.induct)
  case (3 impl open_rx msg ins sh c)
  then show ?case
    by (fastforce split: prod.splits option.splits if_splits)
qed simp_all

function spawn_loop ::
  "('a, 'm, 'r, 'f, 'ty, 'v) actor_impl \<Rightarrow> (oneshot \<Rightarrow> bool) \<Rightarrow> ('m, 'f) context_message option list
     \<Rightarrow> ('f, 'wk) shared \<Rightarrow> 'a actor_context
     \<Rightarrow> run_end \<times> ('f, 'wk) shared \<times> 'a actor_context
         \<times> ('m, 'r, 'f, 'ty, 'v, 'wk) ctx_effect list" where
  "spawn_loop impl open_rx ins sh c =
     (let (sh1, c1) = context_start impl sh c
      in case recv_loop impl open_rx ins sh1 c1 of
           (Blocked, _, sh2, c2, es) \<Rightarrow> (Blocked, sh2, c2, es)
         | (Panicked, _, sh2, c2, es) \<Rightarrow> (Panicked, sh2, c2, es)
         | (Exited, ins', sh2, c2, es) \<Rightarrow>
             (case context_exit impl sh2 c2 of
                (False, sh3, c3) \<Rightarrow> (Exited, sh3, c3, es)
              | (True, sh3, c3) \<Rightarrow>
                  (let (e, sh4, c4, es') = spawn_loop impl open_rx ins' sh3 c3
                   in (e, sh4, c4, es @ es'))))"
  by pat_completeness auto
termination
  by (relation "measure (\<lambda>(impl, open_rx, ins, sh, c). length ins)")
    (auto dest: recv_loop_consumes [OF sym])

declare spawn_loop.simps [simp del]

subsection \<open>The receive loop\<close>

lemma recv_loop_frame:
  assumes "recv_loop impl open_rx ins sh c = (e, ins', sh', c', es)"
  shows "active (state sh') = active (state sh) \<and> state_config (state sh') = state_config (state sh)"
  using assms
proof (induction impl open_rx ins sh c arbitrary: es rule: recv_loop.induct)
  case (3 impl open_rx msg ins sh c)
  show ?case
  proof (cases "snd (handle_msg impl open_rx msg sh c)")
    case None
    with 3 show ?thesis by (auto split: prod.splits dest: handle_msg_frame)
  next
    case (Some r)
    then obtain sh1 b c1 es1 where m: "handle_msg impl open_rx msg sh c = (sh1, Some (b, c1, es1))"
      by (metis prod.collapse)
    show ?thesis
    proof (cases b)
      case True
      with "3.prems" m show ?thesis by (auto dest: handle_msg_frame)
    next
      case False
      with "3.prems" m obtain es2 where "recv_loop impl open_rx ins sh1 c1 = (e, ins', sh', c', es2)"
        by (auto split: prod.splits)
      with "3.IH" [OF m [symmetric] refl refl refl] False m show ?thesis
        by (auto dest: handle_msg_frame)
    qed
  qed
qed auto

lemma recv_loop_append:
  "recv_loop impl open_rx xs sh c = (Blocked, rest, sh', c', es)
    \<Longrightarrow> recv_loop impl open_rx (xs @ ys) sh c =
         (let (e, ins', sh'', c'', es') = recv_loop impl open_rx ys sh' c'
          in (e, ins', sh'', c'', es @ es'))"
proof (induction impl open_rx xs sh c arbitrary: es rule: recv_loop.induct)
  case (3 impl open_rx msg ins sh c)
  then show ?case by (fastforce split: prod.splits option.splits if_splits)
qed auto

text \<open>
  The reference: a queue of messages served one after another by the user's handler, each result going
  to the oneshot sender that came with its message.
\<close>

fun serve ::
  "('m \<Rightarrow> 'a \<Rightarrow> 'r \<times> 'a) \<Rightarrow> (oneshot option \<times> 'm) list \<Rightarrow> 'a \<Rightarrow> (oneshot \<times> 'r) list \<times> 'a" where
  "serve h [] a = ([], a)"
| "serve h ((tx, m) # ms) a =
     (let (r, a') = h m a; (rs, a'') = serve h ms a'
      in ((case tx of Some t \<Rightarrow> [(t, r)] | None \<Rightarrow> []) @ rs, a''))"

text \<open>
  C1. The actor serves its messages: on any sequence of messages the loop is the reference, handling them
  one at a time in the order received, from the state the one before left, answering each caller
  that waits with the result for its own message, in order, and then waiting for more.
\<close>

theorem recv_loop_serves:
  "recv_loop impl open_rx (map (\<lambda>(tx, m). Some (Instant (InstantStatic tx m))) ms) sh c =
     (Blocked, [], sh, c\<lparr>actor := snd (serve (impl_handle impl) ms (actor c))\<rparr>,
      map (\<lambda>(tx, r). OneshotSend tx (ReplyResult r)) (fst (serve (impl_handle impl) ms (actor c))))"
proof (induction ms arbitrary: c)
  case (Cons x ms)
  obtain tx m where x: "x = (tx, m)" by force
  obtain r a where h: "impl_handle impl m (actor c) = (r, a)" by force
  obtain rs a' where "serve (impl_handle impl) ms a = (rs, a')" by force
  with Cons.IH [of "c\<lparr>actor := a\<rparr>"] show ?case by (cases tx) (simp_all add: x h)
qed simp

subsection \<open>Counting\<close>

lemma context_start_simps [simp]:
  "context_start impl sh c =
     (sh\<lparr>state := snd (inc_active (state sh))\<rparr>, c\<lparr>actor := impl_on_start impl (actor c)\<rparr>)"
  by (simp add: context_start_def Let_def split_def)

lemma inc_active_frame [simp]:
  "state_config (snd (inc_active s)) = state_config s"
  "active (snd (inc_active s)) = (if is_running s then active s + UNIT else active s)"
  by (simp_all add: inc_active_def modify_active_eq)

lemma dec_active_frame [simp]:
  "state_config (snd (dec_active s)) = state_config s"
  "active (snd (dec_active s)) = (if is_running s then active s - UNIT else active s)"
  by (simp_all add: dec_active_def modify_active_eq)

lemma is_running_cong: "active s = active t \<Longrightarrow> is_running s = is_running t"
  by (simp add: is_running_def)

lemma context_exit_state [simp]:
  "state (fst (snd (context_exit impl sh c))) = snd (dec_active (state sh))"
  by (simp add: context_exit_def Let_def split_def)

lemma started_then_looped:
  assumes "recv_loop impl open_rx ins (sh\<lparr>state := snd (inc_active (state sh))\<rparr>) c1 = (e, ins', sh', c', es)"
  shows "active (state sh') = (if is_running (state sh) then active (state sh) + UNIT else active (state sh))"
    and "is_running (state sh') = is_running (state sh)"
    and "state_config (state sh') = state_config (state sh)"
proof -
  from recv_loop_frame [OF assms]
  show a: "active (state sh') = (if is_running (state sh) then active (state sh) + UNIT else active (state sh))"
    and "state_config (state sh') = state_config (state sh)" by simp_all
  show "is_running (state sh') = is_running (state sh)"
    using a by (simp add: is_running_iff_even UNIT_eq)
qed

lemma dec_after_start:
  assumes "active s' = (if is_running s then active s + UNIT else active s)"
  shows "active (snd (dec_active s')) = active s"
  using assms by (simp add: is_running_iff_even UNIT_eq split: if_splits)

text \<open>
  C21. The task's effect on the counter, restarts included: a task that has ended has taken itself out of
  the count; one that waits is in it, and so is one that panicked, for good. After shutdown
  nothing changes the count.
\<close>

theorem spawn_loop_counts:
  assumes "spawn_loop impl open_rx ins sh c = (e, sh', c', es)"
  shows "active (state sh') =
           (if e = Exited \<or> \<not> is_running (state sh) then active (state sh)
            else active (state sh) + UNIT)"
  using assms
proof (induction "length ins" arbitrary: ins sh c es rule: less_induct)
  case less
  let ?sh1 = "sh\<lparr>state := snd (inc_active (state sh))\<rparr>"
  let ?c1 = "c\<lparr>actor := impl_on_start impl (actor c)\<rparr>"
  obtain e1 ins1 sh2 c2 es1 where loop: "recv_loop impl open_rx ins ?sh1 ?c1 = (e1, ins1, sh2, c2, es1)"
    by (metis prod_cases5)
  note looped = started_then_looped [OF loop]
  show ?case
  proof (cases e1)
    case Exited
    obtain again sh3 c3 where ex: "context_exit impl sh2 c2 = (again, sh3, c3)"
      by (metis prod_cases3)
    from context_exit_state [of impl sh2 c2] ex
    have st3: "state sh3 = snd (dec_active (state sh2))" by simp
    have a3: "active (state sh3) = active (state sh)" using dec_after_start [OF looped(1)] by (simp only: st3)
    have r3: "is_running (state sh3) = is_running (state sh)" by (rule is_running_cong [OF a3])
    show ?thesis
    proof (cases again)
      case True
      from less.prems loop Exited ex True obtain es2
        where "spawn_loop impl open_rx ins1 sh3 c3 = (e, sh', c', es2)"
        by (subst (asm) spawn_loop.simps) (auto split: prod.splits)
      moreover have "length ins1 < length ins"
        by (rule recv_loop_consumes) (use loop Exited in simp)
      ultimately show ?thesis using less.hyps a3 r3 by force
    next
      case False
      with less.prems loop Exited ex a3 show ?thesis by (subst (asm) spawn_loop.simps) auto
    qed
  qed (use less.prems loop looped(1) in \<open>auto simp: spawn_loop.simps [of impl open_rx ins sh c]\<close>)
qed

subsection \<open>Stopping and restarting\<close>

text \<open>
  A shutdown request ends the task, also with \<open>restart_on_err\<close>: its caller gets the context's
  number and generation, \<open>on_stop\<close> runs last, and the messages behind it stay unread.
\<close>

theorem manual_shutdown_stops:
  assumes "context_start impl sh c = (sh1, c1)"
    and "recv_loop impl open_rx ins sh1 c1 = (Blocked, rest, sh2, c2, es)"
    and "open_rx tx"
  shows "spawn_loop impl open_rx (ins @ Some (ManualShutDown tx) # behind) sh c =
           (Exited, sh2\<lparr>state := snd (dec_active (state sh2))\<rparr>,
            c2\<lparr>manual_shutdown := True, actor := impl_on_stop impl (actor c2)\<rparr>,
            es @ [OneshotSend tx (ReplyState (context_state_of c2))])"
  using assms
  by (subst spawn_loop.simps)
    (simp add: recv_loop_append [OF assms(2)] context_exit_def Let_def split_def)

text \<open>
  With \<open>restart_on_err\<close> a task whose channel is closed never ends. Each receive fails at once, and
  each time the task starts its actor again under the next generation; after any number of receives
  it is counted as active and about to receive again, and \<open>on_stop\<close> has not run.
\<close>

theorem restart_forever:
  assumes "state_restart_on_err (state sh)" and "is_running (state sh)" and "\<not> manual_shutdown c"
  shows "spawn_loop impl open_rx (replicate n None) sh c =
           (Blocked, sh\<lparr>state := snd (inc_active (state sh))\<rparr>,
            c\<lparr>generation := generation c + of_nat n,
              actor := (impl_on_start impl ^^ Suc n) (actor c)\<rparr>, [])"
  using assms
proof (induction n arbitrary: c)
  case 0
  then show ?case by (subst spawn_loop.simps) simp
next
  case (Suc n)
  let ?c1 = "c\<lparr>generation := generation c + 1, actor := impl_on_start impl (actor c)\<rparr>"
  have restart: "context_exit impl (sh\<lparr>state := snd (inc_active (state sh))\<rparr>)
      (c\<lparr>actor := impl_on_start impl (actor c)\<rparr>) = (True, sh, ?c1)"
    using Suc.prems
    by (simp add: context_exit_def Let_def split_def state_restart_on_err_def)
      (simp add: dec_active_def modify_active_eq)
  have "spawn_loop impl open_rx (replicate (Suc n) None) sh c =
      (let (e, sh', c', es) = spawn_loop impl open_rx (replicate n None) sh ?c1 in (e, sh', c', es))"
    by (subst spawn_loop.simps) (simp add: restart)
  also have "\<dots> = spawn_loop impl open_rx (replicate n None) sh ?c1"
    by (simp add: split_def)
  finally show ?case
    using Suc.IH [of ?c1] Suc.prems by (simp add: funpow_swap1 add.assoc)
qed

subsection \<open>The theorems at work\<close>

definition demo_shared :: "bool \<Rightarrow> (nat, nat) shared" where
  "demo_shared restart =
     \<lparr>state = actor_state_new (config_default\<lparr>restart_on_err := restart\<rparr>),
      cells = [], tx_strong = 1\<rparr>"

lemmas demo_defs = demo_shared_def demo_context_def context_new_def demo_impl_def actor_state_new_def
  config_default_def interval_default_def is_running_def MARKER_def UNIT_eq inc_active_def
  dec_active_def modify_active_def state_restart_on_err_def context_state_of_def

theorem spawn_loop_counts_witness:
  "active (state (fst (snd (spawn_loop demo_impl (\<lambda>_. True)
     [Some (Instant (InstantStatic (Some 3) 5)), None] (demo_shared False) demo_context)))) = 0"
proof -
  obtain e sh' c' es where run: "spawn_loop demo_impl (\<lambda>_. True)
      [Some (Instant (InstantStatic (Some 3) 5)), None] (demo_shared False) demo_context =
      (e, sh', c', es)" by (metis prod_cases4)
  then have "e = Exited" by (simp add: spawn_loop.simps context_exit_def demo_defs)
  with spawn_loop_counts [OF run] run show ?thesis by (simp add: demo_defs)
qed

theorem manual_shutdown_stops_witness:
  "\<exists>sh' c'. spawn_loop demo_impl (\<lambda>_. True)
     ([Some (Instant (InstantStatic (Some 3) 5))] @ Some (ManualShutDown 4) # [None])
     (demo_shared True) demo_context =
     (Exited, sh', c',
      [OneshotSend 3 (ReplyResult 6), OneshotSend 4 (ReplyState \<lparr>cs_id = 0, cs_generation = 0\<rparr>)])"
proof -
  let ?sh1 = "(demo_shared True)\<lparr>state := snd (inc_active (state (demo_shared True)))\<rparr>"
  have start: "context_start demo_impl (demo_shared True) demo_context =
      (?sh1, demo_context\<lparr>actor := 1\<rparr>)"
    by (simp add: demo_defs)
  have loop: "recv_loop demo_impl (\<lambda>_. True) [Some (Instant (InstantStatic (Some 3) 5))] ?sh1
      (demo_context\<lparr>actor := 1\<rparr>) =
      (Blocked, [], ?sh1, demo_context\<lparr>actor := 6\<rparr>, [OneshotSend 3 (ReplyResult 6)])"
    by (simp add: demo_impl_def)
  from manual_shutdown_stops [OF start loop, of 4 "[None]"] show ?thesis
    by (simp add: demo_context_def context_new_def context_state_of_def)
qed

theorem restart_forever_witness:
  "\<exists>sh' c'. spawn_loop demo_impl (\<lambda>_. True) (replicate 3 None) (demo_shared True) demo_context =
     (Blocked, sh', c', []) \<and> generation c' = 3 \<and> actor c' = 4"
proof -
  have "state_restart_on_err (state (demo_shared True))" "is_running (state (demo_shared True))"
    "\<not> manual_shutdown demo_context"
    by (simp_all add: demo_defs)
  from restart_forever [OF this, of demo_impl "\<lambda>_. True" 3] show ?thesis
    by (simp add: demo_context_def context_new_def demo_impl_def numeral_3_eq_3)
qed

end
