(* ===== verification/Actor_Address.thy ===== *)
theory Actor_Address
  imports Actor_Context
begin

section \<open>Addresses and subscribers (\<open>src/address.rs\<close>, \<open>src/subscribe.rs\<close>)\<close>

text \<open>
  What a caller does with an address: build a message, send it under the configured deadline, and wait
  for the reply. A channel is its number. The runtime, the channels and the oneshot channels are code
  outside \<open>src/\<close>: a record of operations on some world \<open>'w\<close>, each giving what the awaited future
  completes with. There is one receive operation for each type of reply.
\<close>

record ('w, 'm, 'r, 'f, 'ty, 'v) address_env =
  env_oneshot :: "'w \<Rightarrow> oneshot \<times> 'w"
  env_timeout_send ::
    "nat \<Rightarrow> ('m, 'f) context_message \<Rightarrow> duration \<Rightarrow> 'w \<Rightarrow> (unit + unit send_result) \<times> 'w"
  env_upgrade :: "nat \<Rightarrow> 'w \<Rightarrow> bool"
  env_spawn_send :: "nat \<Rightarrow> ('m, 'f) context_message \<Rightarrow> 'w \<Rightarrow> 'w"
  env_await_result :: "oneshot \<Rightarrow> 'w \<Rightarrow> (unit + 'r) \<times> 'w"
  env_await_any :: "oneshot \<Rightarrow> 'w \<Rightarrow> (unit + ('ty, 'v) any_object) \<times> 'w"
  env_await_state :: "oneshot \<Rightarrow> 'w \<Rightarrow> (unit + context_state) \<times> 'w"
  env_await_handler :: "oneshot \<Rightarrow> 'w \<Rightarrow> (unit + future_handler) \<times> 'w"

text \<open>
  A future of the sets that \<open>broadcast\<close> and \<open>send_subscribe\<close> wait for is a function on the world.
  \<open>FuturesUnordered\<close> with \<open>collect\<close> is a parameter \<open>join\<close>: what futures-util documents is that each
  future's output is collected once, in the order they complete, whatever the world each one saw.
\<close>

type_synonym ('w, 'x) fut = "'w \<Rightarrow> 'x \<times> 'w"

definition join_law :: "(('w, 'x) fut list \<Rightarrow> 'w \<Rightarrow> 'x list \<times> 'w) \<Rightarrow> bool" where
  "join_law join \<longleftrightarrow>
     (\<forall>fs w. \<exists>gs. mset gs = mset fs \<and> list_all2 (\<lambda>f x. \<exists>u. x = fst (f u)) gs (fst (join fs w)))"

subsection \<open>Subscribers\<close>

text \<open>
  A \<open>Subscriber<A, M>\<close> behind the trait object: the channel of its weak sender, the \<open>TypeId\<close> of \<open>M\<close>,
  and the conversion of an \<open>M\<close> to the message type of \<open>A\<close>. The messages of all subscribed actors are
  one type \<open>'m\<close> here.
\<close>

record ('ty, 'v, 'm) subscriber =
  sub_sender :: nat
  sub_type :: 'ty
  sub_into :: "'v \<Rightarrow> 'm"

definition subscribe_default :: "('ty, 'v, 'm) subscriber list" where "subscribe_default = []"

definition subscribe_push ::
  "nat \<Rightarrow> 'ty \<Rightarrow> ('v \<Rightarrow> 'm) \<Rightarrow> ('ty, 'v, 'm) subscriber list \<Rightarrow> ('ty, 'v, 'm) subscriber list" where
  "subscribe_push sender ty conv subs =
     subs @ [\<lparr>sub_sender = sender, sub_type = ty, sub_into = conv\<rparr>]"

definition subscriber_send_inner ::
  "('w, 'm, 'r, 'f, 'ty, 'v) address_env \<Rightarrow> ('ty, 'v, 'm) subscriber \<Rightarrow> 'v \<Rightarrow> duration
     \<Rightarrow> ('w, unit send_result) fut" where
  "subscriber_send_inner E sub msg dur w =
     (if \<not> env_upgrade E (sub_sender sub) w then (Err Closed, w)
      else (let (r, w') = env_timeout_send E (sub_sender sub)
                            (Instant (InstantStatic None (sub_into sub msg))) dur w
            in (and_then (map_err (\<lambda>_. Timeout) r) (map_err (\<lambda>_. Closed)), w')))"

text \<open>\<open>SubscribeTrait::send\<close>: \<open>None\<close> when the message is not of the subscriber's type.\<close>

definition subscriber_send ::
  "('w, 'm, 'r, 'f, 'ty, 'v) address_env \<Rightarrow> ('ty, 'v, 'm) subscriber \<Rightarrow> ('ty, 'v) any_object \<Rightarrow> duration
     \<Rightarrow> ('w, unit send_result option) fut" where
  "subscriber_send E sub msg dur w =
     (case fst (any_unpack (sub_type sub) msg) of
        None \<Rightarrow> (None, w)
      | Some m \<Rightarrow> (let (res, w') = subscriber_send_inner E sub m dur w in (Some res, w')))"

subsection \<open>Addresses\<close>

record ('ty, 'v, 'm) address =
  addr_tx :: nat
  addr_tx_subs :: "nat list option"
  addr_subs :: "('ty, 'v, 'm) subscriber list option"
  addr_config :: config

definition address_new :: "nat \<Rightarrow> nat list \<Rightarrow> 'f actor_state \<Rightarrow> ('ty, 'v, 'm) address" where
  "address_new tx tx_subs st =
     \<lparr>addr_tx = tx,
      addr_tx_subs = (if state_allow_broadcast st then Some tx_subs else None),
      addr_subs = (if state_allow_subscribe st then Some subscribe_default else None),
      addr_config = state_config st\<rparr>"

text \<open>The private \<open>send_timeout\<close>: every sending operation goes through it.\<close>

definition address_send_timeout ::
  "('w, 'm, 'r, 'f, 'ty, 'v) address_env \<Rightarrow> ('ty, 'v, 'm) address \<Rightarrow> ('m, 'f) context_message
     \<Rightarrow> ('w, unit send_result) fut" where
  "address_send_timeout E self msg w =
     (let (r, w') = env_timeout_send E (addr_tx self) msg (timeout (addr_config self)) w
      in (and_then (map_err (\<lambda>_. Timeout) r) (map_err (\<lambda>_. Closed)), w'))"

text \<open>Sending and then waiting for the reply, \<open>Canceled\<close> when the oneshot sender is dropped unused.\<close>

definition send_then ::
  "('w, 'm, 'r, 'f, 'ty, 'v) address_env \<Rightarrow> ('ty, 'v, 'm) address \<Rightarrow> ('m, 'f) context_message
     \<Rightarrow> ('w \<Rightarrow> (unit + 'x) \<times> 'w) \<Rightarrow> ('w, 'x send_result) fut" where
  "send_then E self msg await w =
     (case address_send_timeout E self msg w of
        (Inl e, w1) \<Rightarrow> (Inl e, w1)
      | (Inr _, w1) \<Rightarrow> (let (res, w2) = await w1 in (map_err (\<lambda>_. Canceled) res, w2)))"

text \<open>
  \<open>send\<close>. \<open>into\<close> is the message's conversion into the actor's message type and \<open>mapr\<close> its
  \<open>MapResult::map\<close>, which may panic (\<open>unreachable!()\<close>): \<open>None\<close>.
\<close>

definition address_send ::
  "('w, 'm, 'r, 'f, 'ty, 'v) address_env \<Rightarrow> ('i \<Rightarrow> 'm) \<Rightarrow> ('r \<Rightarrow> 'o send_result option)
     \<Rightarrow> ('ty, 'v, 'm) address \<Rightarrow> 'i \<Rightarrow> ('w, 'o send_result option) fut" where
  "address_send E into mapr self msg w =
     (let (tx, w1) = env_oneshot E w;
          m = Instant (InstantStatic (Some tx) (into msg));
          (res, w2) = send_then E self m (env_await_result E tx) w1
      in (case res of Inl e \<Rightarrow> Some (Inl e) | Inr r \<Rightarrow> mapr r, w2))"

definition address_do_send ::
  "('w, 'm, 'r, 'f, 'ty, 'v) address_env \<Rightarrow> ('i \<Rightarrow> 'm) \<Rightarrow> ('ty, 'v, 'm) address \<Rightarrow> 'i \<Rightarrow> 'w \<Rightarrow> 'w" where
  "address_do_send E into self msg w =
     env_spawn_send E (addr_tx self) (Instant (InstantStatic None (into msg))) w"

definition address_send_later ::
  "('w, 'm, 'r, 'f, 'ty, 'v) address_env \<Rightarrow> ('i \<Rightarrow> 'm) \<Rightarrow> ('ty, 'v, 'm) address \<Rightarrow> 'i \<Rightarrow> duration
     \<Rightarrow> ('w, unit send_result) fut" where
  "address_send_later E into self msg delay w =
     address_send_timeout E self (Delayed (DelayedStatic (into msg) delay)) w"

definition address_close_one ::
  "('w, 'm, 'r, 'f, 'ty, 'v) address_env \<Rightarrow> ('ty, 'v, 'm) address
     \<Rightarrow> ('w, context_state send_result) fut" where
  "address_close_one E self w =
     (let (tx, w1) = env_oneshot E w
      in send_then E self (ManualShutDown tx) (env_await_state E tx) w1)"

text \<open>\<open>run\<close>: the closure's result comes back packed; \<open>ty\<close> is the \<open>TypeId\<close> of the type asked for.\<close>

definition address_run ::
  "('w, 'm, 'r, 'f, 'ty, 'v) address_env \<Rightarrow> 'ty \<Rightarrow> ('ty, 'v, 'm) address \<Rightarrow> 'f
     \<Rightarrow> ('w, 'v send_result) fut" where
  "address_run E ty self f w =
     (let (tx, w1) = env_oneshot E w;
          object = future_pack f;
          (res, w2) = send_then E self (Instant (InstantDynamic (Some tx) object)) (env_await_any E tx) w1
      in (and_then res (\<lambda>obj. ok_or TypeCast (fst (any_unpack ty obj))), w2))"

definition address_do_run ::
  "('w, 'm, 'r, 'f, 'ty, 'v) address_env \<Rightarrow> ('ty, 'v, 'm) address \<Rightarrow> 'f \<Rightarrow> 'w \<Rightarrow> 'w" where
  "address_do_run E self f w =
     env_spawn_send E (addr_tx self) (Instant (InstantDynamic None (future_pack f))) w"

definition address_run_later ::
  "('w, 'm, 'r, 'f, 'ty, 'v) address_env \<Rightarrow> ('ty, 'v, 'm) address \<Rightarrow> duration \<Rightarrow> 'f
     \<Rightarrow> ('w, unit send_result) fut" where
  "address_run_later E self delay f w =
     address_send_timeout E self (Delayed (DelayedDynamic (future_pack f) delay)) w"

definition address_run_interval ::
  "('w, 'm, 'r, 'f, 'ty, 'v) address_env \<Rightarrow> ('ty, 'v, 'm) address \<Rightarrow> duration \<Rightarrow> 'f
     \<Rightarrow> ('w, future_handler send_result) fut" where
  "address_run_interval E self dur f w =
     (let (tx, w1) = env_oneshot E w
      in send_then E self (Interval (Register tx (future_pack f) dur)) (env_await_handler E tx) w1)"

lemmas address_defs [op_defs] =
  subscribe_push_def subscriber_send_inner_def subscriber_send_def address_new_def
  address_send_timeout_def send_then_def address_send_def address_do_send_def
  address_send_later_def address_close_one_def address_run_def address_do_run_def
  address_run_later_def address_run_interval_def

subsection \<open>Broadcasting and subscribing\<close>

text \<open>
  \<open>broadcast\<close> makes one future per actor instance, each with a oneshot channel of its own, created
  while the set is built.
\<close>

definition broadcast_future ::
  "('w, 'm, 'r, 'f, 'ty, 'v) address_env \<Rightarrow> ('r \<Rightarrow> 'o send_result option) \<Rightarrow> duration \<Rightarrow> nat
     \<Rightarrow> ('m, 'f) context_message \<Rightarrow> oneshot \<Rightarrow> ('w, 'o send_result option) fut" where
  "broadcast_future E mapr dur sub msg tx w =
     (let (r, w1) = env_timeout_send E sub msg dur w
      in case and_then (map_err (\<lambda>_. Timeout) r) (map_err (\<lambda>_. Closed)) of
           Inl e \<Rightarrow> (Some (Inl e), w1)
         | Inr _ \<Rightarrow>
             (let (res, w2) = env_await_result E tx w1
              in (case map_err (\<lambda>_. Canceled) res of Inl e \<Rightarrow> Some (Inl e) | Inr x \<Rightarrow> mapr x, w2)))"

fun broadcast_futures ::
  "('w, 'm, 'r, 'f, 'ty, 'v) address_env \<Rightarrow> ('r \<Rightarrow> 'o send_result option) \<Rightarrow> duration \<Rightarrow> 'm
     \<Rightarrow> nat list \<Rightarrow> 'w \<Rightarrow> ('w, 'o send_result option) fut list \<times> 'w" where
  "broadcast_futures E mapr dur msg [] w = ([], w)"
| "broadcast_futures E mapr dur msg (sub # subs) w =
     (let (tx, w1) = env_oneshot E w;
          f = broadcast_future E mapr dur sub (Instant (InstantStatic (Some tx) msg)) tx;
          (fs, w2) = broadcast_futures E mapr dur msg subs w1
      in (f # fs, w2))"

definition address_broadcast ::
  "('w, 'm, 'r, 'f, 'ty, 'v) address_env
     \<Rightarrow> (('w, 'o send_result option) fut list \<Rightarrow> 'w \<Rightarrow> 'o send_result option list \<times> 'w)
     \<Rightarrow> ('i \<Rightarrow> 'm) \<Rightarrow> ('r \<Rightarrow> 'o send_result option) \<Rightarrow> ('ty, 'v, 'm) address \<Rightarrow> 'i
     \<Rightarrow> ('w, 'o send_result option list) fut" where
  "address_broadcast E join into mapr self msg w =
     (case addr_tx_subs self of
        None \<Rightarrow> ([Some (Err Broadcast)], w)
      | Some grp \<Rightarrow>
          (let (fs, w1) = broadcast_futures E mapr (timeout (addr_config self)) (into msg) grp w
           in join fs w1))"

text \<open>\<open>subscribe_with\<close>: the other address's weak sender joins the list, under the message type \<open>ty\<close>.\<close>

definition address_subscribe_with ::
  "'ty \<Rightarrow> ('v \<Rightarrow> 'm) \<Rightarrow> ('ty, 'v, 'm) address \<Rightarrow> ('ty, 'v, 'm) address
     \<Rightarrow> unit send_result \<times> ('ty, 'v, 'm) address" where
  "address_subscribe_with ty conv other self =
     (case ok_or Subscribe (addr_subs self) of
        Inl e \<Rightarrow> (Inl e, self)
      | Inr subs \<Rightarrow>
          (Inr (), self\<lparr>addr_subs := Some (subscribe_push (addr_tx other) ty conv subs)\<rparr>))"

definition address_send_subscribe ::
  "('w, 'm, 'r, 'f, 'ty, 'v) address_env
     \<Rightarrow> (('w, unit send_result option) fut list \<Rightarrow> 'w \<Rightarrow> unit send_result option list \<times> 'w)
     \<Rightarrow> 'ty \<Rightarrow> ('ty, 'v, 'm) address \<Rightarrow> 'v \<Rightarrow> ('w, unit send_result list) fut" where
  "address_send_subscribe E join ty self msg w =
     (case addr_subs self of
        None \<Rightarrow> ([Err Subscribe], w)
      | Some subs \<Rightarrow>
          (let (rs, w') = join (map (\<lambda>sub. subscriber_send E sub (any_pack ty msg)
                                     (timeout (addr_config self))) subs) w
           in (List.map_filter id rs, w')))"

lemma join_length: "join_law join \<Longrightarrow> length (fst (join fs w)) = length fs"
  unfolding join_law_def by (metis list_all2_lengthD size_mset)

lemma length_broadcast_futures [simp]:
  "length (fst (broadcast_futures E mapr dur msg subs w)) = length subs"
  by (induction subs arbitrary: w) (simp_all add: Let_def split_def)

lemma broadcast_futures_each:
  "list_all2 (\<lambda>sub f. \<exists>tx. f = broadcast_future E mapr dur sub (Instant (InstantStatic (Some tx) msg)) tx)
     subs (fst (broadcast_futures E mapr dur msg subs w))"
  by (induction subs arbitrary: w) (auto simp: Let_def split_def)

lemma broadcast_future_result:
  "fst (broadcast_future E mapr dur sub m tx u) \<in>
     {Some (Err Timeout), Some (Err Closed), Some (Err Canceled)} \<union> range mapr"
  by (auto simp: broadcast_future_def Let_def split_def and_then_eq_Err map_err_eq_Err split: sum.splits)

text \<open>
  A broadcast gives exactly one result for each actor instance of the address, in the order they
  complete: what sending the message to that instance's own channel and waiting on a oneshot channel
  gave. It is the mapped result, or one of \<open>Closed\<close>, \<open>Timeout\<close> and \<open>Canceled\<close>; one instance's error
  does not cut off the others. When broadcasting is not allowed the one result is the error \<open>Broadcast\<close>.
\<close>

theorem broadcast_results:
  assumes "join_law join"
    and "fst (address_broadcast E join into mapr (address_new tx tx_subs st) msg w) = results"
  shows "if state_allow_broadcast st
     then (\<exists>subs. mset subs = mset tx_subs \<and>
             list_all2 (\<lambda>sub x. \<exists>tx u. x = fst (broadcast_future E mapr (timeout (state_config st)) sub
                                   (Instant (InstantStatic (Some tx) (into msg))) tx u)) subs results)
          \<and> set results \<subseteq> {Some (Err Timeout), Some (Err Closed), Some (Err Canceled)} \<union> range mapr
     else results = [Some (Err Broadcast)]"
proof (cases "state_allow_broadcast st")
  case True
  let ?fs = "fst (broadcast_futures E mapr (timeout (state_config st)) (into msg) tx_subs w)"
  let ?fut = "\<lambda>sub tx. broadcast_future E mapr (timeout (state_config st)) sub
                          (Instant (InstantStatic (Some tx) (into msg))) tx"
  let ?w1 = "snd (broadcast_futures E mapr (timeout (state_config st)) (into msg) tx_subs w)"
  have res: "results = fst (join ?fs ?w1)"
    unfolding assms(2) [symmetric] using True
    by (simp add: address_broadcast_def address_new_def Let_def split_def)
  from assms(1) obtain gs where gs: "mset gs = mset ?fs"
    and outs: "list_all2 (\<lambda>f x. \<exists>u. x = fst (f u)) gs results"
    unfolding join_law_def res by blast
  have "list_all2 (\<lambda>f sub. \<exists>tx. f = ?fut sub tx) ?fs tx_subs"
    using broadcast_futures_each [of E mapr "timeout (state_config st)" "into msg" tx_subs w]
    by (simp add: list_all2_conv_all_nth)
  from list_all2_reorder_left_invariance [OF this gs] obtain subs
    where "list_all2 (\<lambda>f sub. \<exists>tx. f = ?fut sub tx) gs subs" and subs: "mset subs = mset tx_subs"
    by blast
  with outs have each: "list_all2 (\<lambda>sub x. \<exists>tx u. x = fst (?fut sub tx u)) subs results"
    by (fastforce simp: list_all2_conv_all_nth)
  then have "set results \<subseteq> {Some (Err Timeout), Some (Err Closed), Some (Err Canceled)} \<union> range mapr"
    using broadcast_future_result by (fastforce dest: list_all2_in_right)
  with True subs each show ?thesis by auto
qed (use assms(2) in \<open>simp add: address_broadcast_def address_new_def\<close>)

text \<open>The order in which the futures were pushed is one order they can complete in.\<close>

fun join_in_order :: "('w, 'x) fut list \<Rightarrow> 'w \<Rightarrow> 'x list \<times> 'w" where
  "join_in_order [] w = ([], w)"
| "join_in_order (f # fs) w =
     (let (x, w1) = f w; (xs, w2) = join_in_order fs w1 in (x # xs, w2))"

lemma join_in_order_outputs:
  "list_all2 (\<lambda>f x. \<exists>u. x = fst (f u)) fs (fst (join_in_order fs w))"
  by (induction fs arbitrary: w) (auto simp: Let_def split_def)

lemma join_in_order_law: "join_law join_in_order"
  unfolding join_law_def
proof (intro allI exI conjI)
  show "mset fs = mset fs" for fs :: "('w, 'x) fut list" ..
qed (rule join_in_order_outputs)

text \<open>
  A world that counts the oneshot channels it made: channel \<open>1\<close> answers with its oneshot's number,
  channel \<open>2\<close> is full until the deadline, channel \<open>3\<close> is closed, and no channel past \<open>5\<close> can be
  upgraded.
\<close>

definition demo_env :: "(nat, nat, nat, nat, nat, nat) address_env" where
  "demo_env =
     \<lparr>env_oneshot = (\<lambda>n. (n, n + 1)),
      env_timeout_send = (\<lambda>ch m d n.
        (if ch = 2 then Inl () else if ch = 3 then Inr (Inl Closed) else Inr (Inr ()), n)),
      env_upgrade = (\<lambda>ch n. ch \<le> 5),
      env_spawn_send = (\<lambda>ch m n. n),
      env_await_result = (\<lambda>tx n. (Inr tx, n)),
      env_await_any = (\<lambda>tx n. (Inr (any_pack 0 tx), n)),
      env_await_state = (\<lambda>tx n. (Inl (), n)),
      env_await_handler = (\<lambda>tx n. (Inl (), n))\<rparr>"

theorem broadcast_results_witness:
  "set (fst (address_broadcast demo_env join_in_order id (\<lambda>r. Some (Ok r))
     (address_new 0 [1, 2, 3] (actor_state_new (config_default\<lparr>allow_broadcast := True\<rparr>)
        :: unit actor_state)) 7 0)) \<subseteq>
   {Some (Err Timeout), Some (Err Closed), Some (Err Canceled)} \<union> range (\<lambda>r. Some (Ok r))"
  using broadcast_results [where E = demo_env and into = id and mapr = "\<lambda>r. Some (Ok r)"
      and tx = 0 and tx_subs = "[1, 2, 3]" and msg = 7 and w = 0
      and st = "actor_state_new (config_default\<lparr>allow_broadcast := True\<rparr>) :: unit actor_state",
      OF join_in_order_law refl]
  by (simp add: state_allow_broadcast_def actor_state_new_def)

lemma subscriber_send_None:
  "fst (subscriber_send E sub (any_pack ty msg) dur w) = None \<longleftrightarrow> sub_type sub \<noteq> ty"
  by (simp add: subscriber_send_def Let_def split_def split: option.split)

lemma subscriber_send_errors:
  "fst (subscriber_send E sub obj dur w) = Some r \<Longrightarrow> r \<in> {Ok (), Err Closed, Err Timeout}"
  by (cases r)
    (auto simp: subscriber_send_def subscriber_send_inner_def Let_def split_def and_then_eq_Err
      map_err_eq_Err split: option.splits if_splits)

lemma length_map_filter_id: "length (List.map_filter id xs) = length (filter (\<lambda>x. x \<noteq> None) xs)"
  by (simp add: List.map_filter_def)

lemma set_map_filter_id: "set (List.map_filter id rs) = {r. Some r \<in> set rs}"
  by (induction rs) (auto split: option.splits)

lemma list_all2_filter_length:
  "list_all2 (\<lambda>f x. Q x = P f) fs xs \<Longrightarrow> length (filter Q xs) = length (filter P fs)"
  by (induction rule: list_all2_induct) auto

lemma filter_length_mset: "mset gs = mset fs \<Longrightarrow> length (filter P gs) = length (filter P fs)"
  by (metis mset_filter size_mset)

text \<open>
  A message to the subscribers gives one result for each subscription to exactly its type: success,
  \<open>Closed\<close> or \<open>Timeout\<close>. A subscription to another type is passed over in silence, and no result is
  ever a \<open>TypeCast\<close> error.
\<close>

theorem send_subscribe_results:
  assumes "join_law join" and "addr_subs self = Some subs"
  shows "length (fst (address_send_subscribe E join ty self msg w)) =
           length (filter (\<lambda>sub. sub_type sub = ty) subs)
     \<and> set (fst (address_send_subscribe E join ty self msg w)) \<subseteq> {Ok (), Err Closed, Err Timeout}"
proof -
  define dur where "dur = timeout (addr_config self)"
  define fs where "fs = map (\<lambda>sub. subscriber_send E sub (any_pack ty msg) dur) subs"
  define P where "P f = (\<exists>u. fst (f u) \<noteq> None)" for f :: "('a, unit send_result option) fut"
  obtain gs where gs: "mset gs = mset fs"
    and outs: "list_all2 (\<lambda>f x. \<exists>u. x = fst (f u)) gs (fst (join fs w))"
    using assms(1) unfolding join_law_def by blast
  have sub_of: "\<exists>sub. g = subscriber_send E sub (any_pack ty msg) dur" if "g \<in> set gs" for g
    using that mset_eq_setD [OF gs] by (auto simp: fs_def)
  have res: "fst (address_send_subscribe E join ty self msg w) = List.map_filter id (fst (join fs w))"
    by (simp add: address_send_subscribe_def assms(2) dur_def fs_def Let_def split_def)
  have same: "(fst (g u) \<noteq> None) = P g" if "g \<in> set gs" for g u
  proof -
    from sub_of [OF that] obtain sub where "g = subscriber_send E sub (any_pack ty msg) dur" ..
    then show ?thesis by (simp add: P_def subscriber_send_None del: not_None_eq)
  qed
  have "list_all2 (\<lambda>f x. (x \<noteq> None) = P f) gs (fst (join fs w))"
  proof (rule list.rel_mono_strong [OF outs])
    fix z y assume "z \<in> set gs" "\<exists>u. y = fst (z u)"
    with same show "(y \<noteq> None) = P z" by (metis (no_types))
  qed
  then have "length (fst (address_send_subscribe E join ty self msg w)) = length (filter P gs)"
    unfolding res length_map_filter_id by (rule list_all2_filter_length)
  also have "\<dots> = length (filter P fs)" by (rule filter_length_mset [OF gs])
  also have "\<dots> = length (filter (\<lambda>sub. sub_type sub = ty) subs)"
    by (simp add: fs_def P_def filter_map o_def subscriber_send_None del: not_None_eq)
  finally have len: "length (fst (address_send_subscribe E join ty self msg w)) =
      length (filter (\<lambda>sub. sub_type sub = ty) subs)" .
  have "r \<in> {Ok (), Err Closed, Err Timeout}" if "Some r \<in> set (fst (join fs w))" for r
  proof -
    from outs that obtain g u where g: "g \<in> set gs" "Some r = fst (g u)"
      by (auto dest!: list_all2_in_right)
    from sub_of [OF g(1)] obtain sub where "g = subscriber_send E sub (any_pack ty msg) dur" ..
    with g(2) show ?thesis by (intro subscriber_send_errors [OF sym]) simp
  qed
  then have "set (fst (address_send_subscribe E join ty self msg w)) \<subseteq> {Ok (), Err Closed, Err Timeout}"
    unfolding res set_map_filter_id by (intro subsetI) (drule CollectD)
  with len show ?thesis by simp
qed

definition demo_subs :: "(nat, nat, nat) subscriber list" where
  "demo_subs = map (\<lambda>(ch, ty). \<lparr>sub_sender = ch, sub_type = ty, sub_into = id\<rparr>)
     [(1, 0), (2, 0), (1, 9), (7, 0)]"

theorem send_subscribe_results_witness:
  "length (fst (address_send_subscribe demo_env join_in_order 0
     ((address_new 0 [] (actor_state_new config_default :: unit actor_state))
        \<lparr>addr_subs := Some demo_subs\<rparr>) 7 0)) = 3"
  using send_subscribe_results [OF join_in_order_law,
      of "(address_new 0 [] (actor_state_new config_default :: unit actor_state))
        \<lparr>addr_subs := Some demo_subs\<rparr>" demo_subs demo_env 0 7 0]
  by (simp add: demo_subs_def)

end
