(* ===== verification/Actor_System.thy ===== *)
theory Actor_System
  imports Spawn_Loop Actor_Address
begin

section \<open>An address and its actor together\<close>

text \<open>
  The world behind an address: one actor with its queue, the oneshot channels it answered, and a
  scheduler that runs the actor whenever a caller waits. This is one instance of the operations an
  address is a parameter of; what it adds to the code is the schedule alone, since the actor's turns
  are \<open>recv_loop\<close> and \<open>context_exit\<close>. The channel is unbounded, as \<open>unbounded_channel\<close> makes it, and
  takes messages until its only receiver has gone.
\<close>

record ('a, 'm, 'r, 'f, 'ty, 'v) world =
  w_actor :: "'a actor_context"
  w_shared :: "('f, nat) shared"
  w_queue :: "('m, 'f) context_message list"
  w_replies :: "(oneshot \<times> ('r, 'ty, 'v) reply) list"
  w_tasks :: "('m, 'r, 'f, 'ty, 'v, nat) ctx_effect list"
  w_next :: nat
  w_ended :: bool

text \<open>The actor takes every queued message in turn; when its task ends the rest is dropped.\<close>

definition world_run ::
  "('a, 'm, 'r, 'f, 'ty, 'v) actor_impl \<Rightarrow> ('a, 'm, 'r, 'f, 'ty, 'v) world
     \<Rightarrow> ('a, 'm, 'r, 'f, 'ty, 'v) world" where
  "world_run impl w =
     (if w_ended w then w
      else (case recv_loop impl (\<lambda>_. True) (map Some (w_queue w)) (w_shared w) (w_actor w) of
              (e, _, sh, c, es) \<Rightarrow>
                (let w' = w\<lparr>w_queue := [], w_shared := sh, w_actor := c,
                            w_replies := w_replies w @ replies es, w_tasks := w_tasks w @ es\<rparr>
                 in case e of
                      Blocked \<Rightarrow> w'
                    | Panicked \<Rightarrow> w'\<lparr>w_ended := True\<rparr>
                    | Exited \<Rightarrow>
                        (case context_exit impl sh c of
                           (again, sh', c') \<Rightarrow>
                             w'\<lparr>w_shared := sh', w_actor := c', w_ended := \<not> again\<rparr>))))"

definition world_send ::
  "('m, 'f) context_message \<Rightarrow> ('a, 'm, 'r, 'f, 'ty, 'v) world
     \<Rightarrow> unit send_result \<times> ('a, 'm, 'r, 'f, 'ty, 'v) world" where
  "world_send m w =
     (if w_ended w then (Err Closed, w) else (Ok (), w\<lparr>w_queue := w_queue w @ [m]\<rparr>))"

definition world_await ::
  "('a, 'm, 'r, 'f, 'ty, 'v) actor_impl \<Rightarrow> (('r, 'ty, 'v) reply \<Rightarrow> 'x option) \<Rightarrow> oneshot
     \<Rightarrow> ('a, 'm, 'r, 'f, 'ty, 'v) world \<Rightarrow> (unit + 'x) \<times> ('a, 'm, 'r, 'f, 'ty, 'v) world" where
  "world_await impl sel tx w =
     (let w' = world_run impl w
      in (ok_or () (Option.bind (map_of (w_replies w') tx) sel), w'))"

definition world_env ::
  "('a, 'm, 'r, 'f, 'ty, 'v) actor_impl
     \<Rightarrow> (('a, 'm, 'r, 'f, 'ty, 'v) world, 'm, 'r, 'f, 'ty, 'v) address_env" where
  "world_env impl =
     \<lparr>env_oneshot = (\<lambda>w. (w_next w, w\<lparr>w_next := Suc (w_next w)\<rparr>)),
      env_timeout_send = (\<lambda>ch m dur w. map_prod Inr id (world_send m w)),
      env_upgrade = (\<lambda>ch w. \<not> w_ended w),
      env_spawn_send = (\<lambda>ch m w. snd (world_send m w)),
      env_await_result = world_await impl (\<lambda>r. case r of ReplyResult x \<Rightarrow> Some x | _ \<Rightarrow> None),
      env_await_any = world_await impl (\<lambda>r. case r of ReplyAny x \<Rightarrow> Some x | _ \<Rightarrow> None),
      env_await_state = world_await impl (\<lambda>r. case r of ReplyState x \<Rightarrow> Some x | _ \<Rightarrow> None),
      env_await_handler = world_await impl (\<lambda>r. case r of ReplyHandler x \<Rightarrow> Some x | _ \<Rightarrow> None)\<rparr>"

lemmas world_defs = world_env_def world_send_def world_await_def

lemma world_env_simps [simp]:
  "env_oneshot (world_env impl) w = (w_next w, w\<lparr>w_next := Suc (w_next w)\<rparr>)"
  "env_timeout_send (world_env impl) ch m dur w = map_prod Inr id (world_send m w)"
  "env_spawn_send (world_env impl) ch m w = snd (world_send m w)"
  by (simp_all add: world_env_def)

subsection \<open>Oneshot channels are never mixed up\<close>

text \<open>Every oneshot number in the world, in the queue or answered, was given out before.\<close>

definition world_ok :: "('a, 'm, 'r, 'f, 'ty, 'v) world \<Rightarrow> bool" where
  "world_ok w \<longleftrightarrow>
     (\<forall>t \<in> fst ` set (w_replies w). t < w_next w) \<and>
     (\<forall>m \<in> set (w_queue w). \<forall>t \<in> set_option (message_oneshot m). t < w_next w)"

lemma handle_msg_reply_keys:
  assumes "handle_msg impl open_rx m sh c = (sh', Some (brk, c', es))"
  shows "fst ` set (replies es) \<subseteq> set_option (message_oneshot m)"
proof (cases m)
  case (Instant im)
  with assms show ?thesis by (cases im) (auto simp: Let_def split: prod.splits option.splits)
next
  case (Interval im)
  with assms show ?thesis by (cases im) (auto simp: Let_def split: prod.splits option.splits)
next
  case (Delayed dm)
  with assms show ?thesis
    by (auto simp: handle_delayed_msg_def Let_def split: prod.splits option.splits)
qed (use assms in \<open>auto split: if_splits\<close>)

lemma recv_loop_reply_keys:
  assumes "recv_loop impl open_rx ins sh c = (e, ins', sh', c', es)"
  shows "fst ` set (replies es) \<subseteq> (\<Union>m \<in> {m. Some m \<in> set ins}. set_option (message_oneshot m))"
  using assms
proof (induction impl open_rx ins sh c arbitrary: es rule: recv_loop.induct)
  case (3 impl open_rx msg ins sh c)
  show ?case
  proof (cases "snd (handle_msg impl open_rx msg sh c)")
    case None
    with 3 show ?thesis by (auto split: prod.splits)
  next
    case (Some r)
    then obtain sh1 b c1 es1 where m: "handle_msg impl open_rx msg sh c = (sh1, Some (b, c1, es1))"
      by (metis prod.collapse)
    note keys = handle_msg_reply_keys [OF m]
    show ?thesis
    proof (cases b)
      case True
      with "3.prems" m keys show ?thesis by auto
    next
      case False
      with "3.prems" m obtain es2 where "recv_loop impl open_rx ins sh1 c1 = (e, ins', sh', c', es2)"
        and es: "es = es1 @ es2" by (auto split: prod.splits)
      from "3.IH" [OF m [symmetric] refl refl refl False this(1)] keys show ?thesis
        by (auto simp: es)
    qed
  qed
qed auto

lemma world_ok_queue_keys:
  assumes "world_ok w"
    and "recv_loop impl open_rx (map Some (w_queue w)) sh c = (e, ins', sh', c', es)"
  shows "t \<in> fst ` set (replies es) \<Longrightarrow> t < w_next w"
  using recv_loop_reply_keys [OF assms(2)] assms(1) by (fastforce simp: world_ok_def)

lemma world_ok_run [inv_intros]: "world_ok w \<Longrightarrow> world_ok (world_run impl w)"
proof (cases "w_ended w")
  case False
  assume ok: "world_ok w"
  obtain e ins' sh c es where run: "recv_loop impl (\<lambda>_. True) (map Some (w_queue w))
      (w_shared w) (w_actor w) = (e, ins', sh, c, es)" by (metis prod_cases5)
  show ?thesis
    using ok world_ok_queue_keys [OF ok run] False run
    by (cases e) (auto simp: world_run_def world_ok_def Let_def split: prod.splits)
qed (simp add: world_run_def)

lemma world_ok_send [inv_intros]:
  "world_ok w \<Longrightarrow> \<forall>t \<in> set_option (message_oneshot m). t < w_next w \<Longrightarrow> world_ok (snd (world_send m w))"
  by (auto simp: world_ok_def world_send_def)

lemma world_ok_oneshot [inv_intros]: "world_ok w \<Longrightarrow> world_ok (w\<lparr>w_next := Suc (w_next w)\<rparr>)"
  by (auto simp: world_ok_def less_Suc_eq)

subsection \<open>A call through the address\<close>

text \<open>
  A message that carries the oneshot just made: the world after sending it, and after waiting for its
  reply, when the actor gets through what was queued before (reaching \<open>sh1\<close> and \<open>c1\<close>).
\<close>

abbreviation asked :: "('m, 'f) context_message \<Rightarrow> ('a, 'm, 'r, 'f, 'ty, 'v) world
     \<Rightarrow> ('a, 'm, 'r, 'f, 'ty, 'v) world" where
  "asked m w \<equiv> snd (world_send m (w\<lparr>w_next := Suc (w_next w)\<rparr>))"

abbreviation gets_to ::
  "('a, 'm, 'r, 'f, 'ty, 'v) actor_impl \<Rightarrow> ('a, 'm, 'r, 'f, 'ty, 'v) world
     \<Rightarrow> ('f, nat) shared \<Rightarrow> 'a actor_context \<Rightarrow> ('m, 'r, 'f, 'ty, 'v, nat) ctx_effect list \<Rightarrow> bool" where
  "gets_to impl w sh1 c1 es \<equiv>
     \<not> w_ended w \<and>
     recv_loop impl (\<lambda>_. True) (map Some (w_queue w)) (w_shared w) (w_actor w) = (Blocked, [], sh1, c1, es)"

lemma reply_found:
  assumes "world_ok w" "gets_to impl w sh1 c1 es"
  shows "map_of (w_replies w @ replies es @ [(w_next w, rep)]) (w_next w) = Some rep"
proof -
  have "w_next w \<notin> fst ` set (w_replies w)" using assms(1) by (auto simp: world_ok_def)
  moreover have "w_next w \<notin> fst ` set (replies es)"
    using world_ok_queue_keys [OF assms(1), of impl _ _ _ _ _ _ _ es "w_next w"] assms(2) by blast
  ultimately show ?thesis by (simp add: map_add_def map_of_eq_None_iff [THEN iffD2])
qed

lemma run_asked:
  assumes "gets_to impl w sh1 c1 es"
    and "handle_msg impl (\<lambda>_. True) m sh1 c1 = (sh2, Some (brk, c2, es2))"
  shows "recv_loop impl (\<lambda>_. True) (map Some (w_queue w @ [m])) (w_shared w) (w_actor w) =
           (if brk then Exited else Blocked, [], sh2, c2, es @ es2)"
  using assms by (simp add: recv_loop_append [OF conjunct2 [OF assms(1)]])

lemma await_asked:
  assumes "world_ok w" "gets_to impl w sh1 c1 es"
    and "handle_msg impl (\<lambda>_. True) m sh1 c1 = (sh2, Some (False, c2, es2))"
    and "replies es2 = [(w_next w, rep)]" "sel rep = Some x"
  shows "world_await impl sel (w_next w) (asked m w) =
           (Inr x, w\<lparr>w_actor := c2, w_shared := sh2, w_queue := [], w_next := Suc (w_next w),
                     w_replies := w_replies w @ replies es @ [(w_next w, rep)],
                     w_tasks := w_tasks w @ es @ es2\<rparr>)"
  using assms(2) run_asked [OF assms(2,3)] assms(4,5) reply_found [OF assms(1,2)]
  by (simp add: world_await_def world_run_def world_send_def Let_def del: map_append)

lemma send_then_world:
  "\<not> w_ended w \<Longrightarrow>
     send_then (world_env impl) self m await (w\<lparr>w_next := Suc (w_next w)\<rparr>) =
       (let (res, w2) = await (asked m w) in (map_err (\<lambda>_. Canceled) res, w2))"
  by (simp add: send_then_def address_send_timeout_def world_send_def)

lemma send_then_ended:
  "w_ended w \<Longrightarrow> send_then (world_env impl) self m await w = (Err Closed, w)"
  by (simp add: send_then_def address_send_timeout_def world_send_def)

lemma send_replies:
  assumes "world_ok w" "gets_to impl w sh1 c1 es"
    and "impl_handle impl (into msg) (actor c1) = (r, a)"
  shows "\<exists>w'. address_send (world_env impl) into mapr self msg w = (mapr r, w')
     \<and> actor (w_actor w') = a \<and> w_queue w' = [] \<and> \<not> w_ended w' \<and> world_ok w'
     \<and> w_shared w' = sh1"
proof -
  let ?m = "Instant (InstantStatic (Some (w_next w)) (into msg))"
  have h: "handle_msg impl (\<lambda>_. True) ?m sh1 c1 =
      (sh1, Some (False, c1\<lparr>actor := a\<rparr>, [OneshotSend (w_next w) (ReplyResult r)]))"
    by (simp add: assms(3))
  let ?sel = "\<lambda>r. case r of ReplyResult x \<Rightarrow> Some x | _ \<Rightarrow> None"
  have aw: "env_await_result (world_env impl) tx = world_await impl ?sel tx" for tx
    by (simp add: world_env_def)
  note got = await_asked [OF assms(1,2) h, of "ReplyResult r" ?sel r, simplified]
  have "world_ok (snd (world_await impl ?sel (w_next w) (asked ?m w)))"
    unfolding world_await_def Let_def snd_conv
    by (intro inv_intros assms(1)) simp
  with got assms(2) show ?thesis
    by (simp add: address_send_def aw send_then_world Let_def)
qed

text \<open>
  C2. A caller gets the result for its own message: the actor first handles everything queued before,
  then this message, from the state that leaves, and its result, mapped back by the message's type, is
  what \<open>send\<close> returns; other callers' oneshot channels are not confused with it.
\<close>

theorem send_end_to_end:
  assumes "world_ok w" "gets_to impl w sh1 c1 es"
    and "impl_handle impl (into msg) (actor c1) = (r, a)"
  shows "\<exists>w'. address_send (world_env impl) into mapr self msg w = (mapr r, w')
     \<and> actor (w_actor w') = a \<and> w_queue w' = [] \<and> \<not> w_ended w' \<and> world_ok w'"
  using send_replies [where into = into and msg = msg, OF assms] by blast


lemma run_replies:
  assumes "world_ok w" "gets_to impl w sh1 c1 es"
    and "impl_call impl f (actor c1) = ((ty', v), f', a)"
  shows "\<exists>w'. address_run (world_env impl) ty self f w =
             (if ty = ty' then Ok v else Err TypeCast, w')
     \<and> actor (w_actor w') = a \<and> w_queue w' = [] \<and> \<not> w_ended w' \<and> world_ok w'"
proof -
  let ?m = "Instant (InstantDynamic (Some (w_next w)) (future_pack f))"
  let ?rep = "ReplyAny (any_pack ty' v)"
  have "future_container_handle (impl_call impl) (future_pack f) (actor c1) =
      (any_pack ty' v, (future_pack f)\<lparr>func := f'\<rparr>, a)"
    by (rule container_handle_eq) (simp add: future_pack_def assms(3))
  then have h: "handle_msg impl (\<lambda>_. True) ?m sh1 c1 =
      (sh1, Some (False, c1\<lparr>actor := a\<rparr>, [OneshotSend (w_next w) ?rep]))"
    by simp
  let ?sel = "\<lambda>r. case r of ReplyAny x \<Rightarrow> Some x | _ \<Rightarrow> None"
  have aw: "env_await_any (world_env impl) tx = world_await impl ?sel tx" for tx
    by (simp add: world_env_def)
  note got = await_asked [OF assms(1,2) h, of ?rep ?sel "any_pack ty' v", simplified]
  have "world_ok (snd (world_await impl ?sel (w_next w) (asked ?m w)))"
    unfolding world_await_def Let_def snd_conv
    by (intro inv_intros assms(1)) simp
  with got assms(2) show ?thesis by (simp add: address_run_def aw send_then_world Let_def)
qed

text \<open>
  C28. A closure run on the actor returns the value it computed when that is read back at its own type,
  and a \<open>TypeCast\<close> error at any other; it runs on the actor's state as the messages queued before
  left it.
\<close>

theorem run_end_to_end:
  assumes "world_ok w" "gets_to impl w sh1 c1 es"
    and "impl_call impl f (actor c1) = ((ty', v), f', a)"
  shows "\<exists>w'. address_run (world_env impl) ty self f w =
             (if ty = ty' then Ok v else Err TypeCast, w')
     \<and> actor (w_actor w') = a \<and> \<not> w_ended w'"
  using run_replies [OF assms] by blast

subsection \<open>The theorems at work\<close>

text \<open>An actor with two messages queued, the first of them expecting a reply.\<close>

definition demo_world :: "(nat, nat, nat, nat, nat, nat) world" where
  "demo_world =
     \<lparr>w_actor = demo_context, w_shared = demo_shared False,
      w_queue = [Instant (InstantStatic (Some 0) 5), Instant (InstantStatic None 6)],
      w_replies = [], w_tasks = [], w_next = 1, w_ended = False\<rparr>"

definition demo_address :: "(nat, nat, nat) address" where
  "demo_address = address_new 0 [] (actor_state_new config_default :: unit actor_state)"

lemma demo_world_ok: "world_ok demo_world"
  by (simp add: demo_world_def world_ok_def)

lemma demo_world_gets_to:
  "gets_to demo_impl demo_world (demo_shared False) (demo_context\<lparr>actor := 11\<rparr>)
     [OneshotSend 0 (ReplyResult 5)]"
  by (simp add: demo_world_def demo_impl_def demo_context_def context_new_def)

theorem send_end_to_end_witness:
  "\<exists>w'. address_send (world_env demo_impl) id (\<lambda>r. Some (Ok r)) demo_address 7 demo_world =
     (Some (Ok 18), w') \<and> actor (w_actor w') = 18"
proof -
  have "impl_handle demo_impl (id 7) (actor (demo_context\<lparr>actor := 11\<rparr>)) = (18, 18)"
    by (simp add: demo_impl_def)
  from send_end_to_end [where into = id and msg = 7 and mapr = "\<lambda>r. Some (Ok r)" and self = demo_address,
      OF demo_world_ok demo_world_gets_to this]
  show ?thesis by blast
qed


theorem run_end_to_end_witness:
  "fst (address_run (world_env demo_impl) 0 demo_address 4 demo_world) = Ok 4
   \<and> fst (address_run (world_env demo_impl) 1 demo_address 4 demo_world) = Err TypeCast"
proof -
  have "impl_call demo_impl 4 (actor (demo_context\<lparr>actor := 11\<rparr>)) = ((0, 4), 5, 15)"
    by (simp add: demo_impl_def)
  from run_end_to_end [OF demo_world_ok demo_world_gets_to this, of 0 demo_address]
    run_end_to_end [OF demo_world_ok demo_world_gets_to this, of 1 demo_address]
  show ?thesis by auto
qed

end
