(* ===== verification/Address_Refs.thy ===== *)
theory Address_Refs
  imports Actor_State Channel_Sender
begin

section \<open>Cloning, dropping and upgrading addresses (\<open>src/address.rs\<close>)\<close>

text \<open>
  The counts an \<open>Address\<close> keeps: its own \<open>strong_count\<close>, and the strong counts of the \<open>Arc\<close>s of its
  \<open>Sender\<close> and of its \<open>GroupSender\<close> (\<open>None\<close> when broadcasting is not allowed). \<open>live\<close> and \<open>held\<close>
  are what is counted: the addresses that exist, and the senders that tasks and streams hold
  (\<open>do_send\<close>, \<open>handle_delayed_msg\<close> and the streams clone or upgrade the sender and nothing else).
\<close>

record ('f, 'wk) refs =
  strong_count :: usize
  tx_count :: nat
  group_count :: "nat option"
  ref_state :: "'f actor_state"
  ref_cells :: "'wk finisher list"
  live :: nat
  held :: nat
  panics :: nat

definition refs_new :: "'f actor_state \<Rightarrow> ('f, 'wk) refs" where
  "refs_new st =
     \<lparr>strong_count = 1, tx_count = sender_from,
      group_count = (if state_allow_broadcast st then Some group_from else None),
      ref_state = st, ref_cells = [], live = 1, held = 0, panics = 0\<rparr>"

definition address_clone :: "('f, 'wk) refs \<Rightarrow> ('f, 'wk) refs" where
  "address_clone r =
     r\<lparr>strong_count := strong_count r + 1, tx_count := sender_clone (tx_count r),
       group_count := map_option group_clone (group_count r), live := live r + 1\<rparr>"

text \<open>
  \<open>Drop\<close> compares what \<open>fetch_sub\<close> returns, the count before the subtraction, with zero. The fields
  are dropped after the body, so the sender is still there when \<open>shutdown\<close> runs.
\<close>

definition address_drop ::
  "('f, 'wk) refs \<Rightarrow> ('f, 'wk) refs \<times> ('m, 'f, 'rep, 'wk) effect list" where
  "address_drop r =
     (let old = strong_count r;
          r1 = r\<lparr>strong_count := old - 1\<rparr>;
          (r2, es) =
            (if old = 0
             then (let (st, cells, es) = shutdown True (ref_state r1) (ref_cells r1)
                   in (r1\<lparr>ref_state := st, ref_cells := cells\<rparr>, es))
             else (r1, []))
      in (r2\<lparr>tx_count := sender_drop (tx_count r2),
             group_count := map_option (\<lambda>n. n - 1) (group_count r2), live := live r2 - 1\<rparr>, es))"

text \<open>
  \<open>WeakAddress::upgrade\<close>: the new address, and whether it has a subscriber list; a panic when the
  group of senders has gone while a sender is still there. The panic unwinds with the sender dropped
  and \<open>strong_count\<close> left incremented.
\<close>

datatype upgraded = NoAddress | Upgraded (has_subs: bool) | UpgradePanic

definition address_upgrade :: "('f, 'wk) refs \<Rightarrow> upgraded \<times> ('f, 'wk) refs" where
  "address_upgrade r =
     (case weak_upgrade (tx_count r) of
        None \<Rightarrow> (NoAddress, r)
      | Some n \<Rightarrow>
          (let r1 = r\<lparr>tx_count := n, strong_count := strong_count r + 1\<rparr>
           in case group_count r1 of
                None \<Rightarrow> (Upgraded False, r1\<lparr>live := live r1 + 1\<rparr>)
              | Some g \<Rightarrow>
                  (case group_upgrade g of
                     Some g' \<Rightarrow> (Upgraded False, r1\<lparr>group_count := Some g', live := live r1 + 1\<rparr>)
                   | None \<Rightarrow>
                       (UpgradePanic, r1\<lparr>tx_count := sender_drop (tx_count r1),
                                         panics := panics r1 + 1\<rparr>))))"

lemmas refs_defs [op_defs] =
  refs_new_def address_clone_def address_drop_def address_upgrade_def

subsection \<open>Every order of these operations\<close>

text \<open>
  One step of the program as these counts see it. An address can be cloned or dropped only while there
  is one; a weak address can be upgraded at any time. A task takes a sender from an address or by
  upgrading a weak sender, and lets it go. Actors come and go. Every address is a value in memory,
  and there are fewer than \<open>2 ^ 64\<close> of them.
\<close>

inductive ref_step :: "('f, 'wk) refs \<Rightarrow> ('f, 'wk) refs \<Rightarrow> bool" where
  StepClone: "0 < live r \<Longrightarrow> Suc (live r) < 2 ^ 64 \<Longrightarrow> ref_step r (address_clone r)"
| StepDrop: "0 < live r \<Longrightarrow> address_drop r = (r', es :: (unit, 'f, unit, 'wk) effect list)
    \<Longrightarrow> ref_step r r'"
| StepUpgrade: "Suc (live r) < 2 ^ 64 \<Longrightarrow> ref_step r (snd (address_upgrade r))"
| StepHold: "weak_upgrade (tx_count r) = Some n \<Longrightarrow> ref_step r (r\<lparr>tx_count := n, held := held r + 1\<rparr>)"
| StepRelease: "0 < held r \<Longrightarrow> ref_step r (r\<lparr>tx_count := sender_drop (tx_count r), held := held r - 1\<rparr>)"
| StepInc: "ref_step r (r\<lparr>ref_state := snd (inc_active (ref_state r))\<rparr>)"
| StepDec: "ref_step r (r\<lparr>ref_state := snd (dec_active (ref_state r))\<rparr>)"

inductive refs_reachable :: "'f actor_state \<Rightarrow> ('f, 'wk) refs \<Rightarrow> bool" for st where
  Start: "refs_reachable st (refs_new st)"
| More: "refs_reachable st r \<Longrightarrow> ref_step r r' \<Longrightarrow> refs_reachable st r'"

text \<open>The invariant: the counts count what they should, except for the addresses lost to panics.\<close>

definition refs_ok :: "bool \<Rightarrow> ('f, 'wk) refs \<Rightarrow> bool" where
  "refs_ok bc r \<longleftrightarrow>
     strong_count r = of_nat (live r + panics r) \<and> live r < 2 ^ 64 \<and>
     tx_count r = live r + held r \<and>
     group_count r = (if bc then Some (live r) else None) \<and>
     (0 < panics r \<longrightarrow> live r = 0 \<and> bc) \<and>
     is_running (ref_state r)"

lemma refs_ok_new [inv_intros]:
  "is_running st \<Longrightarrow> refs_ok (state_allow_broadcast st) (refs_new st)"
  by (simp add: refs_ok_def refs_new_def sender_from_def group_from_def)

lemma refs_ok_clone [inv_intros]:
  "refs_ok bc r \<Longrightarrow> 0 < live r \<Longrightarrow> Suc (live r) < 2 ^ 64 \<Longrightarrow> refs_ok bc (address_clone r)"
  by (auto simp: refs_ok_def address_clone_def sender_clone_def group_clone_def split: if_splits)

text \<open>While an address is live the count \<open>Drop\<close> looks at is not zero: \<open>shutdown\<close> is not called.\<close>

lemma drop_eq:
  assumes "refs_ok bc r" "0 < live r"
  shows "(address_drop r :: _ \<times> ('m, 'f, 'rep, 'wk) effect list) =
     (r\<lparr>strong_count := of_nat (live r - 1), tx_count := live r - 1 + held r,
        group_count := (if bc then Some (live r - 1) else None), live := live r - 1\<rparr>, [])"
proof -
  have "strong_count r = of_nat (live r)" and lt: "live r < 2 ^ 64"
    using assms by (auto simp: refs_ok_def)
  moreover have "(of_nat (live r) :: usize) \<noteq> 0"
    using of_nat_usize_inject [of "live r" 0] assms(2) lt by simp
  moreover have "(of_nat (live r) :: usize) - 1 = of_nat (live r - 1)"
    using assms(2) by (cases "live r") simp_all
  ultimately show ?thesis
    using assms by (auto simp: refs_ok_def address_drop_def sender_drop_def Let_def)
qed

text \<open>Dropping an address that was never cloned takes the channel with it.\<close>

lemma new_counts: "live (refs_new st) = 1" "held (refs_new st) = 0"
  by (simp_all add: refs_new_def)

lemma drop_only_address:
  "is_running st \<Longrightarrow> tx_count (fst (address_drop (refs_new st) :: _ \<times> ('m, 'f, 'rep, 'wk) effect list)) = 0"
  by (simp add: drop_eq [OF refs_ok_new] new_counts)

lemma refs_ok_drop [inv_intros]:
  assumes "refs_ok bc r" "0 < live r" "address_drop r = (r', es)"
  shows "refs_ok bc r'"
proof -
  from assms have "panics r = 0" by (auto simp: refs_ok_def)
  with assms show ?thesis by (auto simp: drop_eq [OF assms(1,2)] refs_ok_def)
qed

lemma refs_ok_upgrade [inv_intros]:
  "refs_ok bc r \<Longrightarrow> Suc (live r) < 2 ^ 64 \<Longrightarrow> refs_ok bc (snd (address_upgrade r))"
  by (auto simp: refs_ok_def address_upgrade_def weak_upgrade_def group_upgrade_def sender_drop_def
      Let_def add.commute)

lemma ref_step_ok: "ref_step r r' \<Longrightarrow> refs_ok bc r \<Longrightarrow> refs_ok bc r'"
proof (induction rule: ref_step.induct)
  case (StepHold r n)
  then show ?case by (auto simp: refs_ok_def weak_upgrade_def split: if_splits)
next
  case (StepRelease r)
  then show ?case by (auto simp: refs_ok_def sender_drop_def)
next
  case (StepInc r)
  then show ?case by (simp add: refs_ok_def)
next
  case (StepDec r)
  then show ?case by (simp add: refs_ok_def)
qed (auto intro: inv_intros)

lemma refs_reachable_ok:
  "refs_reachable st r \<Longrightarrow> is_running st \<Longrightarrow> refs_ok (state_allow_broadcast st) r"
  by (induction rule: refs_reachable.induct) (auto intro: inv_intros ref_step_ok)

text \<open>
  C14. Dropping addresses never shuts the actors down. However addresses are cloned, dropped and upgraded,
  \<open>strong_count\<close> is the number of addresses, and dropping one, the last one included, takes one off
  and does nothing else: \<open>Drop\<close> tests the count from before its subtraction, which is never zero. So
  the marker is never set and no delayed or interval task is cancelled.
\<close>

theorem drop_never_shuts_down:
  assumes "refs_reachable st r" and "is_running st" and "0 < live r"
  shows "strong_count r = of_nat (live r) \<and> is_running (ref_state r) \<and>
     (\<exists>r'. address_drop r = (r', []) \<and> strong_count r' = of_nat (live r - 1)
        \<and> ref_state r' = ref_state r \<and> ref_cells r' = ref_cells r)"
proof -
  from assms have ok: "refs_ok (state_allow_broadcast st) r" by (blast intro: refs_reachable_ok)
  with assms(3) show ?thesis by (auto simp: drop_eq [OF ok assms(3)]) (auto simp: refs_ok_def)
qed

text \<open>
  C29. Upgrading a weak address gives an address exactly while some sender exists, and the new address
  has no subscriber list, whatever the original had. With broadcasting allowed it panics while a
  task or a stream holds a sender after the last address was dropped.
\<close>

theorem upgrade_outcome:
  assumes "refs_reachable st r" and "is_running st"
  shows "fst (address_upgrade r) =
     (if live r + held r = 0 then NoAddress
      else if live r = 0 \<and> state_allow_broadcast st then UpgradePanic
      else Upgraded False)"
  using refs_reachable_ok [OF assms]
  by (auto simp: refs_ok_def address_upgrade_def weak_upgrade_def group_upgrade_def Let_def)

subsection \<open>The theorems at work\<close>

definition demo_refs_state :: "unit actor_state" where
  "demo_refs_state = actor_state_new (config_default\<lparr>allow_broadcast := True\<rparr>)"

lemma demo_refs_running: "is_running demo_refs_state"
  by (simp add: demo_refs_state_def actor_state_new_def is_running_def)

lemma demo_refs_new:
  "(refs_new demo_refs_state :: (unit, nat) refs) =
     \<lparr>strong_count = 1, tx_count = 1, group_count = Some 1, ref_state = demo_refs_state,
      ref_cells = [], live = 1, held = 0, panics = 0\<rparr>"
  by (simp add: refs_new_def sender_from_def group_from_def demo_refs_state_def state_allow_broadcast_def
      actor_state_new_def)

text \<open>The last address is dropped: a reachable state in which nothing was shut down.\<close>

theorem drop_never_shuts_down_witness:
  "\<exists>r'. address_drop (refs_new demo_refs_state :: (unit, nat) refs) = (r', [] :: (nat, unit, nat, nat) effect list)
     \<and> strong_count r' = 0 \<and> is_running (ref_state r')"
proof -
  have "0 < live (refs_new demo_refs_state :: (unit, nat) refs)" by (simp add: demo_refs_new)
  from drop_never_shuts_down [OF refs_reachable.Start demo_refs_running this] demo_refs_running
  show ?thesis by (fastforce simp: demo_refs_new)
qed

text \<open>A task holds a sender when the last address is dropped; then the weak address is upgraded.\<close>

theorem upgrade_outcome_witness:
  "\<exists>r :: (unit, nat) refs. refs_reachable demo_refs_state r \<and> held r = 1 \<and> live r = 0
     \<and> fst (address_upgrade r) = UpgradePanic"
proof -
  let ?r0 = "refs_new demo_refs_state :: (unit, nat) refs"
  let ?r1 = "?r0\<lparr>tx_count := 2, held := held ?r0 + 1\<rparr>"
  have "weak_upgrade (tx_count ?r0) = Some 2" by (simp add: demo_refs_new weak_upgrade_def)
  then have 1: "refs_reachable demo_refs_state ?r1"
    by (intro refs_reachable.More [OF refs_reachable.Start] ref_step.StepHold)
  have "0 < live ?r1" by (simp add: demo_refs_new)
  then have 2: "refs_reachable demo_refs_state (fst (address_drop ?r1 :: _ \<times> (unit, unit, unit, nat) effect list))"
    by (intro refs_reachable.More [OF 1] ref_step.StepDrop [OF _ surjective_pairing])
  have "state_allow_broadcast demo_refs_state"
    by (simp add: demo_refs_state_def state_allow_broadcast_def actor_state_new_def)
  with upgrade_outcome [OF 2 demo_refs_running] 2 show ?thesis
    by (intro exI [of _ "fst (address_drop ?r1 :: _ \<times> (unit, unit, unit, nat) effect list)"])
      (simp add: demo_refs_new address_drop_def Let_def)
qed

end
