(* ===== verification/Actor_Builder.thy ===== *)
theory Actor_Builder
  imports Actor_Address
begin

section \<open>Starting actors (\<open>start\<close> and \<open>start_with_arbiters\<close> in \<open>src/builder.rs\<close>)\<close>

text \<open>
  The builder function is user code, a parameter \<open>build\<close> that makes an actor in some world, and so is
  the bounded channel of a broadcast receiver (\<open>bounded\<close>, as in \<open>broadcast_receiver\<close>). Starting
  gives the contexts spawned, each with its broadcast receiver, and the senders the address gets.
\<close>

type_synonym ('w, 'tx, 'rx) bounded_channel = "usize \<Rightarrow> 'w \<Rightarrow> 'tx \<times> 'rx \<times> 'w"

fun start_loop ::
  "('w \<Rightarrow> 'a \<times> 'w) \<Rightarrow> ('w, 'tx, 'rx) bounded_channel \<Rightarrow> 'f actor_state \<Rightarrow> usize \<Rightarrow> nat list
     \<Rightarrow> 'tx list \<Rightarrow> 'w \<Rightarrow> ('a actor_context \<times> 'rx option) list \<times> 'tx list \<times> 'w" where
  "start_loop build bounded st n [] senders w = ([], senders, w)"
| "start_loop build bounded st n (i # is) senders w =
     (let (act, w1) = build w;
          (brx, senders1, w2) = broadcast_receiver bounded st n senders w1;
          ctx = context_new (of_nat i) brx act;
          (ctxs, senders2, w3) = start_loop build bounded st n is senders1 w2
      in ((ctx, brx) # ctxs, senders2, w3))"

definition builder_start ::
  "('w \<Rightarrow> 'a \<times> 'w) \<Rightarrow> ('w, nat, 'rx) bounded_channel \<Rightarrow> nat \<Rightarrow> config \<Rightarrow> 'w
     \<Rightarrow> ('a actor_context \<times> 'rx option) list \<times> ('ty, 'v, 'm) address \<times> 'f actor_state \<times> 'w" where
  "builder_start build bounded tx c w =
     (let n = num c; st = actor_state_new c
      in if n = 1
         then (let (act, w1) = build w;
                   (brx, senders, w2) = broadcast_receiver bounded st n [] w1
               in ([(context_new 0 brx act, brx)], address_new tx senders st, st, w2))
         else (let (ctxs, senders, w1) = start_loop build bounded st n [0..<unat n] [] w
               in (ctxs, address_new tx senders st, st, w1)))"

text \<open>
  With arbiters: what each is asked to spawn, in order. The actor is built later, on the arbiter.
  Indexing past the slice and the remainder by an empty slice's length panic: \<open>None\<close>.
\<close>

record 'rx placement =
  pl_arbiter :: nat
  pl_id :: usize
  pl_rx :: "'rx option"

fun arbiters_loop ::
  "('w, 'tx, 'rx) bounded_channel \<Rightarrow> 'f actor_state \<Rightarrow> usize \<Rightarrow> nat \<Rightarrow> nat list \<Rightarrow> 'tx list \<Rightarrow> 'w
     \<Rightarrow> ('rx placement list \<times> 'tx list \<times> 'w) option" where
  "arbiters_loop bounded st n len [] senders w = Some ([], senders, w)"
| "arbiters_loop bounded st n len (i # is) senders w =
     (if len = 0 then None
      else (let index = i mod len;
                (brx, senders1, w1) = broadcast_receiver bounded st n senders w
            in if \<not> index < len then None
               else map_option
                      (\<lambda>(pls, senders2, w2).
                         (\<lparr>pl_arbiter = index, pl_id = of_nat i, pl_rx = brx\<rparr> # pls, senders2, w2))
                      (arbiters_loop bounded st n len is senders1 w1)))"

definition start_with_arbiters ::
  "('w, nat, 'rx) bounded_channel \<Rightarrow> nat \<Rightarrow> config \<Rightarrow> nat \<Rightarrow> nat option \<Rightarrow> 'w
     \<Rightarrow> ('rx placement list \<times> ('ty, 'v, 'm) address \<times> 'f actor_state \<times> 'w) option" where
  "start_with_arbiters bounded tx c len index w =
     (let n = num c; st = actor_state_new c
      in if n = 1
         then (let index = (case index of None \<Rightarrow> 0 | Some i \<Rightarrow> i)
               in if \<not> index < len then None
                  else Some ([\<lparr>pl_arbiter = index, pl_id = 0, pl_rx = None\<rparr>], address_new tx [] st, st, w))
         else map_option (\<lambda>(pls, senders, w1). (pls, address_new tx senders st, st, w1))
                (arbiters_loop bounded st n len [0..<unat n] [] w))"

text \<open>What the closure sent to the arbiter does when it runs there.\<close>

definition placement_run :: "('w \<Rightarrow> 'a \<times> 'w) \<Rightarrow> 'rx placement \<Rightarrow> 'w \<Rightarrow> 'a actor_context \<times> 'w" where
  "placement_run build p w =
     (let (act, w1) = build w in (context_new (pl_id p) (pl_rx p) act, w1))"

subsection \<open>Starting\<close>

lemma broadcast_receiver_shape:
  "broadcast_receiver bounded st n senders w = (brx, senders1, w1) \<Longrightarrow>
     (brx \<noteq> None) = state_allow_broadcast st \<and>
     length senders1 = length senders + (if state_allow_broadcast st then 1 else 0)"
  by (auto simp: broadcast_receiver_def Let_def split: prod.splits if_splits)

lemma context_new_shape [simp]:
  "ctx_id (context_new i brx act) = i" "generation (context_new i brx act) = 0"
  "selecting (context_new i brx act) = (brx \<noteq> None)" "\<not> manual_shutdown (context_new i brx act)"
  "actor (context_new i brx act) = act"
  by (auto simp: context_new_def split: option.splits)

lemma start_loop_shape:
  "start_loop build bounded st n is senders w = (ctxs, senders', w') \<Longrightarrow>
     map (\<lambda>(c, brx). (ctx_id c, generation c, selecting c, brx \<noteq> None)) ctxs =
       map (\<lambda>i. (of_nat i, 0, state_allow_broadcast st, state_allow_broadcast st)) is
     \<and> length senders' = length senders + (if state_allow_broadcast st then length is else 0)"
proof (induction "is" arbitrary: senders w ctxs)
  case (Cons i "is")
  obtain act w1 where b: "build w = (act, w1)" by force
  obtain brx senders1 w2 where r: "broadcast_receiver bounded st n senders w1 = (brx, senders1, w2)"
    by (metis prod_cases3)
  obtain ctxs2 where rest: "start_loop build bounded st n is senders1 w2 = (ctxs2, senders', w')"
    and ctxs: "ctxs = (context_new (of_nat i) brx act, brx) # ctxs2"
    using Cons.prems b r by (auto simp: Let_def split: prod.splits)
  from broadcast_receiver_shape [OF r] Cons.IH [OF rest] show ?case
    by (simp add: ctxs del: not_None_eq)
qed simp

text \<open>The branch for one actor is the loop's single round.\<close>

lemma builder_start_loop:
  "builder_start build bounded tx c w =
     (let st = actor_state_new c;
          (ctxs, senders, w1) = start_loop build bounded st (num c) [0..<unat (num c)] [] w
      in (ctxs, address_new tx senders st, st, w1))"
  by (auto simp: builder_start_def Let_def split_def)

lemma ids_distinct: "distinct (map (of_nat :: nat \<Rightarrow> usize) [0..<unat (n :: usize)])"
  using unat_usize_lt [of n] by (auto simp: distinct_map inj_on_def of_nat_usize_inject)

text \<open>
  Starting gives as many actors as configured, numbered from zero without repetition, in generation
  zero; each listens to a broadcast channel of its own exactly when broadcasting is allowed, and the
  address then has one sender for each.
\<close>

theorem start_actors:
  fixes st :: "'f actor_state"
  assumes "builder_start build bounded tx c w = (ctxs, addr, st, w')"
  shows "map (ctx_id \<circ> fst) ctxs = map of_nat [0..<unat (num c)] \<and> distinct (map (ctx_id \<circ> fst) ctxs)
     \<and> (\<forall>(x, brx) \<in> set ctxs. generation x = 0 \<and> selecting x = allow_broadcast c
          \<and> (brx \<noteq> None) = allow_broadcast c)
     \<and> map_option length (addr_tx_subs addr) = (if allow_broadcast c then Some (length ctxs) else None)
     \<and> st = actor_state_new c"
proof -
  obtain cs senders w1 where run:
      "start_loop build bounded (actor_state_new c :: 'f actor_state) (num c) [0..<unat (num c)] [] w = (cs, senders, w1)"
    by (rule prod_cases3)
  from assms have st: "st = actor_state_new c" and addr: "addr = address_new tx senders st"
    and "cs = ctxs" "w1 = w'"
    by (auto simp: builder_start_loop Let_def run)
  with run have loop:
      "start_loop build bounded st (num c) [0..<unat (num c)] [] w = (ctxs, senders, w')" by simp
  from start_loop_shape [OF loop]
  have shape: "map (\<lambda>(c, brx). (ctx_id c, generation c, selecting c, brx \<noteq> None)) ctxs =
      map (\<lambda>i. (of_nat i, 0, allow_broadcast c, allow_broadcast c)) [0..<unat (num c)]"
    and len: "length senders = (if allow_broadcast c then unat (num c) else 0)"
    by (simp_all add: st state_allow_broadcast_def actor_state_new_def)
  have ids: "map (ctx_id \<circ> fst) ctxs = map of_nat [0..<unat (num c)]"
    using arg_cong [OF shape, of "map fst"] by (simp add: o_def split_def)
  have "length ctxs = unat (num c)" using arg_cong [OF shape, of length] by simp
  then have grp: "map_option length (addr_tx_subs addr) = (if allow_broadcast c then Some (length ctxs) else None)"
    using len by (simp add: addr st address_new_def state_allow_broadcast_def actor_state_new_def)
  have "generation x = 0 \<and> selecting x = allow_broadcast c \<and> (brx \<noteq> None) = allow_broadcast c"
    if "(x, brx) \<in> set ctxs" for x brx
  proof -
    from that have "(ctx_id x, generation x, selecting x, brx \<noteq> None) \<in>
        set (map (\<lambda>(c, brx). (ctx_id c, generation c, selecting c, brx \<noteq> None)) ctxs)" by force
    then show ?thesis unfolding shape by auto
  qed
  then have "\<forall>(x, brx) \<in> set ctxs. generation x = 0 \<and> selecting x = allow_broadcast c
      \<and> (brx \<noteq> None) = allow_broadcast c" by blast
  with ids ids_distinct [of "num c"] grp st show ?thesis by (simp only: simp_thms)
qed

subsection \<open>Starting on arbiters\<close>

lemma arbiters_loop_panics:
  "arbiters_loop bounded st n 0 is senders w = None \<longleftrightarrow> is \<noteq> []"
  by (cases "is") simp_all

lemma arbiters_loop_shape:
  assumes "0 < len"
  shows "\<exists>pls senders' w'. arbiters_loop bounded st n len is senders w = Some (pls, senders', w') \<and>
     map (\<lambda>p. (pl_arbiter p, pl_id p, pl_rx p \<noteq> None)) pls =
       map (\<lambda>i. (i mod len, of_nat i, state_allow_broadcast st)) is \<and>
     length senders' = length senders + (if state_allow_broadcast st then length is else 0)"
proof (induction "is" arbitrary: senders w)
  case (Cons i "is")
  obtain brx senders1 w1 where r: "broadcast_receiver bounded st n senders w = (brx, senders1, w1)"
    by (metis prod_cases3)
  from Cons.IH [of senders1 w1] broadcast_receiver_shape [OF r] r assms show ?case
    by (fastforce simp del: not_None_eq)
qed simp

text \<open>How many of the numbers below \<open>n\<close> leave the remainder \<open>k\<close>.\<close>

lemma count_mod:
  assumes "k < (len :: nat)"
  shows "length (filter (\<lambda>i. i mod len = k) [0..<n]) = n div len + (if k < n mod len then 1 else 0)"
proof (induction n)
  case (Suc n)
  have "n mod len < len" using assms by simp
  then show ?case using Suc assms by (auto simp: mod_Suc div_Suc)
qed simp

lemma filter_arbiter:
  assumes "map (\<lambda>p. (pl_arbiter p, pl_id p, pl_rx p \<noteq> None)) pls = map (\<lambda>i. (i mod len, of_nat i, b)) is"
  shows "length (filter (\<lambda>p. pl_arbiter p = k) pls) = length (filter (\<lambda>i. i mod len = k) is)"
proof -
  have "map pl_arbiter pls = map (\<lambda>i. i mod len) is" using arg_cong [OF assms, of "map fst"] by (simp add: o_def)
  from arg_cong [OF this, of "\<lambda>xs. length (filter (\<lambda>x. x = k) xs)"] show ?thesis
    by (simp add: filter_map o_def)
qed

text \<open>
  C37. Several actors are spread evenly over the arbiters: each arbiter gets the quotient, and the first
  ones one more while the remainder lasts. Without arbiters starting panics.
\<close>

theorem arbiters_even:
  assumes "num c \<noteq> 1" and "num c \<noteq> 0"
  shows "case (start_with_arbiters bounded tx c len index w
           :: (_ \<times> ('ty, 'v, 'm) address \<times> 'f actor_state \<times> 'w) option) of
           None \<Rightarrow> len = 0
         | Some (pls, addr, st, w') \<Rightarrow>
             0 < len \<and> map pl_id pls = map of_nat [0..<unat (num c)]
             \<and> (\<forall>k < len. length (filter (\<lambda>p. pl_arbiter p = k) pls) =
                  unat (num c) div len + (if k < unat (num c) mod len then 1 else 0))
             \<and> map_option length (addr_tx_subs addr) = (if allow_broadcast c then Some (length pls) else None)"
proof (cases "len = 0")
  case True
  have "[0..<unat (num c)] \<noteq> []" using assms(2) by (simp add: unat_eq_zero)
  then have "arbiters_loop bounded (actor_state_new c :: 'f actor_state) (num c) len [0..<unat (num c)] [] w = None"
    by (simp add: True arbiters_loop_panics del: upt_eq_Nil_conv)
  with assms(1) True show ?thesis by (simp add: start_with_arbiters_def Let_def)
next
  case False
  then have len: "0 < len" by simp
  let ?st = "actor_state_new c :: 'f actor_state"
  obtain pls senders w' where loop:
      "arbiters_loop bounded ?st (num c) len [0..<unat (num c)] [] w = Some (pls, senders, w')"
    and shape: "map (\<lambda>p. (pl_arbiter p, pl_id p, pl_rx p \<noteq> None)) pls =
      map (\<lambda>i. (i mod len, of_nat i, state_allow_broadcast ?st)) [0..<unat (num c)]"
    and senders: "length senders = (if state_allow_broadcast ?st then unat (num c) else 0)"
    using arbiters_loop_shape [OF len, of bounded ?st "num c" "[0..<unat (num c)]" "[]" w] by auto
  have "map pl_id pls = map of_nat [0..<unat (num c)]"
    using arg_cong [OF shape, of "map (fst \<circ> snd)"] by (simp add: o_def)
  moreover have "length pls = unat (num c)" using arg_cong [OF shape, of length] by simp
  ultimately show ?thesis
    using assms(1) loop len senders filter_arbiter [OF shape] count_mod [of _ len "unat (num c)"]
    by (simp add: start_with_arbiters_def Let_def address_new_def state_allow_broadcast_def
        actor_state_new_def)
qed

text \<open>
  One actor on an arbiter never listens to broadcasts: with broadcasting allowed the address is
  created with an empty group of senders, where \<open>start\<close> creates one of one sender, so a broadcast
  reaches nobody and reports nothing.
\<close>

theorem one_arbiter_broadcast_lost:
  assumes "num c = 1" and "allow_broadcast c" and "(case index of None \<Rightarrow> 0 | Some i \<Rightarrow> i) < len"
    and "join_law join"
  shows "\<exists>pls addr st w'. start_with_arbiters bounded tx c len index w = Some (pls, addr, st, w')
     \<and> map pl_rx pls = [None]
     \<and> fst (address_broadcast E join into mapr addr msg u) = []"
proof -
  have "fst (join [] u) = []" using join_length [OF assms(4), of "[]" u] by simp
  with assms(1-3) show ?thesis
    by (auto simp: start_with_arbiters_def address_broadcast_def address_new_def Let_def
        state_allow_broadcast_def actor_state_new_def)
qed

subsection \<open>The theorems at work\<close>

text \<open>A builder that numbers its actors, and channels that are numbered.\<close>

definition demo_build :: "nat \<Rightarrow> nat \<times> nat" where "demo_build n = (n, n + 1)"

definition demo_bounded :: "(nat, nat, nat) bounded_channel" where
  "demo_bounded cap n = (n, n, n + 1)"

theorem start_actors_witness:
  "map (ctx_id \<circ> fst) (fst (builder_start demo_build demo_bounded 0
      (config_default\<lparr>num := 3, allow_broadcast := True\<rparr>) 0
      :: _ \<times> (nat, nat, nat) address \<times> unit actor_state \<times> _)) = [0, 1, 2]"
proof -
  obtain ctxs addr st w' where run: "(builder_start demo_build demo_bounded 0
      (config_default\<lparr>num := 3, allow_broadcast := True\<rparr>) 0
      :: _ \<times> (nat, nat, nat) address \<times> unit actor_state \<times> _) = (ctxs, addr, st, w')"
    by (metis prod_cases4)
  from start_actors [OF run] show ?thesis unfolding run by (simp add: upt_rec)
qed

theorem arbiters_even_witness:
  "case (start_with_arbiters demo_bounded 0 (config_default\<lparr>num := 5\<rparr>) 2 None 0
      :: (_ \<times> (nat, nat, nat) address \<times> unit actor_state \<times> _) option) of
     None \<Rightarrow> False
   | Some (pls, _) \<Rightarrow> length (filter (\<lambda>p. pl_arbiter p = 0) pls) = 3
       \<and> length (filter (\<lambda>p. pl_arbiter p = 1) pls) = 2"
  using arbiters_even [where c = "config_default\<lparr>num := 5\<rparr>" and bounded = demo_bounded and tx = 0
      and len = 2 and index = None and w = 0]
  by (auto split: option.splits)

theorem one_arbiter_broadcast_lost_witness:
  "\<exists>pls addr st w'. start_with_arbiters demo_bounded 0 (config_default\<lparr>allow_broadcast := True\<rparr>) 1 None 0 =
       Some (pls, addr, st :: unit actor_state, w')
     \<and> fst (address_broadcast demo_env join_in_order id (\<lambda>r. Some (Ok r)) addr 7 0) = []"
  using one_arbiter_broadcast_lost [where c = "config_default\<lparr>allow_broadcast := True\<rparr>"
      and index = None and len = 1 and join = join_in_order and bounded = demo_bounded and tx = 0 and w = 0
      and E = demo_env and into = id and mapr = "\<lambda>r. Some (Ok r)" and msg = 7 and u = 0]
  by (auto simp: config_default_def join_in_order_law)

end
