(* ===== verification/Actor_Streams.thy ===== *)
theory Actor_Streams
  imports Send_Error Messages
begin

section \<open>Streams through an actor (\<open>src/stream.rs\<close>)\<close>

text \<open>
  \<open>ActorStream\<close> sends each item of a stream to the actor and yields the results; \<open>ActorSkipStream\<close>
  does so for a stream of optional items and passes over the \<open>None\<close>s. The source stream is a parameter
  \<open>nxt\<close>, its \<open>poll_next\<close>. The channel and the oneshot channels are code outside \<open>src/\<close>: a record of
  operations on some world \<open>'w\<close>. An item of the result is \<open>M::map\<close> of the reply, which may panic
  (\<open>None\<close>), or an error.
\<close>

record ('w, 'm, 'r, 'f) stream_env =
  se_oneshot :: "'w \<Rightarrow> oneshot \<times> 'w"
  se_try_send :: "('m, 'f) context_message \<Rightarrow> 'w \<Rightarrow> unit send_result \<times> 'w"
  se_poll_rx :: "oneshot \<Rightarrow> 'w \<Rightarrow> (unit + 'r) poll"

datatype stream_state = NextItem | LastItem oneshot

record 's actor_stream =
  stream :: 's
  as_state :: stream_state

definition actor_stream_new :: "'s \<Rightarrow> 's actor_stream" where
  "actor_stream_new s = \<lparr>stream = s, as_state = NextItem\<rparr>"

definition reply_item :: "('r \<Rightarrow> 'o send_result option) \<Rightarrow> unit + 'r \<Rightarrow> 'o send_result option" where
  "reply_item mapr res = (case res of Inr r \<Rightarrow> mapr r | Inl _ \<Rightarrow> Some (Err Canceled))"

text \<open>
  What both streams do with an item: a new oneshot channel, \<open>try_send\<close>, and a first poll of the
  receiver, which is kept if it is not ready.
\<close>

definition stream_send ::
  "('w, 'm, 'r, 'f) stream_env \<Rightarrow> ('r \<Rightarrow> 'o send_result option) \<Rightarrow> 'm \<Rightarrow> 'w
     \<Rightarrow> 'o send_result option option poll \<times> oneshot option \<times> 'w" where
  "stream_send E mapr m w =
     (let (tx, w1) = se_oneshot E w;
          (sent, w2) = se_try_send E (Instant (InstantStatic (Some tx) m)) w1
      in case sent of
           Inl e \<Rightarrow> (Ready (Some (Some (Err e))), None, w2)
         | Inr _ \<Rightarrow>
             (case se_poll_rx E tx w2 of
                Ready res \<Rightarrow> (Ready (Some (reply_item mapr res)), None, w2)
              | Pending \<Rightarrow> (Pending, Some tx, w2)))"

definition actor_stream_poll_next ::
  "('w, 'm, 'r, 'f) stream_env \<Rightarrow> ('s \<Rightarrow> 'i option poll \<times> 's) \<Rightarrow> ('i \<Rightarrow> 'm)
     \<Rightarrow> ('r \<Rightarrow> 'o send_result option) \<Rightarrow> 's actor_stream \<Rightarrow> 'w
     \<Rightarrow> 'o send_result option option poll \<times> 's actor_stream \<times> 'w" where
  "actor_stream_poll_next E nxt into mapr self w =
     (case as_state self of
        NextItem \<Rightarrow>
          (case nxt (stream self) of
             (Ready (Some item), s') \<Rightarrow>
               (case stream_send E mapr (into item) w of
                  (p, None, w') \<Rightarrow> (p, self\<lparr>stream := s'\<rparr>, w')
                | (p, Some rx, w') \<Rightarrow> (p, self\<lparr>stream := s', as_state := LastItem rx\<rparr>, w'))
           | (Pending, s') \<Rightarrow> (Pending, self\<lparr>stream := s'\<rparr>, w)
           | (Ready None, s') \<Rightarrow> (Ready None, self\<lparr>stream := s'\<rparr>, w))
      | LastItem rx \<Rightarrow>
          (case se_poll_rx E rx w of
             Ready res \<Rightarrow> (Ready (Some (reply_item mapr res)), self\<lparr>as_state := NextItem\<rparr>, w)
           | Pending \<Rightarrow> (Pending, self, w)))"

subsection \<open>The skipping stream\<close>

record 's skip_stream =
  sk_stream :: 's
  rx_one :: "oneshot option"

definition skip_stream_new :: "'s \<Rightarrow> 's skip_stream" where
  "skip_stream_new s = \<lparr>sk_stream = s, rx_one = None\<rparr>"

text \<open>The loop ends only when the source is exhausted, not ready, or yields an item: it may run forever.\<close>

partial_function (option) skip_loop ::
  "('w, 'm, 'r, 'f) stream_env \<Rightarrow> ('s \<Rightarrow> 'i option option poll \<times> 's) \<Rightarrow> ('i \<Rightarrow> 'm)
     \<Rightarrow> ('r \<Rightarrow> 'o send_result option) \<Rightarrow> 's skip_stream \<Rightarrow> 'w
     \<Rightarrow> ('o send_result option option poll \<times> 's skip_stream \<times> 'w) option" where
  "skip_loop E nxt into mapr self w =
     (case nxt (sk_stream self) of
        (Pending, s') \<Rightarrow> Some (Pending, self\<lparr>sk_stream := s'\<rparr>, w)
      | (Ready None, s') \<Rightarrow> Some (Ready None, self\<lparr>sk_stream := s'\<rparr>, w)
      | (Ready (Some None), s') \<Rightarrow> skip_loop E nxt into mapr (self\<lparr>sk_stream := s'\<rparr>) w
      | (Ready (Some (Some item)), s') \<Rightarrow>
          Some (case stream_send E mapr (into item) w of
                  (p, None, w') \<Rightarrow> (p, self\<lparr>sk_stream := s'\<rparr>, w')
                | (p, Some rx, w') \<Rightarrow> (p, self\<lparr>sk_stream := s', rx_one := Some rx\<rparr>, w')))"

definition skip_stream_poll_next ::
  "('w, 'm, 'r, 'f) stream_env \<Rightarrow> ('s \<Rightarrow> 'i option option poll \<times> 's) \<Rightarrow> ('i \<Rightarrow> 'm)
     \<Rightarrow> ('r \<Rightarrow> 'o send_result option) \<Rightarrow> 's skip_stream \<Rightarrow> 'w
     \<Rightarrow> ('o send_result option option poll \<times> 's skip_stream \<times> 'w) option" where
  "skip_stream_poll_next E nxt into mapr self w =
     (case rx_one self of
        Some rx \<Rightarrow>
          Some (case se_poll_rx E rx w of
                  Pending \<Rightarrow> (Pending, self, w)
                | Ready res \<Rightarrow> (Ready (Some (reply_item mapr res)), self\<lparr>rx_one := None\<rparr>, w))
      | None \<Rightarrow> skip_loop E nxt into mapr self w)"

declare skip_loop.simps [code]

subsection \<open>Skipping is filtering\<close>

text \<open>
  A source that follows a script: each entry is what one poll finds, and after the last the stream has
  ended.
\<close>

fun script_next :: "'i poll list \<Rightarrow> 'i option poll \<times> 'i poll list" where
  "script_next [] = (Ready None, [])"
| "script_next (p # ps) = (map_poll Some p, ps)"

fun drop_nones :: "'i option poll list \<Rightarrow> 'i poll list" where
  "drop_nones [] = []"
| "drop_nones (Pending # ps) = Pending # drop_nones ps"
| "drop_nones (Ready None # ps) = drop_nones ps"
| "drop_nones (Ready (Some x) # ps) = Ready x # drop_nones ps"

text \<open>The abstraction: the plain stream on the source without its \<open>None\<close>s.\<close>

definition unskip :: "'i option poll list skip_stream \<Rightarrow> 'i poll list actor_stream" where
  "unskip s = \<lparr>stream = drop_nones (sk_stream s),
               as_state = (case rx_one s of None \<Rightarrow> NextItem | Some rx \<Rightarrow> LastItem rx)\<rparr>"

lemma skip_loop_refines:
  assumes "rx_one self = None"
  shows "map_option (\<lambda>(p, s, w). (p, unskip s, w)) (skip_loop E script_next into mapr self w) =
         Some (actor_stream_poll_next E script_next into mapr (unskip self) w)"
  using assms
proof (induction "sk_stream self" arbitrary: self rule: drop_nones.induct)
  case 1
  from 1(1) [symmetric] 1(2) show ?case
    by (subst skip_loop.simps) (simp add: actor_stream_poll_next_def unskip_def)
next
  case (2 ps)
  from 2(2) [symmetric] 2(3) show ?case
    by (subst skip_loop.simps) (simp add: actor_stream_poll_next_def unskip_def)
next
  case (3 ps)
  from 3(2) [symmetric] 3(3) 3(1) [of "self\<lparr>sk_stream := ps\<rparr>"] show ?case
    by (subst skip_loop.simps) (simp add: unskip_def)
next
  case (4 x ps)
  from 4(2) [symmetric] 4(3) show ?case
    by (subst skip_loop.simps)
      (simp add: actor_stream_poll_next_def unskip_def split: prod.split option.split)
qed

text \<open>
  C30. On a source that ends, each poll of the skipping stream returns, and it is the poll of the plain
  stream on the source with the \<open>None\<close>s left out: same result, same messages sent, and the states
  keep corresponding.
\<close>

theorem skip_stream_refines:
  "map_option (\<lambda>(p, s, w). (p, unskip s, w)) (skip_stream_poll_next E script_next into mapr self w) =
     Some (actor_stream_poll_next E script_next into mapr (unskip self) w)"
proof (cases "rx_one self")
  case None
  then show ?thesis by (simp add: skip_stream_poll_next_def skip_loop_refines)
next
  case (Some rx)
  then show ?thesis
    by (simp add: skip_stream_poll_next_def actor_stream_poll_next_def unskip_def split: poll.split)
qed

subsection \<open>One message at a time, results in order\<close>

text \<open>
  An open channel and an actor that answers when it likes: the messages taken so far, the number of
  oneshot channels made, and what was answered on them. A run polls the stream; before each poll the
  actor may answer more of the oneshot channels, and an answer once given stays.
\<close>

record ('m, 'r) answer_world =
  sent :: "'m list"
  made :: nat
  answers :: "oneshot \<rightharpoonup> unit + 'r"

fun static_body :: "('m, 'f) context_message \<Rightarrow> 'm list" where
  "static_body (Instant (InstantStatic _ m)) = [m]"
| "static_body _ = []"

definition answer_env :: "(('m, 'r) answer_world, 'm, 'r, unit) stream_env" where
  "answer_env =
     \<lparr>se_oneshot = (\<lambda>w. (made w, w\<lparr>made := Suc (made w)\<rparr>)),
      se_try_send = (\<lambda>m w. (Ok (), w\<lparr>sent := sent w @ static_body m\<rparr>)),
      se_poll_rx = (\<lambda>tx w. case answers w tx of None \<Rightarrow> Pending | Some r \<Rightarrow> Ready r)\<rparr>"

fun stream_run ::
  "('i \<Rightarrow> 'm) \<Rightarrow> ('r \<Rightarrow> 'o send_result option) \<Rightarrow> (oneshot \<rightharpoonup> unit + 'r) list
     \<Rightarrow> 'i poll list actor_stream \<Rightarrow> ('m, 'r) answer_world
     \<Rightarrow> 'o send_result option list \<times> 'i poll list actor_stream \<times> ('m, 'r) answer_world" where
  "stream_run into mapr [] s w = ([], s, w)"
| "stream_run into mapr (a # as) s w =
     (let (p, s1, w1) = actor_stream_poll_next answer_env script_next into mapr s
                          (w\<lparr>answers := a ++ answers w\<rparr>);
          (outs, s2, w2) = stream_run into mapr as s1 w1
      in ((case p of Ready (Some x) \<Rightarrow> [x] | _ \<Rightarrow> []) @ outs, s2, w2))"

fun script_items :: "'i poll list \<Rightarrow> 'i list" where
  "script_items [] = []"
| "script_items (Pending # ps) = script_items ps"
| "script_items (Ready x # ps) = x # script_items ps"

text \<open>
  The invariant, over the items of the source and what was yielded so far: a result for each answered
  message, in order, and at most one message on its way.
\<close>

definition stream_ok ::
  "('i \<Rightarrow> 'm) \<Rightarrow> ('r \<Rightarrow> 'o send_result option) \<Rightarrow> 'i list \<Rightarrow> 'o send_result option list
     \<Rightarrow> 'i poll list actor_stream \<Rightarrow> ('m, 'r) answer_world \<Rightarrow> bool" where
  "stream_ok into mapr items outs s w \<longleftrightarrow>
     made w = length (sent w) \<and>
     sent w = map into (take (length (sent w)) items) \<and>
     script_items (stream s) = drop (length (sent w)) items \<and>
     map Some outs = map (\<lambda>i. map_option (reply_item mapr) (answers w i)) [0..<length outs] \<and>
     (case as_state s of
        NextItem \<Rightarrow> length (sent w) = length outs
      | LastItem tx \<Rightarrow> tx = length outs \<and> length (sent w) = Suc (length outs))"

lemma stream_ok_new:
  "stream_ok into mapr (script_items ps) [] (actor_stream_new ps) \<lparr>sent = [], made = 0, answers = a\<rparr>"
  by (simp add: stream_ok_def actor_stream_new_def)

lemma stream_ok_answer:
  assumes "stream_ok into mapr items outs s w"
  shows "stream_ok into mapr items outs s (w\<lparr>answers := a ++ answers w\<rparr>)"
proof -
  have "map_option (reply_item mapr) ((a ++ answers w) i) = Some (outs ! i)" if "i < length outs" for i
  proof -
    from assms have "map Some outs ! i =
        map (\<lambda>i. map_option (reply_item mapr) (answers w i)) [0..<length outs] ! i"
      by (simp only: stream_ok_def)
    with that show ?thesis by (auto simp: map_add_def split: option.splits)
  qed
  then have "map Some outs = map (\<lambda>i. map_option (reply_item mapr) ((a ++ answers w) i)) [0..<length outs]"
    by (intro nth_equalityI) (simp_all del: map_option_eq_Some)
  with assms show ?thesis by (simp add: stream_ok_def split: stream_state.splits)
qed

lemma take_drop_Cons:
  assumes "drop n items = x # xs"
  shows "take (Suc n) items = take n items @ [x]" "drop (Suc n) items = xs" "n < length items"
proof -
  show "n < length items" using assms by (cases "n < length items") simp_all
  then have "items ! n = x" using assms by (simp add: Cons_nth_drop_Suc [symmetric])
  with \<open>n < length items\<close> show "take (Suc n) items = take n items @ [x]"
    by (simp add: take_Suc_conv_app_nth)
  show "drop (Suc n) items = xs" using assms by (metis drop_Suc list.sel(3) tl_drop)
qed

lemma stream_ok_poll:
  assumes ok: "stream_ok into mapr items outs s w"
    and poll: "actor_stream_poll_next answer_env script_next into mapr s w = (p, s', w')"
  shows "stream_ok into mapr items (outs @ (case p of Ready (Some x) \<Rightarrow> [x] | _ \<Rightarrow> [])) s' w'"
proof (cases "as_state s")
  case (LastItem tx)
  with ok poll show ?thesis
    by (auto simp: stream_ok_def actor_stream_poll_next_def answer_env_def split: option.splits)
next
  case NextItem
  show ?thesis
  proof (cases "stream s")
    case Nil
    with NextItem ok poll show ?thesis by (auto simp: stream_ok_def actor_stream_poll_next_def)
  next
    case (Cons q ps)
    show ?thesis
    proof (cases q)
      case Pending
      with NextItem Cons ok poll show ?thesis
        by (auto simp: stream_ok_def actor_stream_poll_next_def)
    next
      case (Ready x)
      from ok Cons Ready have "drop (length (sent w)) items = x # script_items ps"
        by (simp add: stream_ok_def)
      note next_item = take_drop_Cons [OF this]
      from ok NextItem have "made w = length outs" "length (sent w) = length outs"
        by (simp_all add: stream_ok_def)
      with NextItem Cons Ready ok poll next_item show ?thesis
        by (auto simp: stream_ok_def actor_stream_poll_next_def stream_send_def answer_env_def Let_def
            split: option.splits)
    qed
  qed
qed

lemma stream_ok_run:
  "stream_ok into mapr items outs s w \<Longrightarrow> stream_run into mapr as s w = (outs', s', w')
    \<Longrightarrow> stream_ok into mapr items (outs @ outs') s' w'"
proof (induction "as" arbitrary: outs s w outs')
  case (Cons a "as")
  obtain p s1 w1 where poll: "actor_stream_poll_next answer_env script_next into mapr s
      (w\<lparr>answers := a ++ answers w\<rparr>) = (p, s1, w1)" by (metis prod_cases3)
  obtain outs2 where rest: "stream_run into mapr as s1 w1 = (outs2, s', w')"
    and outs': "outs' = (case p of Ready (Some x) \<Rightarrow> [x] | _ \<Rightarrow> []) @ outs2"
    using Cons.prems(2) poll by (auto simp: Let_def split: prod.splits)
  from Cons.IH [OF stream_ok_poll [OF stream_ok_answer [OF Cons.prems(1)] poll] rest]
  show ?case by (simp add: outs')
qed simp

text \<open>
  C20. A stream through an actor keeps its order and overlaps nothing: however the actor's answers come
  and the source is ready or not, the messages taken by the channel are the first items of the source,
  the results are those of the first messages in order, and at most one message has been sent whose
  result was not yielded.
\<close>

theorem stream_in_order:
  assumes "stream_run into mapr as (actor_stream_new ps) \<lparr>sent = [], made = 0, answers = Map.empty\<rparr>
             = (outs, s', w')"
  shows "map Some outs = map (\<lambda>i. map_option (reply_item mapr) (answers w' i)) [0..<length outs]
     \<and> sent w' = map into (take (length (sent w')) (script_items ps))
     \<and> length (sent w') \<in> {length outs, Suc (length outs)}"
  using stream_ok_run [OF stream_ok_new assms] unfolding stream_ok_def
  by (auto split: stream_state.splits)

text \<open>
  When the actor has answered by the time each message is sent, polling once for each step of the
  source yields a result for every item.
\<close>

theorem stream_delivers_all:
  fixes a :: "oneshot \<rightharpoonup> unit + 'r" and into :: "'i \<Rightarrow> 'm"
  assumes "\<forall>i. a i \<noteq> None"
  shows "fst (stream_run into mapr (replicate (length ps) a) (actor_stream_new ps)
           \<lparr>sent = [], made = 0, answers = Map.empty\<rparr>)
         = map (\<lambda>i. reply_item mapr (the (a i))) [0..<length (script_items ps)]"
proof -
  have over: "(a ++ b) = (\<lambda>i. if b i = None then a i else b i)" for b
    by (auto simp: map_add_def split: option.splits)
  have main: "fst (stream_run into mapr (replicate (length ps) a) \<lparr>stream = ps, as_state = NextItem\<rparr> w)
      = map (\<lambda>i. reply_item mapr (the (a i))) [made w..<made w + length (script_items ps)]"
    if "\<forall>i. answers w i = None \<or> answers w i = a i" for w :: "('m, 'r) answer_world"
    using that
  proof (induction ps arbitrary: w)
    case (Cons q ps)
    have aa: "a ++ answers w = a"
    proof
      fix i
      from Cons.prems have "answers w i = None \<or> answers w i = a i" ..
      then show "(a ++ answers w) i = a i" by (auto simp: over)
    qed
    show ?case
    proof (cases q)
      case Pending
      with Cons.IH [of "w\<lparr>answers := a\<rparr>"] aa show ?thesis
        by (simp add: actor_stream_poll_next_def split_def)
    next
      case (Ready x)
      obtain r where "a (made w) = Some r" using assms by (meson not_None_eq)
      with Ready Cons.IH [of "w\<lparr>answers := a, made := Suc (made w), sent := sent w @ [into x]\<rparr>"] aa
      show ?thesis
        by (simp add: actor_stream_poll_next_def stream_send_def answer_env_def Let_def split_def
            upt_conv_Cons del: upt_Suc)
    qed
  qed simp
  from main [of "\<lparr>sent = [], made = 0, answers = Map.empty\<rparr>"] show ?thesis
    by (simp add: actor_stream_new_def)
qed

subsection \<open>The theorems at work\<close>

theorem stream_in_order_witness:
  "\<exists>outs s' w'. stream_run id (\<lambda>r. Some (Ok r)) [Map.empty, [0 \<mapsto> Ok 5], Map.empty]
     (actor_stream_new [Ready 1, Ready (2 :: nat)]) \<lparr>sent = [], made = 0, answers = Map.empty\<rparr>
       = (outs, s', w')
     \<and> outs = [Some (Ok (5 :: nat))] \<and> sent w' = [1, 2]
     \<and> length (sent w') \<in> {length outs, Suc (length outs)}"
proof -
  obtain outs s' w' where run: "stream_run id (\<lambda>r. Some (Ok r)) [Map.empty, [0 \<mapsto> Ok (5 :: nat)], Map.empty]
     (actor_stream_new [Ready 1, Ready (2 :: nat)]) \<lparr>sent = [], made = 0, answers = Map.empty\<rparr>
       = (outs, s', w')" by (metis prod_cases3)
  then have "outs = [Some (Ok 5)]" "sent w' = [1, 2]"
    by (auto simp: actor_stream_new_def actor_stream_poll_next_def stream_send_def answer_env_def
        reply_item_def)
  with stream_in_order [OF run] run show ?thesis by blast
qed

theorem stream_delivers_all_witness:
  "fst (stream_run id (\<lambda>r. Some (Ok r)) (replicate 3 (\<lambda>i. Some (Ok (i + 10))))
     (actor_stream_new [Ready (1 :: nat), Pending, Ready 2]) \<lparr>sent = [], made = 0, answers = Map.empty\<rparr>)
   = [Some (Ok (10 :: nat)), Some (Ok 11)]"
proof -
  have "\<forall>i. (Some (Ok (i + 10)) :: (unit + nat) option) \<noteq> None" by simp
  from stream_delivers_all [OF this, of id "\<lambda>r. Some (Ok r)" "[Ready (1 :: nat), Pending, Ready 2]"]
  show ?thesis by (simp add: reply_item_def upt_rec numeral_3_eq_3 del: stream_run.simps replicate_Suc)
qed

end
