(* ===== verification/Step_Systems.thy ===== *)
theory Step_Systems
  imports Prelude
begin

section \<open>Runs of step relations\<close>

text \<open>
  Several components are step relations with labels. A run carries the list of its labels, oldest
  first. The two locales are the contracts the components' proofs meet: a predicate of the labels so
  far and the state that every step keeps, and a measure that every step of some kind lowers.
\<close>

inductive run :: "('s \<Rightarrow> 'l \<Rightarrow> 's \<Rightarrow> bool) \<Rightarrow> 's \<Rightarrow> 'l list \<Rightarrow> 's \<Rightarrow> bool" for step where
  RunNil: "run step s [] s"
| RunStep: "run step s tr s' \<Longrightarrow> step s' l s'' \<Longrightarrow> run step s (tr @ [l]) s''"

inductive_simps run_Nil [simp]: "run step s [] s'"
inductive_simps run_snoc: "run step s (tr @ [l]) s'"

lemma run_one: "step s l s' \<Longrightarrow> run step s [l] s'"
  using RunStep [of step s "[]" s l s'] RunNil by simp

lemma run_two: "step s l s' \<Longrightarrow> step s' l' s'' \<Longrightarrow> run step s [l, l'] s''"
  using RunStep [of step s "[l]" s' l' s''] run_one [of step s l s'] by simp

lemma run_append: "run step s' tr' s'' \<Longrightarrow> run step s tr s' \<Longrightarrow> run step s (tr @ tr') s''"
proof (induction rule: run.induct)
  case (RunStep s0 tr' s1 l s2)
  then show ?case using run.RunStep [of step s "tr @ tr'" s1 l s2] by simp
qed simp

locale trace_invariant =
  fixes step :: "'s \<Rightarrow> 'l \<Rightarrow> 's \<Rightarrow> bool"
    and holds :: "'l list \<Rightarrow> 's \<Rightarrow> bool"
  assumes step_keeps: "step s l s' \<Longrightarrow> holds tr s \<Longrightarrow> holds (tr @ [l]) s'"
begin

lemma run_keeps: "run step s tr s' \<Longrightarrow> holds tr0 s \<Longrightarrow> holds (tr0 @ tr) s'"
proof (induction rule: run.induct)
  case (RunStep s tr s' l s'')
  then show ?case using step_keeps [of s' l s'' "tr0 @ tr"] by simp
qed simp

lemma run_from: "run step s tr s' \<Longrightarrow> holds [] s \<Longrightarrow> holds tr s'"
  using run_keeps [of s tr s' "[]"] by simp

end

locale draining =
  fixes step :: "'s \<Rightarrow> 'l \<Rightarrow> 's \<Rightarrow> bool"
    and size_of :: "'s \<Rightarrow> nat"
    and good :: "'s \<Rightarrow> bool"
  assumes lowers: "good s \<Longrightarrow> step s l s' \<Longrightarrow> size_of s' < size_of s"
    and stays_good: "good s \<Longrightarrow> step s l s' \<Longrightarrow> good s'"
begin

lemma run_good: "run step s tr s' \<Longrightarrow> good s \<Longrightarrow> good s'"
  by (induction rule: run.induct) (auto dest: stays_good)

lemma run_length: "run step s tr s' \<Longrightarrow> good s \<Longrightarrow> length tr + size_of s' \<le> size_of s"
proof (induction rule: run.induct)
  case (RunStep s tr s' l s'')
  then show ?case using lowers [of s' l s''] run_good [OF RunStep.hyps(1)] by simp
qed simp

text \<open>So some run cannot be continued.\<close>

lemma run_to_end: "good s \<Longrightarrow> \<exists>tr s'. run step s tr s' \<and> good s' \<and> (\<forall>l s''. \<not> step s' l s'')"
proof (induction "size_of s" arbitrary: s rule: less_induct)
  case less
  show ?case
  proof (cases "\<exists>l s1. step s l s1")
    case True
    then obtain l s1 where st: "step s l s1" by blast
    with less.hyps [of s1] lowers stays_good less.prems obtain tr s' where
      stop: "run step s1 tr s'" "good s'" "\<forall>l s''. \<not> step s' l s''" by blast
    from run_append [OF stop(1) run_one [of step, OF st]] stop(2,3) show ?thesis by blast
  next
    case False
    with less.prems show ?thesis by (intro exI [of _ "[]"] exI [of _ s]) simp
  qed
qed

end

end
