(* ===== verification/Actor_Set.thy ===== *)
theory Actor_Set
  imports Spawn_Loop Actor_Builder Step_Systems
begin

section \<open>Several actors on one channel\<close>

text \<open>
  All actors an address was started with take from the same channel and share one \<open>ActorState\<close>. Their
  tasks run at the same time; what they do is interleaved in any order. An actor's task moves between
  its starts, its receives, the handling of a message, and its end, each as \<open>Spawn_Loop\<close> and
  \<open>Actor_Context\<close> have it. While one actor handles a message the others go on.

  The channel is async-channel's: each message goes to one receiver, in the order sent. Sending fails
  when every receiver has gone, receiving when every sender has gone and the channel is empty. An actor
  that was started with broadcasting selects over its own bounded channel as well.
\<close>

subsection \<open>The actors and their moves\<close>

datatype ('m, 'f) phase =
  Idle
| Receiving
| Handling "('m, 'f) context_message"
| Exiting
| Stopped
| Dead

record ('a, 'm, 'f) member =
  mb_ctx :: "'a actor_context"
  mb_phase :: "('m, 'f) phase"
  mb_own :: "('m, 'f) context_message list"

record ('a, 'm, 'f, 'wk) pool =
  members :: "('a, 'm, 'f) member list"
  pl_queue :: "('m, 'f) context_message list"
  pl_shared :: "('f, 'wk) shared"
  pl_cap :: nat
  pl_group :: bool

text \<open>What happens in a step; numbers are positions in the list of actors.\<close>

datatype ('m, 'r, 'f, 'ty, 'v, 'wk) event =
  Sent "('m, 'f) context_message"
| SentOwn nat "('m, 'f) context_message"
| Senders nat bool
| Started nat
| Took nat "('m, 'f) context_message"
| TookOwn nat "('m, 'f) context_message"
| Handled nat "('m, 'f) context_message" bool "('m, 'r, 'f, 'ty, 'v, 'wk) ctx_effect list"
| PanickedOn nat "('m, 'f) context_message"
| SawClosed nat
| Left nat bool

text \<open>A task that has not ended still holds its receivers.\<close>

fun has_receiver :: "('a, 'm, 'f) member \<Rightarrow> bool" where
  "has_receiver mb \<longleftrightarrow> mb_phase mb \<notin> {Stopped, Dead}"

abbreviation at_phase :: "('a, 'm, 'f, 'wk) pool \<Rightarrow> nat \<Rightarrow> ('m, 'f) phase \<Rightarrow> bool" where
  "at_phase s i ph \<equiv> i < length (members s) \<and> mb_phase (members s ! i) = ph"

definition put :: "nat \<Rightarrow> ('a, 'm, 'f) member \<Rightarrow> ('a, 'm, 'f, 'wk) pool \<Rightarrow> ('a, 'm, 'f, 'wk) pool" where
  "put i mb s = s\<lparr>members := (members s)[i := mb]\<rparr>"

text \<open>\<open>Senders\<close> is the environment's: addresses, streams and tasks clone and drop senders.\<close>

inductive pool_step ::
  "('a, 'm, 'r, 'f, 'ty, 'v) actor_impl \<Rightarrow> (oneshot \<Rightarrow> bool) \<Rightarrow> ('a, 'm, 'f, 'wk) pool
     \<Rightarrow> ('m, 'r, 'f, 'ty, 'v, 'wk) event \<Rightarrow> ('a, 'm, 'f, 'wk) pool \<Rightarrow> bool"
  for impl open_rx where
  PSend: "0 < tx_strong (pl_shared s) \<Longrightarrow> \<exists>mb \<in> set (members s). has_receiver mb \<Longrightarrow>
    pool_step impl open_rx s (Sent m) (s\<lparr>pl_queue := pl_queue s @ [m]\<rparr>)"
| PSendOwn: "pl_group s \<Longrightarrow> i < length (members s) \<Longrightarrow> has_receiver (members s ! i) \<Longrightarrow>
    selecting (mb_ctx (members s ! i)) \<Longrightarrow> length (mb_own (members s ! i)) < pl_cap s \<Longrightarrow>
    pool_step impl open_rx s (SentOwn i m)
      (put i ((members s ! i)\<lparr>mb_own := mb_own (members s ! i) @ [m]\<rparr>) s)"
| PSenders: "0 < tx_strong (pl_shared s) \<or> n = 0 \<Longrightarrow> pl_group s \<or> \<not> g \<Longrightarrow>
    pool_step impl open_rx s (Senders n g)
      (s\<lparr>pl_shared := (pl_shared s)\<lparr>tx_strong := n\<rparr>, pl_group := g\<rparr>)"
| PStart: "at_phase s i Idle \<Longrightarrow> context_start impl (pl_shared s) (mb_ctx (members s ! i)) = (sh, c) \<Longrightarrow>
    pool_step impl open_rx s (Started i)
      (put i ((members s ! i)\<lparr>mb_ctx := c, mb_phase := Receiving\<rparr>) (s\<lparr>pl_shared := sh\<rparr>))"
| PTake: "at_phase s i Receiving \<Longrightarrow> pl_queue s = m # ms \<Longrightarrow>
    pool_step impl open_rx s (Took i m)
      (put i ((members s ! i)\<lparr>mb_phase := Handling m\<rparr>) (s\<lparr>pl_queue := ms\<rparr>))"
| PTakeOwn: "at_phase s i Receiving \<Longrightarrow> mb_own (members s ! i) = m # ms \<Longrightarrow>
    pool_step impl open_rx s (TookOwn i m)
      (put i ((members s ! i)\<lparr>mb_phase := Handling m, mb_own := ms\<rparr>) s)"
| PHandle: "at_phase s i (Handling m) \<Longrightarrow>
    handle_msg impl open_rx m (pl_shared s) (mb_ctx (members s ! i)) = (sh, Some (brk, c, es)) \<Longrightarrow>
    pool_step impl open_rx s (Handled i m brk es)
      (put i ((members s ! i)\<lparr>mb_ctx := c, mb_phase := (if brk then Exiting else Receiving)\<rparr>)
        (s\<lparr>pl_shared := sh\<rparr>))"
| PPanic: "at_phase s i (Handling m) \<Longrightarrow>
    handle_msg impl open_rx m (pl_shared s) (mb_ctx (members s ! i)) = (sh, None) \<Longrightarrow>
    pool_step impl open_rx s (PanickedOn i m)
      (put i ((members s ! i)\<lparr>mb_phase := Dead\<rparr>) (s\<lparr>pl_shared := sh\<rparr>))"
| PClosed: "at_phase s i Receiving \<Longrightarrow> tx_strong (pl_shared s) = 0 \<Longrightarrow> pl_queue s = [] \<Longrightarrow>
    selecting (mb_ctx (members s ! i)) \<longrightarrow> mb_own (members s ! i) = [] \<and> \<not> pl_group s \<Longrightarrow>
    pool_step impl open_rx s (SawClosed i)
      (put i ((members s ! i)\<lparr>mb_phase := Exiting\<rparr>) s)"
| PLeave: "at_phase s i Exiting \<Longrightarrow>
    context_exit impl (pl_shared s) (mb_ctx (members s ! i)) = (again, sh, c) \<Longrightarrow>
    pool_step impl open_rx s (Left i again)
      (put i ((members s ! i)\<lparr>mb_ctx := c, mb_phase := (if again then Idle else Stopped)\<rparr>)
        (s\<lparr>pl_shared := sh\<rparr>))"

text \<open>The pool right after \<open>Builder::start\<close>: every task spawned, one sender, nothing sent.\<close>

definition pool_new ::
  "('a actor_context \<times> 'rx option) list \<Rightarrow> 'f actor_state \<Rightarrow> ('a, 'm, 'f, 'wk) pool" where
  "pool_new ctxs st =
     \<lparr>members = map (\<lambda>(c, brx). \<lparr>mb_ctx = c, mb_phase = Idle, mb_own = []\<rparr>) ctxs, pl_queue = [],
      pl_shared = \<lparr>state = st, cells = [], tx_strong = sender_from\<rparr>,
      pl_cap = unat (num (state_config st)), pl_group = state_allow_broadcast st\<rparr>"

lemma put_simps [simp]:
  "members (put i mb s) = (members s)[i := mb]" "pl_queue (put i mb s) = pl_queue s"
  "pl_shared (put i mb s) = pl_shared s" "pl_cap (put i mb s) = pl_cap s" "pl_group (put i mb s) = pl_group s"
  by (simp_all add: put_def)

subsection \<open>Counting the actors\<close>

fun counted :: "('a, 'm, 'f) member \<Rightarrow> bool" where
  "counted mb \<longleftrightarrow> mb_phase mb \<notin> {Idle, Stopped}"

definition active_members :: "('a, 'm, 'f, 'wk) pool \<Rightarrow> nat" where
  "active_members s = length (filter counted (members s))"

lemma length_filter_update:
  "i < length xs \<Longrightarrow>
     length (filter P (xs[i := y])) + (if P (xs ! i) then 1 else 0) = length (filter P xs) + (if P y then 1 else 0)"
proof (induction xs arbitrary: i)
  case (Cons x xs)
  then show ?case by (cases i) auto
qed simp

lemma active_members_frame [simp]:
  "active_members (s\<lparr>pl_shared := sh\<rparr>) = active_members s"
  "active_members (s\<lparr>pl_queue := q\<rparr>) = active_members s"
  "active_members (s\<lparr>pl_group := g\<rparr>) = active_members s"
  by (simp_all add: active_members_def)

lemma active_members_put:
  assumes "i < length (members s)"
  shows "counted (members s ! i) = counted mb \<Longrightarrow> active_members (put i mb s) = active_members s"
    and "\<not> counted (members s ! i) \<Longrightarrow> counted mb \<Longrightarrow> active_members (put i mb s) = Suc (active_members s)"
    and "counted (members s ! i) \<Longrightarrow> \<not> counted mb \<Longrightarrow> Suc (active_members (put i mb s)) = active_members s"
  using length_filter_update [OF assms, of counted mb]
  by (auto simp: active_members_def simp del: counted.simps)

definition counts_ok :: "nat \<Rightarrow> ('m, 'r, 'f, 'ty, 'v, 'wk) event list \<Rightarrow> ('a, 'm, 'f, 'wk) pool \<Rightarrow> bool" where
  "counts_ok n tr s \<longleftrightarrow>
     length (members s) = n \<and> active (state (pl_shared s)) = 2 * of_nat (active_members s)"

lemma counts_ok_step:
  assumes "pool_step impl open_rx s l s'" "counts_ok n tr s"
  shows "counts_ok n (tr @ [l]) s'"
  using assms
proof (cases rule: pool_step.cases)
  case (PStart i sh c)
  with assms(2) show ?thesis
    by (auto simp: counts_ok_def is_running_iff_even UNIT_eq active_members_put algebra_simps)
next
  case (PHandle i m sh brk c es)
  with assms(2) handle_msg_frame(1) [OF PHandle(4)] show ?thesis
    by (auto simp: counts_ok_def active_members_put)
next
  case (PPanic i m sh)
  with assms(2) handle_msg_frame(1) [OF PPanic(4)] show ?thesis
    by (auto simp: counts_ok_def active_members_put)
next
  case (PLeave i again sh c)
  have "state sh = snd (dec_active (state (pl_shared s)))"
    using context_exit_state [of impl "pl_shared s" "mb_ctx (members s ! i)"] PLeave(4) by simp
  moreover have "active_members s = Suc (active_members (put i ((members s ! i)
      \<lparr>mb_ctx := c, mb_phase := (if again then Idle else Stopped)\<rparr>) (s\<lparr>pl_shared := sh\<rparr>)))"
    using PLeave(3) active_members_put(3) [of i "s\<lparr>pl_shared := sh\<rparr>"] by auto
  ultimately show ?thesis
    using assms(2) PLeave
    by (auto simp: counts_ok_def is_running_iff_even UNIT_eq algebra_simps)
qed (auto simp: counts_ok_def active_members_put)

interpretation counting: trace_invariant "pool_step impl open_rx" "counts_ok n" for impl open_rx n
  by unfold_locales (rule counts_ok_step)

lemma builder_start_length:
  assumes "builder_start build bounded tx cfg w = (ctxs, addr, st, w')"
  shows "length ctxs = unat (num cfg)" "st = actor_state_new cfg"
proof -
  obtain cs senders w1 where run:
      "start_loop build bounded (actor_state_new cfg :: 'f actor_state) (num cfg) [0..<unat (num cfg)] [] w = (cs, senders, w1)"
    by (rule prod_cases3)
  with assms show "st = actor_state_new cfg" by (simp add: builder_start_loop Let_def)
  from assms run have "cs = ctxs" by (simp add: builder_start_loop Let_def)
  with arg_cong [OF conjunct1 [OF start_loop_shape [OF run]], of length] show "length ctxs = unat (num cfg)"
    by simp
qed

lemma unat_double: "k < 2 ^ 63 \<Longrightarrow> unat (drop_bit 1 (2 * of_nat k :: usize)) = k"
proof -
  assume k: "k < 2 ^ 63"
  have "(2 * of_nat k :: usize) = of_nat (2 * k)" by simp
  with k unat_of_nat_usize [of "2 * k"] show ?thesis
    by (simp add: drop_bit_eq_div unat_div del: of_nat_mult)
qed

lemma active_members_new: "active_members (pool_new ctxs st) = 0"
  by (auto simp: active_members_def pool_new_def filter_empty_conv simp del: filter_map)

lemma pool_counted:
  fixes s :: "('a, 'm, 'f, 'wk) pool"
  assumes "builder_start build bounded tx cfg w = (ctxs, addr, st, w')" and "unat (num cfg) < 2 ^ 63"
    and "run (pool_step impl open_rx) (pool_new ctxs st) tr s"
  shows "is_running (state (pl_shared s))
     \<and> unat (current_active (state (pl_shared s)))
         = length (filter (\<lambda>mb. mb_phase mb \<notin> {Idle, Stopped}) (members s))
     \<and> length (members s) = unat (num cfg)"
proof -
  have "counts_ok (unat (num cfg)) [] (pool_new ctxs st :: ('a, 'm, 'f, 'wk) pool)"
    using builder_start_length [OF assms(1)]
    by (simp add: counts_ok_def active_members_new) (simp add: pool_new_def actor_state_new_def)
  from counting.run_from [OF assms(3) this]
  have len: "length (members s) = unat (num cfg)"
    and act: "active (state (pl_shared s)) = 2 * of_nat (active_members s)"
    by (simp_all add: counts_ok_def)
  have "active_members s \<le> length (members s)" by (simp add: active_members_def)
  with len assms(2) have "active_members s < 2 ^ 63" by simp
  then have "unat (current_active (state (pl_shared s))) = active_members s"
    using unat_double by (simp only: current_active_def act)
  moreover have "counted = (\<lambda>mb :: ('a, 'm, 'f) member. mb_phase mb \<notin> {Idle, Stopped})"
    by (simp add: fun_eq_iff)
  ultimately show ?thesis
    by (simp add: len is_running_iff_even act active_members_def del: counted.simps)
qed

text \<open>
  C15. \<open>current_active\<close> is right for any number of actors, in every interleaving of their tasks: it is the
  number of actors between their start and their end. An actor that panicked is among them for good,
  since its task never gets to \<open>dec_active\<close>.
\<close>

theorem pool_counts:
  fixes s :: "('a, 'm, 'f, 'wk) pool"
  assumes "builder_start build bounded tx cfg w = (ctxs, addr, st, w')" and "unat (num cfg) < 2 ^ 63"
    and "run (pool_step impl open_rx) (pool_new ctxs st) tr s"
  shows "is_running (state (pl_shared s))
     \<and> unat (current_active (state (pl_shared s)))
         = length (filter (\<lambda>mb. mb_phase mb \<notin> {Idle, Stopped}) (members s))
     \<and> length (members s) = unat (num cfg)"
  by (rule pool_counted [OF assms])

subsection \<open>Every message goes to one actor\<close>

text \<open>
  What a run's labels say: the messages sent and taken, and for one actor those it received and handled,
  from the shared channel or its own.
\<close>

fun sent :: "('m, 'r, 'f, 'ty, 'v, 'wk) event list \<Rightarrow> ('m, 'f) context_message list" where
  "sent [] = []"
| "sent (Sent m # tr) = m # sent tr"
| "sent (_ # tr) = sent tr"

fun taken :: "('m, 'r, 'f, 'ty, 'v, 'wk) event list \<Rightarrow> (nat \<times> ('m, 'f) context_message) list" where
  "taken [] = []"
| "taken (Took i m # tr) = (i, m) # taken tr"
| "taken (_ # tr) = taken tr"

fun sent_own :: "nat \<Rightarrow> ('m, 'r, 'f, 'ty, 'v, 'wk) event list \<Rightarrow> ('m, 'f) context_message list" where
  "sent_own i [] = []"
| "sent_own i (SentOwn j m # tr) = (if j = i then m # sent_own i tr else sent_own i tr)"
| "sent_own i (_ # tr) = sent_own i tr"

fun taken_own :: "nat \<Rightarrow> ('m, 'r, 'f, 'ty, 'v, 'wk) event list \<Rightarrow> ('m, 'f) context_message list" where
  "taken_own i [] = []"
| "taken_own i (TookOwn j m # tr) = (if j = i then m # taken_own i tr else taken_own i tr)"
| "taken_own i (_ # tr) = taken_own i tr"

fun received :: "nat \<Rightarrow> ('m, 'r, 'f, 'ty, 'v, 'wk) event list \<Rightarrow> ('m, 'f) context_message list" where
  "received i [] = []"
| "received i (Took j m # tr) = (if j = i then m # received i tr else received i tr)"
| "received i (TookOwn j m # tr) = (if j = i then m # received i tr else received i tr)"
| "received i (_ # tr) = received i tr"

fun handled :: "nat \<Rightarrow> ('m, 'r, 'f, 'ty, 'v, 'wk) event list \<Rightarrow> ('m, 'f) context_message list" where
  "handled i [] = []"
| "handled i (Handled j m _ _ # tr) = (if j = i then m # handled i tr else handled i tr)"
| "handled i (PanickedOn j m # tr) = (if j = i then m # handled i tr else handled i tr)"
| "handled i (_ # tr) = handled i tr"

fun effects_of ::
  "nat \<Rightarrow> ('m, 'r, 'f, 'ty, 'v, 'wk) event list \<Rightarrow> ('m, 'r, 'f, 'ty, 'v, 'wk) ctx_effect list" where
  "effects_of i [] = []"
| "effects_of i (Handled j _ _ es # tr) = (if j = i then es @ effects_of i tr else effects_of i tr)"
| "effects_of i (_ # tr) = effects_of i tr"

lemma trace_append [simp]:
  "sent (tr @ tr') = sent tr @ sent tr'" "taken (tr @ tr') = taken tr @ taken tr'"
  "sent_own i (tr @ tr') = sent_own i tr @ sent_own i tr'"
  "taken_own i (tr @ tr') = taken_own i tr @ taken_own i tr'"
  "received i (tr @ tr') = received i tr @ received i tr'"
  "handled i (tr @ tr') = handled i tr @ handled i tr'"
  "effects_of i (tr @ tr') = effects_of i tr @ effects_of i tr'"
proof -
  have "sent (tr @ tr') = sent tr @ sent tr' \<and> taken (tr @ tr') = taken tr @ taken tr'
      \<and> sent_own i (tr @ tr') = sent_own i tr @ sent_own i tr'
      \<and> taken_own i (tr @ tr') = taken_own i tr @ taken_own i tr'
      \<and> received i (tr @ tr') = received i tr @ received i tr'
      \<and> handled i (tr @ tr') = handled i tr @ handled i tr'
      \<and> effects_of i (tr @ tr') = effects_of i tr @ effects_of i tr'"
  proof (induction tr)
    case (Cons e tr)
    then show ?case by (cases e) simp_all
  qed simp
  then show "sent (tr @ tr') = sent tr @ sent tr'" "taken (tr @ tr') = taken tr @ taken tr'"
    "sent_own i (tr @ tr') = sent_own i tr @ sent_own i tr'"
    "taken_own i (tr @ tr') = taken_own i tr @ taken_own i tr'"
    "received i (tr @ tr') = received i tr @ received i tr'"
    "handled i (tr @ tr') = handled i tr @ handled i tr'"
    "effects_of i (tr @ tr') = effects_of i tr @ effects_of i tr'" by blast+
qed

fun in_hand :: "('m, 'f) phase \<Rightarrow> ('m, 'f) context_message list" where
  "in_hand (Handling m) = [m]"
| "in_hand _ = []"

definition queues_ok :: "nat \<Rightarrow> ('m, 'r, 'f, 'ty, 'v, 'wk) event list \<Rightarrow> ('a, 'm, 'f, 'wk) pool \<Rightarrow> bool" where
  "queues_ok n tr s \<longleftrightarrow>
     length (members s) = n \<and> sent tr = map snd (taken tr) @ pl_queue s \<and>
     (\<forall>i < n. received i tr = handled i tr @ in_hand (mb_phase (members s ! i))
        \<and> sent_own i tr = taken_own i tr @ mb_own (members s ! i))"

lemma queues_ok_step:
  assumes "pool_step impl open_rx s l s'" "queues_ok n tr s"
  shows "queues_ok n (tr @ [l]) s'"
  using assms by (cases rule: pool_step.cases) (auto simp: queues_ok_def nth_list_update)

interpretation queueing: trace_invariant "pool_step impl open_rx" "queues_ok n" for impl open_rx n
  by unfold_locales (rule queues_ok_step)

lemma queues_ok_new: "queues_ok (length ctxs) [] (pool_new ctxs st)"
  by (auto simp: queues_ok_def pool_new_def split: prod.splits)


subsection \<open>The shared state stays well formed\<close>

fun panics_on :: "('m, 'r, 'f, 'ty, 'v, 'wk) event \<Rightarrow> bool" where
  "panics_on (PanickedOn _ _) \<longleftrightarrow> True"
| "panics_on _ \<longleftrightarrow> False"

definition pool_shared_ok ::
  "config \<Rightarrow> ('m, 'r, 'f, 'ty, 'v, 'wk) event list \<Rightarrow> ('a, 'm, 'f, 'wk) pool \<Rightarrow> bool" where
  "pool_shared_ok cfg tr s \<longleftrightarrow>
     state_config (state (pl_shared s)) = cfg \<and> (filter panics_on tr = [] \<longrightarrow> shared_ok (pl_shared s))"

lemma shared_ok_frame [simp]:
  "shared_ok (sh\<lparr>tx_strong := n\<rparr>) = shared_ok sh"
  "shared_ok (sh\<lparr>state := snd (inc_active (state sh))\<rparr>) = shared_ok sh"
  "shared_ok (sh\<lparr>state := snd (dec_active (state sh))\<rparr>) = shared_ok sh"
  by (simp_all add: shared_ok_def inc_active_def dec_active_def modify_active_eq)

lemma context_exit_shared:
  "context_exit impl sh c = (again, sh', c') \<Longrightarrow> sh' = sh\<lparr>state := snd (dec_active (state sh))\<rparr>"
  by (auto simp: context_exit_def Let_def split_def split: if_splits)

lemma pool_shared_ok_step:
  assumes "pool_step impl open_rx s l s'" "pool_shared_ok cfg tr s"
  shows "pool_shared_ok cfg (tr @ [l]) s'"
  using assms(1)
proof (cases rule: pool_step.cases)
  case (PHandle i m sh brk c es)
  with assms(2) handle_msg_frame(2) [OF PHandle(4)] handle_msg_keeps_shared_ok [OF _ PHandle(4)]
  show ?thesis by (auto simp: pool_shared_ok_def)
next
  case (PPanic i m sh)
  with assms(2) handle_msg_frame(2) [OF PPanic(4)] show ?thesis by (auto simp: pool_shared_ok_def)
next
  case (PLeave i again sh c)
  with assms(2) context_exit_shared [OF PLeave(4)] show ?thesis by (auto simp: pool_shared_ok_def)
qed (use assms(2) in \<open>auto simp: pool_shared_ok_def\<close>)

interpretation sharing: trace_invariant "pool_step impl open_rx" "pool_shared_ok cfg" for impl open_rx cfg
  by unfold_locales (rule pool_shared_ok_step)

text \<open>
  What the actors share stays well formed. In every interleaving of any messages the settings are those
  given to the builder, every handler kept for shutdown points at the cell of a task that was
  spawned, and every registered interval closure has a key the counter issued, so that no two
  registrations of different actors share a key; a panic in the registry alone can break it.
\<close>

theorem pool_keeps_shared_ok:
  assumes "builder_start build bounded tx cfg w = (ctxs, addr, st, w')"
    and "run (pool_step impl open_rx) (pool_new ctxs st) tr s"
  shows "state_config (state (pl_shared s)) = cfg \<and>
     ((\<forall>i m. PanickedOn i m \<notin> set tr) \<longrightarrow>
        (\<forall>h \<in> set (handlers (state (pl_shared s))). fh_cell h < length (cells (pl_shared s))) \<and>
        keys_issued (interval_futures (state (pl_shared s))))"
proof -
  have "pool_shared_ok cfg [] (pool_new ctxs st)"
    using builder_start_length(2) [OF assms(1)]
    by (simp add: pool_shared_ok_def pool_new_def actor_state_new_def shared_ok_def keys_issued_default)
  from sharing.run_from [OF assms(2) this]
  have "state_config (state (pl_shared s)) = cfg" "filter panics_on tr = [] \<longrightarrow> shared_ok (pl_shared s)"
    by (simp_all add: pool_shared_ok_def)
  moreover have "filter panics_on tr = []" if "\<forall>i m. PanickedOn i m \<notin> set tr"
    using that by (auto simp: filter_empty_conv elim!: panics_on.elims)
  ultimately show ?thesis by (auto simp: shared_ok_def)
qed

end
