(* ===== verification/Actor_Set_Serve.thy ===== *)
theory Actor_Set_Serve
  imports Actor_Set
begin

section \<open>What several actors on one channel do together\<close>

text \<open>
  Over the steps of \<open>Actor_Set\<close>: each actor is a sequential server of the messages it took, the queue
  is worked off in a bounded number of steps, and a request to close stops one actor.
\<close>

subsection \<open>Each actor is a sequential server\<close>

fun static_msg :: "oneshot option \<times> 'm \<Rightarrow> ('m, 'f) context_message" where
  "static_msg (tx, m) = Instant (InstantStatic tx m)"

definition is_static :: "('m, 'f) context_message \<Rightarrow> bool" where
  "is_static m \<longleftrightarrow> (\<exists>x. m = static_msg x)"

text \<open>Runs in which only messages for the actors' handlers are sent and the channel is not closed.\<close>

fun static_event :: "('m, 'r, 'f, 'ty, 'v, 'wk) event \<Rightarrow> bool" where
  "static_event (Sent m) \<longleftrightarrow> is_static m"
| "static_event (SentOwn _ m) \<longleftrightarrow> is_static m"
| "static_event (SawClosed _) \<longleftrightarrow> False"
| "static_event _ \<longleftrightarrow> True"

definition static_member :: "('a, 'm, 'f) member \<Rightarrow> bool" where
  "static_member mb \<longleftrightarrow> (\<forall>m \<in> set (mb_own mb). is_static m) \<and>
     (case mb_phase mb of Handling m \<Rightarrow> is_static m | Idle \<Rightarrow> True | Receiving \<Rightarrow> True | _ \<Rightarrow> False)"

definition all_static :: "('a, 'm, 'f, 'wk) pool \<Rightarrow> bool" where
  "all_static s \<longleftrightarrow> (\<forall>m \<in> set (pl_queue s). is_static m) \<and> (\<forall>mb \<in> set (members s). static_member mb)"

lemma handle_static:
  "is_static m \<Longrightarrow> \<exists>tx x. m = static_msg (tx, x) \<and>
     handle_msg impl open_rx m sh c =
       (sh, Some (False, c\<lparr>actor := snd (impl_handle impl x (actor c))\<rparr>,
          case tx of Some t \<Rightarrow> [OneshotSend t (ReplyResult (fst (impl_handle impl x (actor c))))] | None \<Rightarrow> []))"
  by (cases m) (auto simp: is_static_def split_def Let_def)

lemma handle_static_goes_on:
  assumes "is_static m" "handle_msg impl open_rx m sh c = (sh', r)"
  shows "sh' = sh" "\<exists>c' es. r = Some (False, c', es)"
  using handle_static [OF assms(1), of impl open_rx sh c] assms(2) by auto

lemma member_static: "all_static s \<Longrightarrow> i < length (members s) \<Longrightarrow> static_member (members s ! i)"
  by (simp add: all_static_def)

lemma handling_static: "all_static s \<Longrightarrow> at_phase s i (Handling m) \<Longrightarrow> is_static m"
  using member_static [of s i] by (simp add: static_member_def)

lemma all_static_put:
  "all_static s \<Longrightarrow> static_member mb \<Longrightarrow> all_static (put i mb s)"
  by (auto simp: all_static_def dest: set_update_subset_insert [THEN subsetD])

lemma all_static_frame [simp]:
  "all_static (s\<lparr>pl_shared := sh\<rparr>) = all_static s" "all_static (s\<lparr>pl_group := g\<rparr>) = all_static s"
  by (simp_all add: all_static_def)

lemma all_static_step:
  assumes "pool_step impl open_rx s l s'" "all_static s" "static_event l"
  shows "all_static s'"
  using assms
proof (cases rule: pool_step.cases)
  case (PTake i m ms)
  then have "all_static (s\<lparr>pl_queue := ms\<rparr>)" "is_static m" "static_member (members s ! i)"
    using assms(2) by (auto simp: all_static_def)
  with PTake show ?thesis by (auto intro!: all_static_put simp: static_member_def)
next
  case (PTakeOwn i m ms)
  then have "static_member (members s ! i)" using assms(2) by (auto simp: all_static_def)
  with PTakeOwn assms(2) show ?thesis by (auto intro!: all_static_put simp: static_member_def)
next
  case (PHandle i m sh brk c es)
  then have mb: "static_member (members s ! i)" using assms(2) by (auto simp: all_static_def)
  from handle_static_goes_on(2) [OF handling_static [OF assms(2) PHandle(3)] PHandle(4)] have "\<not> brk" by simp
  with mb PHandle assms(2) show ?thesis by (auto intro!: all_static_put simp: static_member_def)
next
  case (PPanic i m sh)
  from handle_static_goes_on(2) [OF handling_static [OF assms(2) PPanic(3)] PPanic(4)] show ?thesis by simp
next
  case (PSend m)
  with assms(2,3) show ?thesis by (auto simp: all_static_def)
next
  case (PSendOwn i m)
  then have "static_member (members s ! i)" using assms(2) by (auto simp: all_static_def)
  with PSendOwn assms(2,3) show ?thesis by (auto intro!: all_static_put simp: static_member_def)
next
  case (PLeave i again sh c)
  then have "static_member (members s ! i)" using assms(2) by (auto simp: all_static_def)
  with PLeave show ?thesis by (simp add: static_member_def)
next
  case (PStart i sh c)
  then have "static_member (members s ! i)" using assms(2) by (auto simp: all_static_def)
  with PStart assms(2) show ?thesis by (auto intro!: all_static_put simp: static_member_def)
qed (use assms in auto)

text \<open>One actor against the reference \<open>serve\<close>, from the state it was built with.\<close>

definition replies_to :: "(oneshot \<times> 'r) list \<Rightarrow> ('m, 'r, 'f, 'ty, 'v, 'wk) ctx_effect list" where
  "replies_to rs = map (\<lambda>(tx, r). OneshotSend tx (ReplyResult r)) rs"

definition serves ::
  "('a, 'm, 'r, 'f, 'ty, 'v) actor_impl \<Rightarrow> 'a \<Rightarrow> ('m, 'f) context_message list
     \<Rightarrow> ('m, 'r, 'f, 'ty, 'v, 'wk) ctx_effect list \<Rightarrow> 'a \<Rightarrow> bool" where
  "serves impl a0 msgs es a \<longleftrightarrow>
     (\<exists>ms. msgs = map static_msg ms
        \<and> a = snd (serve (impl_handle impl) ms (impl_on_start impl a0))
        \<and> es = replies_to (fst (serve (impl_handle impl) ms (impl_on_start impl a0))))"

lemma serve_snoc:
  "serve h (ms @ [(tx, m)]) a =
     (fst (serve h ms a) @ (case tx of Some t \<Rightarrow> [(t, fst (h m (snd (serve h ms a))))] | None \<Rightarrow> []),
      snd (h m (snd (serve h ms a))))"
  by (induction ms arbitrary: a) (auto simp: split_def Let_def split: option.splits)

lemma serves_start: "serves impl a0 [] [] (impl_on_start impl a0)"
  by (auto simp: serves_def replies_to_def intro!: exI [of _ "[]"])

lemma serves_handle:
  assumes "serves impl a0 msgs es (actor c)" "is_static m"
    and "handle_msg impl open_rx m sh c = (sh', Some (brk, c', es'))"
  shows "serves impl a0 (msgs @ [m]) (es @ es') (actor c')"
proof -
  from handle_static [OF assms(2), of impl open_rx sh c] obtain tx x where m: "m = static_msg (tx, x)"
    and h: "handle_msg impl open_rx m sh c =
       (sh, Some (False, c\<lparr>actor := snd (impl_handle impl x (actor c))\<rparr>,
          case tx of Some t \<Rightarrow> [OneshotSend t (ReplyResult (fst (impl_handle impl x (actor c))))] | None \<Rightarrow> []))"
    by blast
  from assms(1) obtain ms where ms: "msgs = map static_msg ms"
    "actor c = snd (serve (impl_handle impl) ms (impl_on_start impl a0))"
    "es = replies_to (fst (serve (impl_handle impl) ms (impl_on_start impl a0)))"
    by (auto simp: serves_def)
  with assms(3) h m show ?thesis
    unfolding serves_def
    by (intro exI [of _ "ms @ [(tx, x)]"]) (auto simp: serve_snoc replies_to_def split: option.splits)
qed

definition serve_ok ::
  "('a, 'm, 'r, 'f, 'ty, 'v) actor_impl \<Rightarrow> 'a list \<Rightarrow> ('m, 'r, 'f, 'ty, 'v, 'wk) event list
     \<Rightarrow> ('a, 'm, 'f, 'wk) pool \<Rightarrow> bool" where
  "serve_ok impl as tr s \<longleftrightarrow>
     (list_all static_event tr \<longrightarrow>
        length (members s) = length as \<and> all_static s \<and>
        (\<forall>i < length as.
           if mb_phase (members s ! i) = Idle
           then handled i tr = [] \<and> effects_of i tr = [] \<and> actor (mb_ctx (members s ! i)) = as ! i
           else serves impl (as ! i) (handled i tr) (effects_of i tr) (actor (mb_ctx (members s ! i)))))"

lemma serve_ok_step:
  assumes "pool_step impl open_rx s l s'" "serve_ok impl as tr s"
  shows "serve_ok impl as (tr @ [l]) s'"
proof (cases "list_all static_event (tr @ [l])")
  case True
  with assms(2) have st: "all_static s" "static_event l" and len: "length (members s) = length as"
    and each: "\<And>i. i < length as \<Longrightarrow> if mb_phase (members s ! i) = Idle
           then handled i tr = [] \<and> effects_of i tr = [] \<and> actor (mb_ctx (members s ! i)) = as ! i
           else serves impl (as ! i) (handled i tr) (effects_of i tr) (actor (mb_ctx (members s ! i)))"
    by (auto simp: serve_ok_def)
  note st' = all_static_step [OF assms(1) st]
  from assms(1) show ?thesis
  proof (cases rule: pool_step.cases)
    case (PHandle i m sh brk c es)
    from serves_handle [OF _ handling_static [OF st(1) PHandle(3)] PHandle(4)] each [of i] PHandle(3) len
    have "serves impl (as ! i) (handled i tr @ [m]) (effects_of i tr @ es) (actor c)" by auto
    with PHandle st' len each show ?thesis by (auto simp: serve_ok_def nth_list_update)
  next
    case (PPanic i m sh)
    then have "static_member ((members s ! i)\<lparr>mb_phase := Dead\<rparr>)"
      using st' by (auto simp: all_static_def set_update_memI)
    then show ?thesis by (simp add: static_member_def)
  next
    case (PLeave i again sh c)
    then have "static_member (members s ! i)" using st(1) by (auto simp: all_static_def)
    with PLeave show ?thesis by (simp add: static_member_def)
  next
    case (PStart i sh c)
    with st' len each serves_start [of impl "as ! i"] show ?thesis
      by (auto simp: serve_ok_def nth_list_update)
  qed (use st st' len each in \<open>auto simp: serve_ok_def nth_list_update split: if_splits\<close>)
qed (auto simp: serve_ok_def)

interpretation serving: trace_invariant "pool_step impl open_rx" "serve_ok impl as" for impl open_rx as
  by unfold_locales (rule serve_ok_step)

lemma serve_ok_new: "serve_ok impl (map (actor \<circ> fst) ctxs) [] (pool_new ctxs st)"
  by (auto simp: serve_ok_def pool_new_def all_static_def static_member_def split_beta)

text \<open>
  C7. Several actors on one channel are several sequential servers. While only messages for the handlers are
  sent and the channel is open, each actor that has started is in the state the reference server
  reaches from the actor it was built with and the messages this actor handled, in their order, and
  has sent the reference's replies and nothing else, whatever the other actors do meanwhile.
\<close>

theorem pool_serves:
  assumes "run (pool_step impl open_rx) (pool_new ctxs st) tr s" and "list_all static_event tr"
    and "i < length ctxs" and "mb_phase (members s ! i) \<noteq> Idle"
  shows "\<exists>ms. handled i tr = map static_msg ms
     \<and> actor (mb_ctx (members s ! i))
         = snd (serve (impl_handle impl) ms (impl_on_start impl (actor (fst (ctxs ! i)))))
     \<and> effects_of i tr
         = map (\<lambda>(tx, r). OneshotSend tx (ReplyResult r))
             (fst (serve (impl_handle impl) ms (impl_on_start impl (actor (fst (ctxs ! i))))))"
proof -
  have "serves impl (map (actor \<circ> fst) ctxs ! i) (handled i tr) (effects_of i tr) (actor (mb_ctx (members s ! i)))"
    using serving.run_from [OF assms(1) serve_ok_new] assms(2-4)
    by (auto simp: serve_ok_def dest!: spec [of _ i])
  with assms(3) show ?thesis by (simp add: serves_def replies_to_def)
qed

subsection \<open>The queue is worked off\<close>

text \<open>
  The actors' own steps: everything but sending and what others do with senders. The measure counts what
  is left to do: two steps for each message that waits, one for each message in hand, one for each
  actor to start.
\<close>

fun is_internal :: "('m, 'r, 'f, 'ty, 'v, 'wk) event \<Rightarrow> bool" where
  "is_internal (Sent _) \<longleftrightarrow> False"
| "is_internal (SentOwn _ _) \<longleftrightarrow> False"
| "is_internal (Senders _ _) \<longleftrightarrow> False"
| "is_internal _ \<longleftrightarrow> True"

definition internal_step where
  "internal_step impl open_rx s l s' \<longleftrightarrow> pool_step impl open_rx s l s' \<and> is_internal l"

fun phase_work :: "('m, 'f) phase \<Rightarrow> nat" where
  "phase_work Idle = 1"
| "phase_work (Handling _) = 1"
| "phase_work _ = 0"

definition member_work :: "('a, 'm, 'f) member \<Rightarrow> nat" where
  "member_work mb = 2 * length (mb_own mb) + phase_work (mb_phase mb)"

definition work_left :: "('a, 'm, 'f, 'wk) pool \<Rightarrow> nat" where
  "work_left s = 2 * length (pl_queue s) + sum_list (map member_work (members s))"

definition busy_ok :: "('a, 'm, 'f, 'wk) pool \<Rightarrow> bool" where
  "busy_ok s \<longleftrightarrow> all_static s \<and> 0 < tx_strong (pl_shared s)"

lemma sum_list_update_nat:
  "i < length xs \<Longrightarrow> sum_list (map f (xs[i := y])) + f (xs ! i) = sum_list (map f xs) + (f y :: nat)"
proof (induction xs arbitrary: i)
  case (Cons x xs)
  then show ?case by (cases i) auto
qed simp

lemma work_put:
  "i < length (members s) \<Longrightarrow>
     work_left (put i mb s) + member_work (members s ! i) = work_left s + member_work mb"
  using sum_list_update_nat [of i "members s" member_work mb] by (simp add: work_left_def)

lemma work_frame [simp]:
  "work_left (s\<lparr>pl_shared := sh\<rparr>) = work_left s"
  by (simp add: work_left_def)

lemma internal_step_lowers:
  assumes "busy_ok s" "internal_step impl open_rx s l s'"
  shows "work_left s' < work_left s" "busy_ok s'"
proof -
  from assms(2) have step: "pool_step impl open_rx s l s'" and l: "is_internal l"
    by (simp_all add: internal_step_def)
  from assms(1) have st: "all_static s" and tx: "0 < tx_strong (pl_shared s)" by (simp_all add: busy_ok_def)
  from step have "static_event l \<and> work_left s' < work_left s \<and> tx_strong (pl_shared s') = tx_strong (pl_shared s)"
  proof (cases rule: pool_step.cases)
    case (PStart i sh c)
    with work_put [of i "s\<lparr>pl_shared := sh\<rparr>"
        "(members s ! i)\<lparr>mb_ctx := c, mb_phase := Receiving\<rparr>"]
    show ?thesis by (auto simp: member_work_def)
  next
    case (PTake i m ms)
    with work_put [of i "s\<lparr>pl_queue := ms\<rparr>" "(members s ! i)\<lparr>mb_phase := Handling m\<rparr>"]
    show ?thesis by (simp add: member_work_def) (simp add: work_left_def)
  next
    case (PTakeOwn i m ms)
    with work_put [of i s "(members s ! i)\<lparr>mb_phase := Handling m, mb_own := ms\<rparr>"]
    show ?thesis by (simp add: member_work_def)
  next
    case (PHandle i m sh brk c es)
    from handle_static_goes_on [OF handling_static [OF st PHandle(3)] PHandle(4)]
    have "sh = pl_shared s" "\<not> brk" by simp_all
    with PHandle work_put [of i "s\<lparr>pl_shared := sh\<rparr>"
        "(members s ! i)\<lparr>mb_ctx := c, mb_phase := Receiving\<rparr>"]
    show ?thesis by (simp add: member_work_def)
  next
    case (PPanic i m sh)
    from handle_static_goes_on(2) [OF handling_static [OF st PPanic(3)] PPanic(4)] show ?thesis by simp
  next
    case (PLeave i again sh c)
    with member_static [OF st, of i] show ?thesis by (simp add: static_member_def)
  qed (use l tx in auto)
  with all_static_step [OF step st] tx show "work_left s' < work_left s" "busy_ok s'"
    by (simp_all add: busy_ok_def)
qed

interpretation drain: draining "internal_step impl open_rx" work_left busy_ok for impl open_rx
  by unfold_locales (rule internal_step_lowers; assumption)+

text \<open>While something is left to do, some actor can do it.\<close>

lemma internal_step_possible:
  assumes "busy_ok s" "\<forall>l s'. \<not> internal_step impl open_rx s l s'" "i < length (members s)"
  shows "mb_phase (members s ! i) = Receiving \<and> mb_own (members s ! i) = [] \<and> pl_queue s = []"
proof -
  from assms(1) have st: "all_static s" by (simp add: busy_ok_def)
  have no: "is_internal l \<Longrightarrow> pool_step impl open_rx s l s' \<Longrightarrow> False" for l s'
    using assms(2) unfolding internal_step_def by blast
  show ?thesis
  proof (cases "mb_phase (members s ! i)")
    case Idle
    from no [OF _ PStart [OF conjI [OF assms(3) this] surjective_pairing]] show ?thesis by simp
  next
    case Receiving
    note at = conjI [OF assms(3) this]
    have "mb_own (members s ! i) = []"
      using no [OF _ PTakeOwn [OF at]] by (cases "mb_own (members s ! i)") auto
    moreover have "pl_queue s = []"
      using no [OF _ PTake [OF at]] by (cases "pl_queue s") auto
    ultimately show ?thesis using Receiving by simp
  next
    case (Handling m)
    note at = conjI [OF assms(3) this]
    obtain sh r where h: "handle_msg impl open_rx m (pl_shared s) (mb_ctx (members s ! i)) = (sh, r)"
      by force
    with handle_static_goes_on(2) [OF handling_static [OF st at] h]
    obtain c es where "handle_msg impl open_rx m (pl_shared s) (mb_ctx (members s ! i)) = (sh, Some (False, c, es))"
      by blast
    from no [OF _ PHandle [OF at this]] show ?thesis by simp
  qed (use member_static [OF st assms(3)] in \<open>simp_all add: static_member_def\<close>)
qed

text \<open>
  C23. Messages do not wait forever. While only messages for the handlers are sent and a sender is left, the
  actors by themselves make at most \<open>work_left\<close> steps, whatever the order; and when none of them can
  make another, the shared channel and every actor's own one are empty and all actors wait for
  messages. Such an end is reached.
\<close>

theorem pool_drains:
  fixes s :: "('a, 'm, 'f, 'wk) pool"
  assumes "run (pool_step impl open_rx) (pool_new ctxs st) tr s" and "list_all static_event tr"
    and "0 < tx_strong (pl_shared s)" and "ctxs \<noteq> []"
  shows "(\<forall>tr' s'. run (internal_step impl open_rx) s tr' s' \<longrightarrow>
            length tr' \<le> work_left s \<and>
            ((\<forall>l s''. \<not> internal_step impl open_rx s' l s'') \<longrightarrow>
               pl_queue s' = [] \<and> (\<forall>mb \<in> set (members s'). mb_phase mb = Receiving \<and> mb_own mb = [])))
       \<and> (\<exists>tr' s'. run (internal_step impl open_rx) s tr' s' \<and> (\<forall>l s''. \<not> internal_step impl open_rx s' l s''))"
proof -
  from serving.run_from [OF assms(1) serve_ok_new] assms(2,4)
  have st: "all_static s" and len: "members s \<noteq> []" by (auto simp: serve_ok_def)
  with assms(3) have ok: "busy_ok s" by (simp add: busy_ok_def)
  have same: "length (members s') = length (members s)"
    if "run (internal_step impl open_rx) s tr' s'" for tr' s'
    using that
  proof (induction rule: run.induct)
    case (RunStep s tr' s1 l s2)
    from RunStep(2) have "length (members s2) = length (members s1)"
      unfolding internal_step_def by (auto elim: pool_step.cases)
    with RunStep show ?case by simp
  qed simp
  have "pl_queue s' = [] \<and> (\<forall>mb \<in> set (members s'). mb_phase mb = Receiving \<and> mb_own mb = [])"
    if "run (internal_step impl open_rx) s tr' s'" "\<forall>l s''. \<not> internal_step impl open_rx s' l s''" for tr' s'
  proof -
    note stuck = internal_step_possible [OF drain.run_good [OF that(1) ok] that(2)]
    have "0 < length (members s')" using same [OF that(1)] len by simp
    from stuck [OF this] have "pl_queue s' = []" by simp
    with stuck show ?thesis by (auto simp: in_set_conv_nth)
  qed
  with drain.run_length [OF _ ok] drain.run_to_end [OF ok, of impl open_rx] show ?thesis
    by (metis add_leD1)
qed

subsection \<open>Closing stops one actor\<close>

text \<open>A shutdown request that was handled while its caller still waited.\<close>

fun closes :: "(oneshot \<Rightarrow> bool) \<Rightarrow> ('m, 'r, 'f, 'ty, 'v, 'wk) event \<Rightarrow> bool" where
  "closes open_rx (Handled _ (ManualShutDown tx) _ _) \<longleftrightarrow> open_rx tx"
| "closes open_rx _ \<longleftrightarrow> False"

fun ending :: "('a, 'm, 'f) member \<Rightarrow> bool" where
  "ending mb \<longleftrightarrow> mb_phase mb \<in> {Exiting, Stopped}"

fun open_event :: "('m, 'r, 'f, 'ty, 'v, 'wk) event \<Rightarrow> bool" where
  "open_event (SawClosed _) \<longleftrightarrow> False"
| "open_event _ \<longleftrightarrow> True"

fun restarts :: "('m, 'r, 'f, 'ty, 'v, 'wk) event \<Rightarrow> bool" where
  "restarts (Left _ again) \<longleftrightarrow> again"
| "restarts _ \<longleftrightarrow> False"

definition closing_ok ::
  "(oneshot \<Rightarrow> bool) \<Rightarrow> ('m, 'r, 'f, 'ty, 'v, 'wk) event list \<Rightarrow> ('a, 'm, 'f, 'wk) pool \<Rightarrow> bool" where
  "closing_ok open_rx tr s \<longleftrightarrow>
     (list_all open_event tr \<longrightarrow>
        (\<forall>mb \<in> set (members s). mb_phase mb = Exiting \<longrightarrow> manual_shutdown (mb_ctx mb)) \<and>
        length (filter ending (members s)) = length (filter (closes open_rx) tr) \<and>
        filter restarts tr = [])"

lemma handled_breaks:
  assumes "handle_msg impl open_rx m sh c = (sh', Some (brk, c', es))"
  shows "brk = closes open_rx (Handled i m brk es)" "brk \<Longrightarrow> manual_shutdown c'"
proof -
  show "brk = closes open_rx (Handled i m brk es)"
    using assms by (cases m) (auto simp: Let_def split: prod.splits option.splits if_splits)
  show "brk \<Longrightarrow> manual_shutdown c'" using handle_msg_context [OF assms] by simp
qed

lemma exit_manual:
  "context_exit impl sh c = (again, sh', c') \<Longrightarrow> manual_shutdown c \<Longrightarrow> \<not> again"
  by (auto simp: context_exit_def Let_def split_def split: if_splits)

lemma ending_update:
  "i < length xs \<Longrightarrow> ending (xs ! i) = ending mb \<Longrightarrow>
     length (filter ending (xs[i := mb])) = length (filter ending xs)"
  "i < length xs \<Longrightarrow> \<not> ending (xs ! i) \<Longrightarrow> ending mb \<Longrightarrow>
     length (filter ending (xs[i := mb])) = Suc (length (filter ending xs))"
  using length_filter_update [of i xs ending mb] by (auto simp del: ending.simps)

lemma closing_ok_step:
  assumes "pool_step impl open_rx s l s'" "closing_ok open_rx tr s"
  shows "closing_ok open_rx (tr @ [l]) s'"
  using assms(1)
proof (cases rule: pool_step.cases)
  case (PHandle i m sh brk c es)
  from assms(2) PHandle handled_breaks(1) [OF PHandle(4), of i] handled_breaks(2) [OF PHandle(4)] show ?thesis
    by (cases brk) (auto simp: closing_ok_def ending_update dest!: set_update_subset_insert [THEN subsetD] simp del: closes.simps)
next
  case (PLeave i again sh c)
  show ?thesis
  proof (cases "list_all open_event tr")
    case True
    with assms(2) PLeave(3) have "manual_shutdown (mb_ctx (members s ! i))" by (auto simp: closing_ok_def)
    from exit_manual [OF PLeave(4) this] assms(2) PLeave show ?thesis
      by (auto simp: closing_ok_def ending_update dest!: set_update_subset_insert [THEN subsetD])
  qed (simp add: closing_ok_def)
qed (use assms(2) in \<open>auto simp: closing_ok_def ending_update dest!: set_update_subset_insert [THEN subsetD]\<close>)

interpretation closing: trace_invariant "pool_step impl open_rx" "closing_ok open_rx" for impl open_rx
  by unfold_locales (rule closing_ok_step)

lemma closing_ok_new: "closing_ok open_rx [] (pool_new ctxs st)"
  by (auto simp: closing_ok_def pool_new_def filter_empty_conv split: prod.splits simp del: filter_map)

lemma closed_ones:
  assumes "run (pool_step impl open_rx) (pool_new ctxs st) tr s" and "list_all open_event tr"
  shows "length (filter (\<lambda>mb. mb_phase mb \<in> {Exiting, Stopped}) (members s)) = length (filter (closes open_rx) tr)"
    and "filter restarts tr = []"
proof -
  have c: "(\<lambda>mb. mb_phase mb \<in> {Exiting, Stopped}) = ending" by (simp add: fun_eq_iff)
  show "length (filter (\<lambda>mb. mb_phase mb \<in> {Exiting, Stopped}) (members s)) = length (filter (closes open_rx) tr)"
    and "filter restarts tr = []"
    using closing.run_from [OF assms(1) closing_ok_new] assms(2) unfolding c by (simp_all add: closing_ok_def)
qed


text \<open>
  \<open>close_one\<close> answers before its actor has left the count: the reply is sent while the message is
  handled, \<open>dec_active\<close> runs once the loop has been left. After any number of answered requests \<open>current_active\<close> is
  the number of actors started so far, less the requests answered, plus the actors still on their
  way out; so it is right once none of these is left, and in between it is too high by as many.
\<close>

theorem close_answers_early:
  fixes s :: "('a, 'm, 'f, 'wk) pool"
  assumes "builder_start build bounded tx cfg w = (ctxs, addr, st, w')" and "unat (num cfg) < 2 ^ 63"
    and "run (pool_step impl open_rx) (pool_new ctxs st) tr s" and "list_all open_event tr"
  shows "unat (current_active (state (pl_shared s))) + length (filter (closes open_rx) tr)
       = length (filter (\<lambda>mb. mb_phase mb \<noteq> Idle) (members s))
         + length (filter (\<lambda>mb. mb_phase mb = Exiting) (members s))"
proof -
  have part: "length (filter (\<lambda>mb. mb_phase mb \<notin> {Idle, Stopped}) ms) + length (filter (\<lambda>mb. mb_phase mb \<in> {Exiting, Stopped}) ms)
      = length (filter (\<lambda>mb. mb_phase mb \<noteq> Idle) ms) + length (filter (\<lambda>mb. mb_phase mb = Exiting) ms)"
    for ms :: "('a, 'm, 'f) member list"
    by (induction ms) auto
  from pool_counted [OF assms(1-3)] closed_ones [OF assms(3,4)] part [of "members s"] show ?thesis by simp
qed

end
