(* ===== verification/Actor_Set_Play.thy ===== *)
theory Actor_Set_Play
  imports Actor_Set_Serve
begin

section \<open>An interpreter for the actors' steps\<close>

text \<open>
  The step relation of \<open>Actor_Set\<close> as a function: a scheduler names the next move, and \<open>fire\<close> makes it
  when it is possible. The two agree; a list of moves gives a run, which the witnesses compute.
\<close>

datatype ('m, 'f) move =
  MSend "('m, 'f) context_message"
| MSendOwn nat "('m, 'f) context_message"
| MSenders nat bool
| MStart nat
| MTake nat
| MTakeOwn nat
| MHandle nat
| MClosed nat
| MLeave nat

fun fire ::
  "('a, 'm, 'r, 'f, 'ty, 'v) actor_impl \<Rightarrow> (oneshot \<Rightarrow> bool) \<Rightarrow> ('m, 'f) move \<Rightarrow> ('a, 'm, 'f, 'wk) pool
     \<Rightarrow> (('m, 'r, 'f, 'ty, 'v, 'wk) event \<times> ('a, 'm, 'f, 'wk) pool) option" where
  "fire impl open_rx (MSend m) s =
     (if 0 < tx_strong (pl_shared s) \<and> (\<exists>mb \<in> set (members s). has_receiver mb)
      then Some (Sent m, s\<lparr>pl_queue := pl_queue s @ [m]\<rparr>) else None)"
| "fire impl open_rx (MSendOwn i m) s =
     (if pl_group s \<and> i < length (members s) \<and> has_receiver (members s ! i)
         \<and> selecting (mb_ctx (members s ! i)) \<and> length (mb_own (members s ! i)) < pl_cap s
      then Some (SentOwn i m, put i ((members s ! i)\<lparr>mb_own := mb_own (members s ! i) @ [m]\<rparr>) s) else None)"
| "fire impl open_rx (MSenders n g) s =
     (if (0 < tx_strong (pl_shared s) \<or> n = 0) \<and> (pl_group s \<or> \<not> g)
      then Some (Senders n g, s\<lparr>pl_shared := (pl_shared s)\<lparr>tx_strong := n\<rparr>, pl_group := g\<rparr>) else None)"
| "fire impl open_rx (MStart i) s =
     (if at_phase s i Idle
      then (case context_start impl (pl_shared s) (mb_ctx (members s ! i)) of
              (sh, c) \<Rightarrow> Some (Started i,
                 put i ((members s ! i)\<lparr>mb_ctx := c, mb_phase := Receiving\<rparr>) (s\<lparr>pl_shared := sh\<rparr>)))
      else None)"
| "fire impl open_rx (MTake i) s =
     (if at_phase s i Receiving
      then (case pl_queue s of
              m # ms \<Rightarrow> Some (Took i m, put i ((members s ! i)\<lparr>mb_phase := Handling m\<rparr>) (s\<lparr>pl_queue := ms\<rparr>))
            | [] \<Rightarrow> None)
      else None)"
| "fire impl open_rx (MTakeOwn i) s =
     (if at_phase s i Receiving
      then (case mb_own (members s ! i) of
              m # ms \<Rightarrow> Some (TookOwn i m, put i ((members s ! i)\<lparr>mb_phase := Handling m, mb_own := ms\<rparr>) s)
            | [] \<Rightarrow> None)
      else None)"
| "fire impl open_rx (MHandle i) s =
     (if i < length (members s)
      then (case mb_phase (members s ! i) of
              Handling m \<Rightarrow>
                (case handle_msg impl open_rx m (pl_shared s) (mb_ctx (members s ! i)) of
                   (sh, Some (brk, c, es)) \<Rightarrow> Some (Handled i m brk es,
                      put i ((members s ! i)\<lparr>mb_ctx := c, mb_phase := (if brk then Exiting else Receiving)\<rparr>)
                        (s\<lparr>pl_shared := sh\<rparr>))
                 | (sh, None) \<Rightarrow> Some (PanickedOn i m,
                      put i ((members s ! i)\<lparr>mb_phase := Dead\<rparr>) (s\<lparr>pl_shared := sh\<rparr>)))
            | _ \<Rightarrow> None)
      else None)"
| "fire impl open_rx (MClosed i) s =
     (if at_phase s i Receiving \<and> tx_strong (pl_shared s) = 0 \<and> pl_queue s = []
         \<and> (selecting (mb_ctx (members s ! i)) \<longrightarrow> mb_own (members s ! i) = [] \<and> \<not> pl_group s)
      then Some (SawClosed i, put i ((members s ! i)\<lparr>mb_phase := Exiting\<rparr>) s) else None)"
| "fire impl open_rx (MLeave i) s =
     (if at_phase s i Exiting
      then (case context_exit impl (pl_shared s) (mb_ctx (members s ! i)) of
              (again, sh, c) \<Rightarrow> Some (Left i again,
                 put i ((members s ! i)\<lparr>mb_ctx := c, mb_phase := (if again then Idle else Stopped)\<rparr>)
                   (s\<lparr>pl_shared := sh\<rparr>)))
      else None)"

lemmas branch_intros =
  PHandle [where brk = True, unfolded if_True] PHandle [where brk = False, unfolded if_False]
  PLeave [where again = True, unfolded if_True] PLeave [where again = False, unfolded if_False]

lemma fire_sound: "fire impl open_rx mv s = Some (l, s') \<Longrightarrow> pool_step impl open_rx s l s'"
  by (cases mv)
    (auto split: if_splits prod.splits list.splits option.splits phase.splits
      intro: pool_step.intros branch_intros simp del: has_receiver.simps context_start_simps)

lemma fire_complete: "pool_step impl open_rx s l s' \<Longrightarrow> \<exists>mv. fire impl open_rx mv s = Some (l, s')"
proof (induction rule: pool_step.cases)
  case (PSend s m)
  then show ?case by (intro exI [of _ "MSend m"]) auto
next
  case (PSendOwn s i m)
  then show ?case by (intro exI [of _ "MSendOwn i m"]) auto
next
  case (PSenders s n g)
  then show ?case by (intro exI [of _ "MSenders n g"]) auto
next
  case (PStart s i sh c)
  then show ?case by (intro exI [of _ "MStart i"]) auto
next
  case (PTake s i m ms)
  then show ?case by (intro exI [of _ "MTake i"]) auto
next
  case (PTakeOwn s i m ms)
  then show ?case by (intro exI [of _ "MTakeOwn i"]) auto
next
  case (PHandle s i m sh brk c es)
  then show ?case by (intro exI [of _ "MHandle i"]) auto
next
  case (PPanic s i m sh)
  then show ?case by (intro exI [of _ "MHandle i"]) auto
next
  case (PClosed s i)
  then show ?case by (intro exI [of _ "MClosed i"]) auto
next
  case (PLeave s i again sh c)
  then show ?case by (intro exI [of _ "MLeave i"]) auto
qed

fun play ::
  "('a, 'm, 'r, 'f, 'ty, 'v) actor_impl \<Rightarrow> (oneshot \<Rightarrow> bool) \<Rightarrow> ('m, 'f) move list \<Rightarrow> ('a, 'm, 'f, 'wk) pool
     \<Rightarrow> (('m, 'r, 'f, 'ty, 'v, 'wk) event list \<times> ('a, 'm, 'f, 'wk) pool) option" where
  "play impl open_rx [] s = Some ([], s)"
| "play impl open_rx (mv # mvs) s =
     (case fire impl open_rx mv s of
        None \<Rightarrow> None
      | Some (l, s1) \<Rightarrow> map_option (\<lambda>(tr, s2). (l # tr, s2)) (play impl open_rx mvs s1))"

lemma play_run: "play impl open_rx mvs s = Some (tr, s') \<Longrightarrow> run (pool_step impl open_rx) s tr s'"
proof (induction mvs arbitrary: s tr)
  case (Cons mv mvs)
  then obtain l s1 tr1 where l: "fire impl open_rx mv s = Some (l, s1)"
    and rest: "play impl open_rx mvs s1 = Some (tr1, s')" and tr: "tr = l # tr1"
    by (auto split: option.splits)
  from run_append [OF Cons.IH [OF rest] run_one [of "pool_step impl open_rx", OF fire_sound [OF l]]]
  show ?case by (simp add: tr)
qed simp

subsection \<open>The theorems at work\<close>

text \<open>
  Two actors, started by the builder, and two messages: the second actor takes the first message, the
  first actor the second one and finishes before it. A third run goes on with a request to close.
\<close>

definition demo_pair :: "(nat actor_context \<times> nat option) list" where
  "demo_pair = [(context_new 0 (None :: nat option) 0, None), (context_new 1 (None :: nat option) 1, None)]"

definition demo_two :: "nat actor_state" where
  "demo_two = actor_state_new (config_default\<lparr>num := 2\<rparr>)"

lemma demo_started:
  "\<exists>addr w'. builder_start demo_build demo_bounded 0 (config_default\<lparr>num := 2\<rparr>) 0 =
     (demo_pair, addr :: (nat, nat, nat) address, demo_two, w')"
  by (simp add: builder_start_loop demo_pair_def demo_two_def demo_build_def broadcast_receiver_def
      state_allow_broadcast_def actor_state_new_def config_default_def Let_def upt_rec)

definition demo_moves :: "(nat, nat) move list" where
  "demo_moves =
     [MStart 0, MStart 1, MSend (static_msg (Some 7, 5)), MSend (static_msg (None, 3)),
      MTake 1, MTake 0, MHandle 0, MHandle 1]"

definition demo_trace :: "(nat, nat, nat, nat, nat, nat) event list" where
  "demo_trace =
     [Started 0, Started 1, Sent (static_msg (Some 7, 5)), Sent (static_msg (None, 3)),
      Took 1 (static_msg (Some 7, 5)), Took 0 (static_msg (None, 3)),
      Handled 0 (static_msg (None, 3)) False [],
      Handled 1 (static_msg (Some 7, 5)) False [OneshotSend 7 (ReplyResult 7)]]"

definition demo_end :: "(nat, nat, nat, nat) pool" where
  "demo_end =
     \<lparr>members =
        [\<lparr>mb_ctx = (context_new 0 (None :: nat option) 4), mb_phase = Receiving, mb_own = []\<rparr>,
         \<lparr>mb_ctx = (context_new 1 (None :: nat option) 7), mb_phase = Receiving, mb_own = []\<rparr>],
      pl_queue = [],
      pl_shared = \<lparr>state = demo_two\<lparr>active := 4\<rparr>, cells = [], tx_strong = 1\<rparr>, pl_cap = 2, pl_group = False\<rparr>"

lemma demo_plays:
  "play demo_impl (\<lambda>_. True) demo_moves (pool_new demo_pair demo_two) = Some (demo_trace, demo_end)"
  by (simp add: demo_moves_def demo_trace_def demo_end_def demo_pair_def pool_new_def demo_impl_def
      context_new_def sender_from_def demo_two_def actor_state_new_def state_allow_broadcast_def put_def
      inc_active_def modify_active_def MARKER_def UNIT_eq config_default_def)

lemmas demo_run = play_run [OF demo_plays]

theorem pool_counts_witness:
  "unat (current_active (state (pl_shared demo_end))) = 2"
proof -
  obtain addr w' where start: "builder_start demo_build demo_bounded 0 (config_default\<lparr>num := 2\<rparr>) 0 =
     (demo_pair, addr :: (nat, nat, nat) address, demo_two, w')"
    using demo_started by blast
  have "unat (num (config_default\<lparr>num := 2\<rparr>)) < 2 ^ 63" by simp
  from pool_counts [OF start this demo_run] show ?thesis by (simp add: demo_end_def)
qed

text \<open>An interval closure registered while a delayed message waits.\<close>

theorem pool_keeps_shared_ok_witness:
  "\<exists>tr s. play demo_impl (\<lambda>_. True)
       [MStart 0, MStart 1, MSend (Delayed (DelayedStatic 1 50)), MSend (Interval (Register 9 \<lparr>func = 5\<rparr> 100)),
        MTake 0, MTake 1, MHandle 1, MHandle 0]
       (pool_new demo_pair demo_two :: (nat, nat, nat, nat) pool) = Some (tr, s)
     \<and> length (handlers (state (pl_shared s))) = 2 \<and> keys_issued (interval_futures (state (pl_shared s)))"
proof -
  obtain addr w' where start: "builder_start demo_build demo_bounded 0 (config_default\<lparr>num := 2\<rparr>) 0 =
     (demo_pair, addr :: (nat, nat, nat) address, demo_two, w')"
    using demo_started by blast
  obtain tr s where p: "play demo_impl (\<lambda>_. True)
      [MStart 0, MStart 1, MSend (Delayed (DelayedStatic 1 50)), MSend (Interval (Register 9 \<lparr>func = 5\<rparr> 100)),
       MTake 0, MTake 1, MHandle 1, MHandle 0]
      (pool_new demo_pair demo_two :: (nat, nat, nat, nat) pool) = Some (tr, s)"
    and no: "\<forall>i m. PanickedOn i m \<notin> set tr" and two: "length (handlers (state (pl_shared s))) = 2"
    by (simp add: demo_pair_def pool_new_def demo_impl_def context_new_def sender_from_def demo_two_def
        actor_state_new_def state_allow_broadcast_def put_def inc_active_def modify_active_def MARKER_def
        UNIT_eq config_default_def interval_default_def interval_insert_def push_handler_def is_running_def
        attach_tx_def handle_delayed_msg_def weak_upgrade_def handle_delay_on_shutdown_def Let_def)
  from pool_keeps_shared_ok [OF start play_run [OF p]] no two p show ?thesis by blast
qed


theorem pool_serves_witness:
  "\<exists>ms. handled 1 demo_trace = map static_msg ms
     \<and> effects_of 1 demo_trace = map (\<lambda>(tx, r). OneshotSend tx (ReplyResult r)) [(7, 7)]
     \<and> snd (serve (impl_handle demo_impl) ms 2) = 7"
proof -
  have "list_all static_event demo_trace" by (auto simp: demo_trace_def is_static_def)
  moreover have "1 < length demo_pair" "mb_phase (members demo_end ! 1) \<noteq> Idle"
    by (simp_all add: demo_pair_def demo_end_def)
  ultimately obtain ms where "handled 1 demo_trace = map static_msg ms"
    "actor (mb_ctx (members demo_end ! 1)) =
       snd (serve (impl_handle demo_impl) ms (impl_on_start demo_impl (actor (fst (demo_pair ! 1)))))"
    using pool_serves [OF demo_run] by blast
  then show ?thesis
    by (intro exI [of _ ms])
      (simp add: demo_trace_def demo_end_def demo_pair_def context_new_def demo_impl_def numeral_2_eq_2)
qed

text \<open>The same pool just after both messages were sent: four steps are left, and then both actors wait.\<close>

definition demo_before :: "(nat, nat, nat, nat) pool" where
  "demo_before =
     demo_end\<lparr>members :=
        [\<lparr>mb_ctx = (context_new 0 (None :: nat option) 1), mb_phase = Receiving, mb_own = []\<rparr>,
         \<lparr>mb_ctx = (context_new 1 (None :: nat option) 2), mb_phase = Receiving, mb_own = []\<rparr>],
      pl_queue := [static_msg (Some 7, 5), static_msg (None, 3)]\<rparr>"

lemma demo_plays_before:
  "play demo_impl (\<lambda>_. True) (take 4 demo_moves) (pool_new demo_pair demo_two) = Some (take 4 demo_trace, demo_before)"
  by (simp add: demo_moves_def demo_trace_def demo_end_def demo_before_def demo_pair_def pool_new_def
      demo_impl_def context_new_def sender_from_def demo_two_def actor_state_new_def
      state_allow_broadcast_def put_def inc_active_def modify_active_def MARKER_def UNIT_eq config_default_def)

theorem pool_drains_witness:
  "work_left demo_before = 4
   \<and> (\<exists>tr s'. run (internal_step demo_impl (\<lambda>_. True)) demo_before tr s' \<and> length tr \<le> 4 \<and> pl_queue s' = [])"
proof -
  have w: "work_left demo_before = 4"
    by (simp add: work_left_def member_work_def demo_before_def demo_end_def)
  have "list_all static_event (take 4 demo_trace)" by (auto simp: demo_trace_def is_static_def)
  moreover have "0 < tx_strong (pl_shared demo_before)" "demo_pair \<noteq> []"
    by (simp_all add: demo_before_def demo_end_def demo_pair_def)
  ultimately show ?thesis
    using pool_drains [OF play_run [OF demo_plays_before]] w by metis
qed


text \<open>The second actor has answered and not left: one request was answered, and both are counted.\<close>

theorem close_answers_early_witness:
  "\<exists>tr s. play demo_impl (\<lambda>_. True) (demo_moves @ [MSend (ManualShutDown 8), MTake 1, MHandle 1])
       (pool_new demo_pair demo_two :: (nat, nat, nat, nat) pool) = Some (tr, s)
     \<and> length (filter (closes (\<lambda>_. True)) tr) = 1 \<and> unat (current_active (state (pl_shared s))) = 2"
proof -
  obtain addr w' where start: "builder_start demo_build demo_bounded 0 (config_default\<lparr>num := 2\<rparr>) 0 =
     (demo_pair, addr :: (nat, nat, nat) address, demo_two, w')"
    using demo_started by blast
  have n: "unat (num (config_default\<lparr>num := 2\<rparr>)) < 2 ^ 63" by simp
  obtain tr s where p: "play demo_impl (\<lambda>_. True)
      (demo_moves @ [MSend (ManualShutDown 8), MTake 1, MHandle 1])
      (pool_new demo_pair demo_two :: (nat, nat, nat, nat) pool) = Some (tr, s)"
    and tr: "list_all open_event tr" "length (filter (closes (\<lambda>_. True)) tr) = 1"
    and s: "length (filter (\<lambda>mb. mb_phase mb \<noteq> Idle) (members s)) = 2"
      "length (filter (\<lambda>mb. mb_phase mb = Exiting) (members s)) = 1"
    by (simp add: demo_moves_def demo_pair_def pool_new_def demo_impl_def context_new_def sender_from_def
        demo_two_def actor_state_new_def state_allow_broadcast_def put_def inc_active_def
        modify_active_def MARKER_def UNIT_eq config_default_def context_state_of_def)
  from close_answers_early [OF start n play_run [OF p] tr(1)] tr(2) s p show ?thesis by auto
qed

end
