(* ===== verification/Timer_Tasks.thy ===== *)
theory Timer_Tasks
  imports Actor_Set
begin

section \<open>The tasks of delayed messages and intervals
  (\<open>src/context.rs\<close>, \<open>src/util/future_handle.rs\<close>, \<open>src/util/runtime.rs\<close>)\<close>

text \<open>
  What \<open>handle_delayed_msg\<close> and \<open>handle_interval_msg\<close> spawn goes on beside the actors: a task polls a
  timer under a \<open>select\<close> with its finisher and sends into the actors' channel. Here the tasks run
  together with the actors of \<open>Actor_Set\<close>, in any interleaving. The timers (\<open>runtime::delay_for\<close>,
  \<open>runtime::interval\<close>) belong to the runtime: each poll is told whether the timer is ready, so the
  properties hold for every behaviour of a clock.
\<close>

subsection \<open>One poll of a task\<close>

text \<open>
  \<open>runtime::tick\<close> waits for the interval and drops what it yields. The loop of an interval is at its
  tick, or at \<open>yield_now\<close>, whose flag is kept. A poll goes on until it must wait: it sends at most the
  one message before \<open>yield_now\<close>. The second component lists the messages sent.
\<close>

datatype loop_pos = AtTick | AtYield bool

definition runtime_tick :: "'x poll \<Rightarrow> unit poll" where
  "runtime_tick p = map_poll (\<lambda>_. ()) p"

definition from_tick ::
  "unit poll \<Rightarrow> nat \<Rightarrow> usize \<Rightarrow> ('m, 'f) context_message list
     \<Rightarrow> unit poll \<times> loop_pos \<times> ('m, 'f) context_message list" where
  "from_tick timer strong index out =
     (case runtime_tick timer of
        Pending \<Rightarrow> (Pending, AtTick, out)
      | Ready _ \<Rightarrow>
          (case interval_tick strong index of
             None \<Rightarrow> (Ready (), AtTick, out)
           | Some msg \<Rightarrow> (Pending, AtYield (snd (snd (yield_now_poll False))), out @ [msg])))"

fun interval_loop_poll ::
  "unit poll \<Rightarrow> nat \<Rightarrow> usize \<Rightarrow> loop_pos \<times> ('m, 'f) context_message list
     \<Rightarrow> unit poll \<times> loop_pos \<times> ('m, 'f) context_message list" where
  "interval_loop_poll timer strong index (AtTick, out) = from_tick timer strong index out"
| "interval_loop_poll timer strong index (AtYield yielded, out) =
     (case yield_now_poll yielded of
        (Pending, _, yielded') \<Rightarrow> (Pending, AtYield yielded', out)
      | (Ready _, _, _) \<Rightarrow> from_tick timer strong index out)"

text \<open>
  \<open>select\<close> is futures-util's: a parameter, which polls the two futures in either order and is done as
  soon as one of them is. Left is the finisher.
\<close>

definition left_first ::
  "('c \<Rightarrow> unit poll \<times> 'c) \<Rightarrow> ('s \<Rightarrow> unit poll \<times> 's) \<Rightarrow> 'c \<Rightarrow> 's \<Rightarrow> (unit + unit) poll \<times> 'c \<times> 's" where
  "left_first fin fut c s =
     (case fin c of
        (Ready _, c') \<Rightarrow> (Ready (Inl ()), c', s)
      | (Pending, c') \<Rightarrow>
          (case fut s of (Ready _, s') \<Rightarrow> (Ready (Inr ()), c', s') | (Pending, s') \<Rightarrow> (Pending, c', s')))"

definition right_first ::
  "('c \<Rightarrow> unit poll \<times> 'c) \<Rightarrow> ('s \<Rightarrow> unit poll \<times> 's) \<Rightarrow> 'c \<Rightarrow> 's \<Rightarrow> (unit + unit) poll \<times> 'c \<times> 's" where
  "right_first fin fut c s =
     (case fut s of
        (Ready _, s') \<Rightarrow> (Ready (Inr ()), c, s')
      | (Pending, s') \<Rightarrow>
          (case fin c of (Ready _, c') \<Rightarrow> (Ready (Inl ()), c', s') | (Pending, c') \<Rightarrow> (Pending, c', s')))"

type_synonym ('c, 's) select =
  "('c \<Rightarrow> unit poll \<times> 'c) \<Rightarrow> ('s \<Rightarrow> unit poll \<times> 's) \<Rightarrow> 'c \<Rightarrow> 's \<Rightarrow> (unit + unit) poll \<times> 'c \<times> 's"

definition select_law :: "('c, 's) select \<Rightarrow> bool" where
  "select_law sel \<longleftrightarrow>
     (\<forall>fin fut c s. sel fin fut c s = left_first fin fut c s \<or> sel fin fut c s = right_first fin fut c s)"

text \<open>
  A task: of a delayed message, of an interval, or of a single send (\<open>do_send\<close>, \<open>do_run\<close>, and the
  removal \<open>cancel\<close> asks for). The first and the last hold a sender, the interval's only a weak one.
\<close>

datatype ('m, 'f) task =
  DelayTask nat duration bool "('m, 'f) context_message"
| IntervalTask nat duration usize loop_pos
| SendTask "('m, 'f) context_message"
| Ended

fun holds_sender :: "('m, 'f) task \<Rightarrow> bool" where
  "holds_sender (DelayTask _ _ _ _) \<longleftrightarrow> True"
| "holds_sender (IntervalTask _ _ _ _) \<longleftrightarrow> False"
| "holds_sender (SendTask _) \<longleftrightarrow> True"
| "holds_sender Ended \<longleftrightarrow> False"

fun task_of :: "('m, 'r, 'f, 'ty, 'v, 'wk) ctx_effect \<Rightarrow> ('m, 'f) task option" where
  "task_of (SpawnDelay cell dur flag msg) = Some (DelayTask cell dur flag msg)"
| "task_of (SpawnInterval cell dur index) = Some (IntervalTask cell dur index AtTick)"
| "task_of (SpawnSend msg) = Some (SendTask msg)"
| "task_of _ = None"

type_synonym ('m, 'f, 'wk) task_select =
  "('wk finisher, loop_pos \<times> ('m, 'f) context_message list) select"

text \<open>
  A poll with the task's waker: the task afterwards, its cell, and what it sent. \<open>timer\<close> is what the
  poll of the task's timer gives.
\<close>

fun poll_task ::
  "('m, 'f, 'wk) task_select \<Rightarrow> unit poll \<Rightarrow> 'wk \<Rightarrow> nat \<Rightarrow> 'wk finisher list \<Rightarrow> ('m, 'f) task
     \<Rightarrow> ('m, 'f) task \<times> 'wk finisher list \<times> ('m, 'f) context_message list" where
  "poll_task sel timer wk strong cs (DelayTask c dur flag msg) =
     (case sel (finisher_poll wk) (\<lambda>s. (timer, s)) (cs ! c) (AtTick, []) of
        (Pending, cell, _) \<Rightarrow> (DelayTask c dur flag msg, cs[c := cell], [])
      | (Ready either, cell, _) \<Rightarrow>
          (Ended, cs[c := cell],
           case delay_on_ready flag msg either of None \<Rightarrow> [] | Some msg \<Rightarrow> [msg]))"
| "poll_task sel timer wk strong cs (IntervalTask c dur index pos) =
     (case sel (finisher_poll wk) (interval_loop_poll timer strong index) (cs ! c) (pos, []) of
        (Pending, cell, pos', out) \<Rightarrow> (IntervalTask c dur index pos', cs[c := cell], out)
      | (Ready _, cell, _, out) \<Rightarrow> (Ended, cs[c := cell], out))"
| "poll_task sel timer wk strong cs (SendTask msg) = (Ended, cs, [msg])"
| "poll_task sel timer wk strong cs Ended = (Ended, cs, [])"

subsection \<open>Tasks and actors together\<close>

text \<open>
  \<open>sys_clients\<close> counts the senders that are not held by a task: those of addresses and streams.
\<close>

record ('a, 'm, 'f, 'wk) system =
  sys_pool :: "('a, 'm, 'f, 'wk) pool"
  sys_tasks :: "('m, 'f) task list"
  sys_clients :: nat

text \<open>The tasks an actor's step spawns.\<close>

fun spawned :: "('m, 'r, 'f, 'ty, 'v, 'wk) event \<Rightarrow> ('m, 'f) task list" where
  "spawned (Handled _ _ _ es) = List.map_filter task_of es"
| "spawned _ = []"

datatype ('m, 'r, 'f, 'ty, 'v, 'wk) sys_event =
  Acted "('m, 'r, 'f, 'ty, 'v, 'wk) event"
| Clients nat bool
| Spawned "('m, 'f) context_message"
| Polled nat "('m, 'f) context_message list" bool
| Cancelled future_handler "('m, 'f) task list"

definition some_receiver :: "('a, 'm, 'f, 'wk) pool \<Rightarrow> bool" where
  "some_receiver p \<longleftrightarrow> (\<exists>mb \<in> set (members p). has_receiver mb)"

text \<open>
  A send by a task; its result is dropped. The channel takes it unless every receiver has gone.
\<close>

definition task_sends :: "('m, 'f) context_message list \<Rightarrow> ('a, 'm, 'f, 'wk) pool \<Rightarrow> ('a, 'm, 'f, 'wk) pool" where
  "task_sends out p = (if some_receiver p then p\<lparr>pl_queue := pl_queue p @ out\<rparr> else p)"

definition set_cells :: "'wk finisher list \<Rightarrow> ('a, 'm, 'f, 'wk) pool \<Rightarrow> ('a, 'm, 'f, 'wk) pool" where
  "set_cells cs p = p\<lparr>pl_shared := (pl_shared p)\<lparr>cells := cs\<rparr>\<rparr>"

definition set_strong :: "nat \<Rightarrow> ('a, 'm, 'f, 'wk) pool \<Rightarrow> ('a, 'm, 'f, 'wk) pool" where
  "set_strong n p = p\<lparr>pl_shared := (pl_shared p)\<lparr>tx_strong := n\<rparr>\<rparr>"

abbreviation strong :: "('a, 'm, 'f, 'wk) pool \<Rightarrow> nat" where "strong p \<equiv> tx_strong (pl_shared p)"
abbreviation cells_of :: "('a, 'm, 'f, 'wk) pool \<Rightarrow> 'wk finisher list" where "cells_of p \<equiv> cells (pl_shared p)"

text \<open>
  The steps: of the actors; of those who hold senders, who clone and drop them and upgrade weak ones,
  and spawn a send; of a task; and a cancellation, through a handler whose cell exists.
\<close>

fun by_clients :: "('m, 'r, 'f, 'ty, 'v, 'wk) event \<Rightarrow> bool" where
  "by_clients (Sent _) \<longleftrightarrow> True"
| "by_clients _ \<longleftrightarrow> False"

fun sender_event :: "('m, 'r, 'f, 'ty, 'v, 'wk) event \<Rightarrow> bool" where
  "sender_event (Senders _ _) \<longleftrightarrow> True"
| "sender_event _ \<longleftrightarrow> False"

inductive sys_step ::
  "('m, 'f, 'wk) task_select \<Rightarrow> ('a, 'm, 'r, 'f, 'ty, 'v) actor_impl \<Rightarrow> (oneshot \<Rightarrow> bool)
     \<Rightarrow> ('a, 'm, 'f, 'wk) system \<Rightarrow> ('m, 'r, 'f, 'ty, 'v, 'wk) sys_event \<Rightarrow> ('a, 'm, 'f, 'wk) system \<Rightarrow> bool"
  for sel impl open_rx where
  SAct: "pool_step impl open_rx (sys_pool s) l p \<Longrightarrow> \<not> sender_event l \<Longrightarrow> by_clients l \<longrightarrow> 0 < sys_clients s \<Longrightarrow>
    sys_step sel impl open_rx s (Acted l) (s\<lparr>sys_pool := p, sys_tasks := sys_tasks s @ spawned l\<rparr>)"
| SClients: "0 < strong (sys_pool s) \<or> n = 0 \<Longrightarrow> pl_group (sys_pool s) \<or> \<not> g \<Longrightarrow>
    sys_step sel impl open_rx s (Clients n g)
      (s\<lparr>sys_pool := set_strong (strong (sys_pool s) - sys_clients s + n) (sys_pool s)\<lparr>pl_group := g\<rparr>,
         sys_clients := n\<rparr>)"
| SSpawn: "0 < sys_clients s \<Longrightarrow>
    sys_step sel impl open_rx s (Spawned msg)
      (s\<lparr>sys_pool := set_strong (sender_clone (strong (sys_pool s))) (sys_pool s),
         sys_tasks := sys_tasks s @ [SendTask msg]\<rparr>)"
| SPoll: "k < length (sys_tasks s) \<Longrightarrow>
    poll_task sel timer wk (strong (sys_pool s)) (cells_of (sys_pool s)) (sys_tasks s ! k) = (t, cs, out) \<Longrightarrow>
    n = (if holds_sender (sys_tasks s ! k) \<and> \<not> holds_sender t
         then sender_drop (strong (sys_pool s)) else strong (sys_pool s)) \<Longrightarrow>
    sys_step sel impl open_rx s (Polled k out (some_receiver (sys_pool s)))
      (s\<lparr>sys_pool := set_strong n (set_cells cs (task_sends out (sys_pool s))),
         sys_tasks := (sys_tasks s)[k := t]\<rparr>)"
| SCancel: "fh_cell h < length (cells_of (sys_pool s)) \<Longrightarrow>
    handler_cancel (0 < strong (sys_pool s)) h (cells_of (sys_pool s)) =
      (cs, es :: ('m, 'r, 'f, 'ty, 'v, 'wk) ctx_effect list) \<Longrightarrow> ts = List.map_filter task_of es \<Longrightarrow>
    sys_step sel impl open_rx s (Cancelled h ts)
      (s\<lparr>sys_pool := set_strong (strong (sys_pool s) + length ts) (set_cells cs (sys_pool s)),
         sys_tasks := sys_tasks s @ ts\<rparr>)"

definition sys_new ::
  "('a actor_context \<times> 'rx option) list \<Rightarrow> 'f actor_state \<Rightarrow> ('a, 'm, 'f, 'wk) system" where
  "sys_new ctxs st = \<lparr>sys_pool = pool_new ctxs st, sys_tasks = [], sys_clients = sender_from\<rparr>"

lemma set_simps [simp]:
  "strong (set_strong n p) = n" "cells_of (set_strong n p) = cells_of p" "members (set_strong n p) = members p"
  "pl_queue (set_strong n p) = pl_queue p"
  "strong (set_cells cs p) = strong p" "cells_of (set_cells cs p) = cs" "members (set_cells cs p) = members p"
  "pl_queue (set_cells cs p) = pl_queue p"
  "strong (task_sends out p) = strong p" "cells_of (task_sends out p) = cells_of p"
  "members (task_sends out p) = members p"
  "pl_queue (task_sends out p) = pl_queue p @ (if some_receiver p then out else [])"
  by (simp_all add: set_strong_def set_cells_def task_sends_def)

subsection \<open>What a step does to senders and cells\<close>

text \<open>A new task has the newest cell.\<close>

fun new_task :: "nat \<Rightarrow> ('m, 'f) task \<Rightarrow> bool" where
  "new_task n (DelayTask c _ _ _) \<longleftrightarrow> c = n"
| "new_task n (IntervalTask c _ _ pos) \<longleftrightarrow> c = n \<and> pos = AtTick"
| "new_task n _ \<longleftrightarrow> False"

definition spawns_only ::
  "('m, 'f) task list \<Rightarrow> ('f, 'wk) shared \<Rightarrow> ('f, 'wk) shared \<Rightarrow> bool" where
  "spawns_only ts sh sh' \<longleftrightarrow>
     (ts = [] \<and> cells sh' = cells sh \<and> tx_strong sh' = tx_strong sh)
   \<or> (\<exists>t. ts = [t] \<and> new_task (length (cells sh)) t \<and> cells sh' = cells sh @ [finisher_new]
        \<and> tx_strong sh' = tx_strong sh + (if holds_sender t then 1 else 0))"

lemma handle_msg_spawns:
  assumes "handle_msg impl open_rx m sh c = (sh', r)"
  shows "spawns_only (case r of None \<Rightarrow> [] | Some (_, _, es) \<Rightarrow> List.map_filter task_of es) sh sh'"
proof (cases m)
  case (Instant im)
  with assms show ?thesis
    by (cases im) (auto simp: spawns_only_def Let_def List.map_filter_simps split: prod.splits option.splits)
next
  case (Delayed dm)
  with assms show ?thesis
    by (auto simp: spawns_only_def handle_delayed_msg_def weak_upgrade_def Let_def List.map_filter_simps
        split: prod.splits if_splits)
next
  case (Interval im)
  with assms show ?thesis
    by (cases im) (auto simp: spawns_only_def Let_def List.map_filter_simps split: prod.splits option.splits)
next
  case (ManualShutDown tx)
  with assms show ?thesis by (auto simp: spawns_only_def List.map_filter_simps split: if_splits)
qed

lemma pool_step_spawns:
  assumes "pool_step impl open_rx p l p'" "\<not> sender_event l"
  shows "spawns_only (spawned l) (pl_shared p) (pl_shared p')"
  using assms
proof (cases rule: pool_step.cases)
  case (PHandle i m sh brk c es)
  with handle_msg_spawns [OF PHandle(4)] show ?thesis by simp
next
  case (PPanic i m sh)
  with handle_msg_spawns [OF PPanic(4)] show ?thesis by simp
next
  case (PLeave i again sh c)
  with context_exit_shared [OF PLeave(4)] show ?thesis by (simp add: spawns_only_def)
qed (use assms in \<open>auto simp: spawns_only_def\<close>)

subsection \<open>What a poll does\<close>

fun task_cell :: "('m, 'f) task \<Rightarrow> nat option" where
  "task_cell (DelayTask c _ _ _) = Some c"
| "task_cell (IntervalTask c _ _ _) = Some c"
| "task_cell _ = None"

text \<open>A poll leaves the cells' flags alone.\<close>

definition same_flags :: "'wk finisher list \<Rightarrow> 'wk finisher list \<Rightarrow> bool" where
  "same_flags cs cs' \<longleftrightarrow> map fin_done cs' = map fin_done cs"

lemma same_flagsD: "same_flags cs cs' \<Longrightarrow> length cs' = length cs \<and> (c < length cs \<longrightarrow> fin_done (cs' ! c) = fin_done (cs ! c))"
  by (metis length_map nth_map same_flags_def)

lemma same_flags_update: "fin_done cell = fin_done (cs ! c) \<Longrightarrow> same_flags cs (cs[c := cell])"
  by (cases "c < length cs") (simp_all add: same_flags_def map_update list_update_same_conv list_update_beyond)

lemma finisher_poll_flag: "finisher_poll wk c = (r, c') \<Longrightarrow> fin_done c' = fin_done c \<and> (r = Ready () \<longleftrightarrow> fin_done c)"
  by (auto simp: finisher_poll_def split: if_splits)

text \<open>\<open>select\<close> of the finisher and a future, whichever it polls first.\<close>

lemma select_cases:
  assumes "select_law sel" and "sel (finisher_poll wk) fut c s = (r, c', s')"
  shows "fin_done c' = fin_done c"
    and "r = Pending \<Longrightarrow> \<not> fin_done c \<and> fut s = (Pending, s')"
    and "r = Ready (Inl x) \<Longrightarrow> fin_done c \<and> (s' = s \<or> fut s = (Pending, s'))"
    and "r = Ready (Inr x) \<Longrightarrow> fut s = (Ready (), s')"
proof -
  from assms have "left_first (finisher_poll wk) fut c s = (r, c', s') \<or> right_first (finisher_poll wk) fut c s = (r, c', s')"
    by (metis select_law_def)
  then have "fin_done c' = fin_done c \<and> (r = Pending \<longrightarrow> \<not> fin_done c \<and> fut s = (Pending, s'))
    \<and> (r = Ready (Inl x) \<longrightarrow> fin_done c \<and> (s' = s \<or> fut s = (Pending, s')))
    \<and> (r = Ready (Inr x) \<longrightarrow> fut s = (Ready (), s'))"
    by (auto simp: left_first_def right_first_def finisher_poll_def split: prod.splits poll.splits if_splits)
  then show "fin_done c' = fin_done c"
    and "r = Pending \<Longrightarrow> \<not> fin_done c \<and> fut s = (Pending, s')"
    and "r = Ready (Inl x) \<Longrightarrow> fin_done c \<and> (s' = s \<or> fut s = (Pending, s'))"
    and "r = Ready (Inr x) \<Longrightarrow> fut s = (Ready (), s')" by simp_all
qed

text \<open>One poll of an interval's loop sends at most one tick.\<close>

definition ticks :: "usize \<Rightarrow> ('m, 'f) context_message list \<Rightarrow> bool" where
  "ticks index out \<longleftrightarrow> out = [] \<or> out = [Interval (Run index)]"

lemma interval_loop_out:
  "interval_loop_poll timer n index (pos, []) = (r, pos', out) \<Longrightarrow> ticks index out"
  by (cases pos) (auto simp: ticks_def from_tick_def interval_tick_def split: poll.splits option.splits prod.splits if_splits)

lemma poll_delay:
  assumes "select_law sel" and "poll_task sel timer wk n cs (DelayTask c d f m) = (t, cs', out)"
  shows "same_flags cs cs'"
    and "t = DelayTask c d f m \<and> out = [] \<or> t = Ended \<and> (out = [m] \<or> out = [] \<and> \<not> f \<and> fin_done (cs ! c))"
proof -
  obtain r cell s where sel: "sel (finisher_poll wk) (\<lambda>s. (timer, s)) (cs ! c) (AtTick, []) = (r, cell, s)"
    by (rule prod_cases3)
  note cases = select_cases [OF assms(1) sel]
  show "same_flags cs cs'"
    using assms(2) sel cases(1) by (auto intro: same_flags_update split: poll.splits prod.splits)
  show "t = DelayTask c d f m \<and> out = [] \<or> t = Ended \<and> (out = [m] \<or> out = [] \<and> \<not> f \<and> fin_done (cs ! c))"
  proof (cases r)
    case Pending
    with assms(2) sel show ?thesis by simp
  next
    case (Ready either)
    with assms(2) sel cases(3) show ?thesis
      by (cases either) (auto simp: delay_on_ready_def split: if_splits)
  qed
qed

lemma poll_interval:
  assumes "select_law sel" and "poll_task sel timer wk n cs (IntervalTask c d i pos) = (t, cs', out)"
  shows "same_flags cs cs'" and "t = Ended \<or> (\<exists>pos'. t = IntervalTask c d i pos' \<and> \<not> fin_done (cs ! c))"
    and "ticks i out"
proof -
  obtain r cell pos' out' where
    sel: "sel (finisher_poll wk) (interval_loop_poll timer n i) (cs ! c) (pos, []) = (r, cell, pos', out')"
    by (rule prod_cases4)
  note cases = select_cases [OF assms(1) sel]
  show "same_flags cs cs'"
    using assms(2) sel cases(1) by (auto intro: same_flags_update split: poll.splits prod.splits)
  have out: "out = out'" using assms(2) sel by (cases r) auto
  show "t = Ended \<or> (\<exists>pos'. t = IntervalTask c d i pos' \<and> \<not> fin_done (cs ! c))"
    using assms(2) sel cases(2) by (cases r) auto
  show "ticks i out"
  proof (cases r)
    case Pending
    with cases(2) out show ?thesis by (auto intro: interval_loop_out)
  next
    case (Ready either)
    show ?thesis
    proof (cases either)
      case (Inl u)
      with Ready cases(3) have "(pos', out') = (pos, []) \<or> interval_loop_poll timer n i (pos, []) = (Pending, pos', out')"
        by auto
      then have "out' = [] \<or> ticks i out'" by (auto dest: interval_loop_out)
      with out show ?thesis by (auto simp: ticks_def)
    next
      case (Inr u)
      with Ready cases(4) out show ?thesis by (auto intro: interval_loop_out)
    qed
  qed
qed

subsection \<open>The invariants\<close>

text \<open>
  What the labels say: the tasks spawned, in order; what the \<open>k\<close>-th sent; and the cells cancelled.
\<close>

fun born :: "('m, 'r, 'f, 'ty, 'v, 'wk) sys_event list \<Rightarrow> ('m, 'f) task list" where
  "born [] = []"
| "born (Acted l # tr) = spawned l @ born tr"
| "born (Spawned msg # tr) = SendTask msg # born tr"
| "born (Cancelled h ts # tr) = ts @ born tr"
| "born (_ # tr) = born tr"

fun outs :: "nat \<Rightarrow> ('m, 'r, 'f, 'ty, 'v, 'wk) sys_event list \<Rightarrow> ('m, 'f) context_message list" where
  "outs k [] = []"
| "outs k (Polled j out _ # tr) = (if j = k then out @ outs k tr else outs k tr)"
| "outs k (_ # tr) = outs k tr"

fun cancelled :: "nat \<Rightarrow> ('m, 'r, 'f, 'ty, 'v, 'wk) sys_event list \<Rightarrow> bool" where
  "cancelled c [] \<longleftrightarrow> False"
| "cancelled c (Cancelled h _ # tr) \<longleftrightarrow> fh_cell h = c \<or> cancelled c tr"
| "cancelled c (_ # tr) \<longleftrightarrow> cancelled c tr"

lemma born_append [simp]: "born (tr @ tr') = born tr @ born tr'"
  by (induction tr rule: born.induct) auto

lemma outs_append [simp]: "outs k (tr @ tr') = outs k tr @ outs k tr'"
  by (induction tr rule: outs.induct) auto

lemma cancelled_append [simp]: "cancelled c (tr @ tr') \<longleftrightarrow> cancelled c tr \<or> cancelled c tr'"
  by (induction tr rule: cancelled.induct) auto

definition holders :: "('m, 'f) task list \<Rightarrow> nat" where
  "holders ts = length (filter holds_sender ts)"

lemma holders_simps [simp]:
  "holders [] = 0" "holders (ts @ us) = holders ts + holders us"
  "holders [t] = (if holds_sender t then 1 else 0)"
  by (simp_all add: holders_def)

lemma holders_update:
  "k < length ts \<Longrightarrow> holders (ts[k := t]) + (if holds_sender (ts ! k) then 1 else 0) =
     holders ts + (if holds_sender t then 1 else 0)"
  unfolding holders_def by (rule length_filter_update)

lemma spawns_only_holders: "spawns_only ts sh sh' \<Longrightarrow> tx_strong sh' = tx_strong sh + holders ts"
  by (auto simp: spawns_only_def)

lemma cancel_tasks:
  assumes "handler_cancel alive h cs = (cs', es)"
  shows "List.map_filter task_of es =
     (case fh_tx h of Some i \<Rightarrow> if alive then [SendTask (Interval (Remove i))] else [] | None \<Rightarrow> [])"
  using assms by (auto simp: handler_cancel_def Let_def List.map_filter_simps split: prod.splits option.splits)

definition accounted :: "('m, 'r, 'f, 'ty, 'v, 'wk) sys_event list \<Rightarrow> ('a, 'm, 'f, 'wk) system \<Rightarrow> bool" where
  "accounted tr s \<longleftrightarrow> strong (sys_pool s) = sys_clients s + holders (sys_tasks s)"

lemma poll_holders:
  assumes "k < length ts" and "poll_task sel timer wk n cs (ts ! k) = (t, cs', out)"
    and "n = m + holders ts"
  shows "(if holds_sender (ts ! k) \<and> \<not> holds_sender t then sender_drop n else n) = m + holders (ts[k := t])"
proof -
  have "holds_sender t \<Longrightarrow> holds_sender (ts ! k)"
    using assms(2) by (cases "ts ! k") (auto split: poll.splits prod.splits)
  with holders_update [OF assms(1), of t] assms(3) show ?thesis by (auto simp: sender_drop_def)
qed

lemma accounted_step:
  assumes "sys_step sel impl open_rx s l s'" "accounted tr s"
  shows "accounted (tr @ [l]) s'"
  using assms
proof (cases rule: sys_step.cases)
  case (SAct l p)
  with spawns_only_holders [OF pool_step_spawns [OF SAct(3,4)]] assms(2) show ?thesis
    by (simp add: accounted_def)
next
  case (SPoll k timer wk t cs out n)
  with poll_holders [OF SPoll(3,4)] assms(2) show ?thesis by (simp add: accounted_def)
next
  case (SCancel h cs es ts)
  with cancel_tasks [OF SCancel(4)] assms(2) show ?thesis
    by (auto simp: accounted_def split: option.splits)
qed (auto simp: accounted_def sender_clone_def)

interpretation accounting: trace_invariant "sys_step sel impl open_rx" accounted for sel impl open_rx
  by unfold_locales (rule accounted_step)

end
