(* ===== verification/Timer_Correct.thy ===== *)
theory Timer_Correct
  imports Timer_Tasks
begin

section \<open>What becomes of delayed messages and intervals\<close>

text \<open>
  Over the steps of \<open>Timer_Tasks\<close>: what each task sends in its life, that a delayed message keeps the
  channel open until it is sent, and that a cancelled interval stops.
\<close>

subsection \<open>The fate of a task\<close>

text \<open>
  A task as it was spawned, as it is now, what it has sent, and whether its cell was cancelled.
\<close>

fun fate ::
  "('m, 'f) task \<Rightarrow> ('m, 'f) task \<Rightarrow> ('m, 'f) context_message list \<Rightarrow> (nat \<Rightarrow> bool) \<Rightarrow> bool" where
  "fate (DelayTask c d f m) now out canc \<longleftrightarrow>
     now = DelayTask c d f m \<and> out = [] \<or> now = Ended \<and> (out = [m] \<or> out = [] \<and> \<not> f \<and> canc c)"
| "fate (IntervalTask c d i pos) now out canc \<longleftrightarrow>
     (now = Ended \<or> (\<exists>pos'. now = IntervalTask c d i pos')) \<and> set out \<subseteq> {Interval (Run i)}"
| "fate (SendTask m) now out canc \<longleftrightarrow> now = SendTask m \<and> out = [] \<or> now = Ended \<and> out = [m]"
| "fate Ended now out canc \<longleftrightarrow> False"

lemma fate_mono: "fate b now out canc \<Longrightarrow> (\<And>c. canc c \<Longrightarrow> canc' c) \<Longrightarrow> fate b now out canc'"
  by (cases b) auto

lemma fate_new: "new_task n t \<Longrightarrow> fate t t [] canc"
  by (cases t) auto

lemma fate_cell: "fate b now out canc \<Longrightarrow> task_cell now = Some c \<Longrightarrow> task_cell b = Some c"
  by (cases b) auto

lemma fate_poll:
  assumes "select_law sel" and "fate b now out canc" and "poll_task sel timer wk n cs now = (t, cs', out')"
    and "\<And>c. task_cell now = Some c \<Longrightarrow> fin_done (cs ! c) \<Longrightarrow> canc c"
  shows "fate b t (out @ out') canc"
proof (cases b)
  case (DelayTask c d f m)
  with assms(2,3) poll_delay(2) [OF assms(1), of timer wk n cs c d f m t cs' out'] assms(4) show ?thesis
    by (cases "now = Ended") auto
next
  case (IntervalTask c d i pos)
  show ?thesis
  proof (cases "now = Ended")
    case False
    with IntervalTask assms(2) obtain pos' where now: "now = IntervalTask c d i pos'" by auto
    from poll_interval(2,3) [OF assms(1) assms(3) [unfolded now]] IntervalTask assms(2) show ?thesis
      by (auto simp: ticks_def)
  qed (use IntervalTask assms(2,3) in auto)
next
  case (SendTask m)
  with assms(2,3) show ?thesis by (cases "now = Ended") auto
qed (use assms(2) in auto)

lemma poll_flags:
  assumes "select_law sel" and "poll_task sel timer wk n cs now = (t, cs', out)"
  shows "same_flags cs cs'"
proof (cases now)
  case (DelayTask c d f m)
  with assms(2) poll_delay(1) [OF assms(1)] show ?thesis by blast
next
  case (IntervalTask c d i pos)
  with assms(2) poll_interval(1) [OF assms(1)] show ?thesis by blast
qed (use assms(2) in \<open>auto simp: same_flags_def\<close>)

definition fates_ok :: "('m, 'r, 'f, 'ty, 'v, 'wk) sys_event list \<Rightarrow> ('a, 'm, 'f, 'wk) system \<Rightarrow> bool" where
  "fates_ok tr s \<longleftrightarrow>
     length (born tr) = length (sys_tasks s)
   \<and> (\<forall>k < length (sys_tasks s). fate (born tr ! k) (sys_tasks s ! k) (outs k tr) (\<lambda>c. cancelled c tr))
   \<and> (\<forall>k \<ge> length (sys_tasks s). outs k tr = [])
   \<and> (\<forall>t \<in> set (born tr). \<forall>c. task_cell t = Some c \<longrightarrow> c < length (cells_of (sys_pool s)))
   \<and> (\<forall>c < length (cells_of (sys_pool s)). fin_done (cells_of (sys_pool s) ! c) \<longrightarrow> cancelled c tr)"

text \<open>A step that adds tasks and cells, and sends nothing by a task.\<close>

lemma fates_ok_more:
  assumes "fates_ok tr s" and "sys_tasks s' = sys_tasks s @ ts" and "born [l] = ts" and "\<And>k. outs k [l] = []"
    and "\<And>t. t \<in> set ts \<Longrightarrow> fate t t [] (\<lambda>_. False)"
    and "\<And>t c. t \<in> set ts \<Longrightarrow> task_cell t = Some c \<Longrightarrow> c < length (cells_of (sys_pool s'))"
    and "length (cells_of (sys_pool s)) \<le> length (cells_of (sys_pool s'))"
    and "\<And>c. c < length (cells_of (sys_pool s')) \<Longrightarrow> fin_done (cells_of (sys_pool s') ! c) \<Longrightarrow>
           c < length (cells_of (sys_pool s)) \<and> fin_done (cells_of (sys_pool s) ! c) \<or> cancelled c [l]"
  shows "fates_ok (tr @ [l]) s'"
  unfolding fates_ok_def
proof (intro conjI allI impI ballI)
  from assms(1-3) show "length (born (tr @ [l])) = length (sys_tasks s')" by (simp add: fates_ok_def)
next
  fix k assume k: "k < length (sys_tasks s')"
  show "fate (born (tr @ [l]) ! k) (sys_tasks s' ! k) (outs k (tr @ [l])) (\<lambda>c. cancelled c (tr @ [l]))"
  proof (cases "k < length (sys_tasks s)")
    case True
    with assms(1-4) have "fate (born (tr @ [l]) ! k) (sys_tasks s' ! k) (outs k (tr @ [l])) (\<lambda>c. cancelled c tr)"
      by (simp add: fates_ok_def nth_append)
    then show ?thesis by (rule fate_mono) simp
  next
    case False
    with k assms(1-3) have "born (tr @ [l]) ! k = sys_tasks s' ! k" and "sys_tasks s' ! k \<in> set ts"
      by (auto simp: fates_ok_def nth_append)
    moreover have "outs k (tr @ [l]) = []" using False assms(1,4) by (simp add: fates_ok_def)
    ultimately show ?thesis using fate_mono [OF assms(5)] by simp
  qed
next
  fix k assume "length (sys_tasks s') \<le> k"
  with assms(1,2,4) show "outs k (tr @ [l]) = []" by (simp add: fates_ok_def)
next
  fix t c assume "t \<in> set (born (tr @ [l]))" "task_cell t = Some c"
  with assms(1,3,6,7) show "c < length (cells_of (sys_pool s'))"
    by (auto simp: fates_ok_def dest: order.strict_trans2)
next
  fix c assume c: "c < length (cells_of (sys_pool s'))" "fin_done (cells_of (sys_pool s') ! c)"
  from assms(8) [OF c] assms(1) show "cancelled c (tr @ [l])" by (auto simp: fates_ok_def)
qed

lemma fates_ok_step:
  assumes law: "select_law sel" and "sys_step sel impl open_rx s l s'" "fates_ok tr s"
  shows "fates_ok (tr @ [l]) s'"
  using assms(2)
proof (cases rule: sys_step.cases)
  case (SAct l p)
  note sp = pool_step_spawns [OF SAct(3,4)]
  show ?thesis
  proof (rule fates_ok_more [OF assms(3), of s' "spawned l"])
    show "sys_tasks s' = sys_tasks s @ spawned l" using SAct by simp
  qed (use SAct sp in \<open>auto simp: spawns_only_def nth_append less_Suc_eq finisher_new_def
        elim: new_task.elims intro: fate_new split: if_splits\<close>)
next
  case (SClients n g)
  then show ?thesis by (intro fates_ok_more [OF assms(3), of s' "[]"]) auto
next
  case (SSpawn msg)
  then show ?thesis by (intro fates_ok_more [OF assms(3), of s' "[SendTask msg]"]) auto
next
  case (SCancel h cs es ts)
  have cs: "cs = (cells_of (sys_pool s))[fh_cell h := snd (finisher_cancel (cells_of (sys_pool s) ! fh_cell h))]"
    using arg_cong [OF SCancel(4), of fst] by (simp add: fst_handler_cancel)
  have ts: "t \<in> set ts \<Longrightarrow> fate t t [] (\<lambda>_. False) \<and> task_cell t = None" for t
    using cancel_tasks [OF SCancel(4)] SCancel(5) by (auto split: option.splits if_splits)
  have s': "sys_tasks s' = sys_tasks s @ ts" "cells_of (sys_pool s') = cs" using SCancel by simp_all
  show ?thesis
  proof (rule fates_ok_more [OF assms(3) s'(1)])
    fix c assume "c < length (cells_of (sys_pool s'))" "fin_done (cells_of (sys_pool s') ! c)"
    then show "c < length (cells_of (sys_pool s)) \<and> fin_done (cells_of (sys_pool s) ! c) \<or> cancelled c [l]"
      using cs s'(2) SCancel(1) by (auto simp: nth_list_update split: if_splits)
  qed (use SCancel(1) cs s'(2) ts in auto)
next
  case (SPoll k timer wk t cs out n)
  from same_flagsD [OF poll_flags [OF law SPoll(4)]]
  have flags: "length cs = length (cells_of (sys_pool s))"
    "\<And>c. c < length cs \<Longrightarrow> fin_done (cs ! c) = fin_done (cells_of (sys_pool s) ! c)" by auto
  have old: "fate (born tr ! k) (sys_tasks s ! k) (outs k tr) (\<lambda>c. cancelled c tr)"
    and cellsb: "\<And>c. task_cell (born tr ! k) = Some c \<Longrightarrow> c < length (cells_of (sys_pool s))"
    using assms(3) SPoll(3) by (auto simp: fates_ok_def)
  have "fate (born tr ! k) t (outs k tr @ out) (\<lambda>c. cancelled c tr)"
    by (rule fate_poll [OF law old SPoll(4)])
      (use assms(3) cellsb fate_cell [OF old] in \<open>auto simp: fates_ok_def\<close>)
  with SPoll flags assms(3) show ?thesis by (auto simp: fates_ok_def nth_list_update)
qed

text \<open>No receiver comes back, so a send by a task is refused only when no actor is left.\<close>

fun refused :: "('m, 'r, 'f, 'ty, 'v, 'wk) sys_event \<Rightarrow> bool" where
  "refused (Polled _ _ ok) \<longleftrightarrow> \<not> ok"
| "refused _ \<longleftrightarrow> False"

lemma moved:
  "i < length ms \<Longrightarrow> mb_phase (ms ! i) \<notin> {Stopped, Dead} \<Longrightarrow>
     \<exists>j mb'. j < length ms \<and> has_receiver (ms ! j) \<and> ms[i := mb] = ms[j := mb']"
  by (intro exI [of _ i] exI [of _ mb]) simp

lemma pool_step_members:
  "pool_step impl open_rx p l p' \<Longrightarrow> members p' = members p
     \<or> (\<exists>i mb. i < length (members p) \<and> has_receiver (members p ! i) \<and> members p' = (members p)[i := mb])"
  by (cases rule: pool_step.cases, assumption)
    (simp_all add: moved [simplified])

lemma some_receiver_back: "pool_step impl open_rx p l p' \<Longrightarrow> some_receiver p' \<Longrightarrow> some_receiver p"
  by (drule pool_step_members) (auto simp: some_receiver_def simp del: has_receiver.simps)

text \<open>What enters and leaves the channel.\<close>

fun sys_sent :: "('m, 'r, 'f, 'ty, 'v, 'wk) sys_event list \<Rightarrow> ('m, 'f) context_message list" where
  "sys_sent [] = []"
| "sys_sent (Acted l # tr) = sent [l] @ sys_sent tr"
| "sys_sent (Polled _ out ok # tr) = (if ok then out else []) @ sys_sent tr"
| "sys_sent (_ # tr) = sys_sent tr"

fun sys_taken :: "('m, 'r, 'f, 'ty, 'v, 'wk) sys_event list \<Rightarrow> (nat \<times> ('m, 'f) context_message) list" where
  "sys_taken [] = []"
| "sys_taken (Acted l # tr) = taken [l] @ sys_taken tr"
| "sys_taken (_ # tr) = sys_taken tr"

lemma sys_sent_append [simp]: "sys_sent (tr @ tr') = sys_sent tr @ sys_sent tr'"
  by (induction tr rule: sys_sent.induct) auto

lemma sys_taken_append [simp]: "sys_taken (tr @ tr') = sys_taken tr @ sys_taken tr'"
  by (induction tr rule: sys_taken.induct) auto

definition channel_ok :: "('m, 'r, 'f, 'ty, 'v, 'wk) sys_event list \<Rightarrow> ('a, 'm, 'f, 'wk) system \<Rightarrow> bool" where
  "channel_ok tr s \<longleftrightarrow>
     sys_sent tr = map snd (sys_taken tr) @ pl_queue (sys_pool s)
   \<and> (some_receiver (sys_pool s) \<longrightarrow> list_all (\<lambda>l. \<not> refused l) tr)"

lemma pool_step_queue:
  "pool_step impl open_rx p l p' \<Longrightarrow> pl_queue p @ sent [l] = map snd (taken [l]) @ pl_queue p'"
  by (cases rule: pool_step.cases, assumption) auto

lemma channel_ok_step:
  assumes "sys_step sel impl open_rx s l s'" "channel_ok tr s"
  shows "channel_ok (tr @ [l]) s'"
  using assms
proof (cases rule: sys_step.cases)
  case (SAct l p)
  with pool_step_queue [OF SAct(3)] some_receiver_back [OF SAct(3)] assms(2) show ?thesis
    by (auto simp: channel_ok_def)
qed (auto simp: channel_ok_def some_receiver_def)

text \<open>What a task sent went into the channel, as long as there was a receiver.\<close>

lemma outs_sent: "list_all (\<lambda>l. \<not> refused l) tr \<Longrightarrow> set (outs k tr) \<subseteq> set (sys_sent tr)"
  by (induction k tr rule: outs.induct) auto

interpretation fates: trace_invariant "sys_step sel impl open_rx" "\<lambda>tr s. select_law sel \<longrightarrow> fates_ok tr s"
  for sel impl open_rx
  by unfold_locales (auto intro: fates_ok_step)

interpretation channel: trace_invariant "sys_step sel impl open_rx" channel_ok for sel impl open_rx
  by unfold_locales (rule channel_ok_step)

subsection \<open>The properties\<close>

text \<open>
  A fresh set of actors has no cells and no senders but the address's; the invariants hold of it.
\<close>

lemma sys_new_ok:
  "accounted [] (sys_new ctxs st)" "fates_ok [] (sys_new ctxs st)" "channel_ok [] (sys_new ctxs st)"
  by (simp_all add: sys_new_def accounted_def fates_ok_def channel_ok_def pool_new_def)

lemma sys_run_ok:
  assumes "select_law sel" and "run (sys_step sel impl open_rx) (sys_new ctxs st) tr s"
  shows "accounted tr s" "fates_ok tr s" "channel_ok tr s"
  using accounting.run_from [OF assms(2) sys_new_ok(1)] fates.run_from [OF assms(2)] assms(1)
    channel.run_from [OF assms(2) sys_new_ok(3)] by (simp_all add: sys_new_ok)

lemma saw_closedD:
  assumes "sys_step sel impl open_rx s (Acted (SawClosed i)) s'"
  shows "strong (sys_pool s) = 0" "pl_queue (sys_pool s) = []" "some_receiver (sys_pool s)"
proof -
  from assms obtain p where "pool_step impl open_rx (sys_pool s) (SawClosed i) p"
    by (auto elim: sys_step.cases)
  then have c: "strong (sys_pool s) = 0" "pl_queue (sys_pool s) = []" "at_phase (sys_pool s) i Receiving"
    by (auto elim: pool_step.cases)
  then have "has_receiver (members (sys_pool s) ! i)" by simp
  with c show "strong (sys_pool s) = 0" "pl_queue (sys_pool s) = []" "some_receiver (sys_pool s)"
    by (auto simp: some_receiver_def simp del: has_receiver.simps intro: nth_mem)
qed

text \<open>
  C16. The channel stays open exactly as long as an address, a stream, a delayed message that waits or a
  single send holds a sender; the tasks of intervals never keep it open.
\<close>

theorem senders_accounted:
  assumes "run (sys_step sel impl open_rx) (sys_new ctxs st) tr s"
  shows "strong (sys_pool s) = sys_clients s + length (filter holds_sender (sys_tasks s))"
  using accounting.run_from [OF assms sys_new_ok(1)] by (simp add: accounted_def holders_def)


text \<open>
  Before that: a delayed message is sent at most once, and is not sent at all only while its task waits,
  or because it was cancelled without \<open>handle_delayed_on_shutdown\<close>.
\<close>

theorem delayed_sent_once:
  assumes "select_law sel" and "run (sys_step sel impl open_rx) (sys_new ctxs st) tr s"
    and "k < length (born tr)" and "born tr ! k = DelayTask c d f m"
  shows "outs k tr = [m]
     \<or> outs k tr = [] \<and> (sys_tasks s ! k = DelayTask c d f m \<or> \<not> f \<and> cancelled c tr)"
proof -
  from sys_run_ok(2) [OF assms(1,2)] assms(3,4)
  have "fate (DelayTask c d f m) (sys_tasks s ! k) (outs k tr) (\<lambda>c. cancelled c tr)"
    by (auto simp: fates_ok_def)
  then show ?thesis by auto
qed

subsection \<open>A cancelled interval\<close>

fun polled :: "nat \<Rightarrow> ('m, 'r, 'f, 'ty, 'v, 'wk) sys_event list \<Rightarrow> bool" where
  "polled k [] \<longleftrightarrow> False"
| "polled k (Polled j _ _ # tr) \<longleftrightarrow> j = k \<or> polled k tr"
| "polled k (_ # tr) \<longleftrightarrow> polled k tr"

lemma polled_append [simp]: "polled k (tr @ tr') \<longleftrightarrow> polled k tr \<or> polled k tr'"
  by (induction tr rule: polled.induct) auto

definition after_cancel ::
  "nat \<Rightarrow> nat \<Rightarrow> usize \<Rightarrow> ('m, 'r, 'f, 'ty, 'v, 'wk) sys_event list \<Rightarrow> ('a, 'm, 'f, 'wk) system \<Rightarrow> bool" where
  "after_cancel k c idx tr s \<longleftrightarrow>
     k < length (sys_tasks s) \<and> c < length (cells_of (sys_pool s)) \<and> fin_done (cells_of (sys_pool s) ! c)
   \<and> (outs k tr = [] \<and> \<not> polled k tr \<and> (\<exists>d pos. sys_tasks s ! k = IntervalTask c d idx pos)
      \<or> ticks idx (outs k tr) \<and> sys_tasks s ! k = Ended)"

lemma after_cancel_step:
  assumes law: "select_law sel" and "sys_step sel impl open_rx s l s'" "after_cancel k c idx tr s"
  shows "after_cancel k c idx (tr @ [l]) s'"
  using assms(2)
proof (cases rule: sys_step.cases)
  case (SAct l p)
  with pool_step_spawns [OF SAct(3,4)] assms(3) show ?thesis
    by (auto simp: after_cancel_def spawns_only_def nth_append)
next
  case (SCancel h cs es ts)
  have "cs = (cells_of (sys_pool s))[fh_cell h := snd (finisher_cancel (cells_of (sys_pool s) ! fh_cell h))]"
    using arg_cong [OF SCancel(4), of fst] by (simp add: fst_handler_cancel)
  then have "length cs = length (cells_of (sys_pool s))"
    "fin_done (cells_of (sys_pool s) ! c) \<Longrightarrow> fin_done (cs ! c)"
    using cancel_cell_done_mono [of "cells_of (sys_pool s)" c "fh_cell h"] by simp_all
  with SCancel(1,2) assms(3) show ?thesis by (auto simp: after_cancel_def nth_append)
next
  case (SPoll j timer wk t cs out n)
  from same_flagsD [OF poll_flags [OF law SPoll(4)]]
  have flags: "length cs = length (cells_of (sys_pool s))"
    "c < length cs \<Longrightarrow> fin_done (cs ! c) = fin_done (cells_of (sys_pool s) ! c)" by auto
  show ?thesis
  proof (cases "j = k")
    case False
    with SPoll flags assms(3) show ?thesis by (auto simp: after_cancel_def)
  next
    case True
    show ?thesis
    proof (cases "sys_tasks s ! k = Ended")
      case True
      with SPoll \<open>j = k\<close> flags assms(3) show ?thesis by (auto simp: after_cancel_def)
    next
      case False
      with assms(3) obtain d pos where "sys_tasks s ! k = IntervalTask c d idx pos" and out: "outs k tr = []"
        by (auto simp: after_cancel_def)
      with SPoll(4) True poll_interval(2,3) [OF law, of timer wk "strong (sys_pool s)" "cells_of (sys_pool s)" c d idx pos t cs out]
        assms(3)
      have "t = Ended" "ticks idx out" by (auto simp: after_cancel_def)
      with SPoll \<open>j = k\<close> flags assms(3) out show ?thesis by (auto simp: after_cancel_def)
    qed
  qed
qed (use assms(3) in \<open>auto simp: after_cancel_def nth_append\<close>)

interpretation cancelling: trace_invariant "sys_step sel impl open_rx"
  "\<lambda>tr s. select_law sel \<longrightarrow> after_cancel k c idx tr s" for sel impl open_rx k c idx
  by unfold_locales (auto intro: after_cancel_step)

text \<open>
  C10. A cancelled interval stops. After \<open>cancel\<close> its task sends at most one more tick, whatever the timer
  does and however often it is polled, and the next poll ends it; with a sender left somewhere the
  cancellation spawns one task, which asks the actors to drop the closure.
\<close>

theorem cancelled_interval_stops:
  fixes impl :: "('a, 'm, 'r, 'f, 'ty, 'v) actor_impl" and s :: "('a, 'm, 'f, 'wk) system"
  assumes law: "select_law sel" and "k < length (sys_tasks s)" and "sys_tasks s ! k = IntervalTask c d idx pos"
    and "fh_cell h = c" and "fh_tx h = Some idx" and "sys_step sel impl open_rx s (Cancelled h ts) s1"
    and "run (sys_step sel impl open_rx) s1 tr2 s2"
  shows "outs k tr2 \<in> {[], [Interval (Run idx)]}
     \<and> (polled k tr2 \<longrightarrow> sys_tasks s2 ! k = Ended)
     \<and> ts = (if 0 < strong (sys_pool s) then [SendTask (Interval (Remove idx))] else [])"
proof -
  from assms(6) obtain cs es where c: "handler_cancel (0 < strong (sys_pool s)) h (cells_of (sys_pool s)) =
      (cs, es :: ('m, 'r, 'f, 'ty, 'v, 'wk) ctx_effect list)" and ts: "ts = List.map_filter task_of es"
    and s1: "sys_tasks s1 = sys_tasks s @ ts" "cells_of (sys_pool s1) = cs"
      "fh_cell h < length (cells_of (sys_pool s))"
    by (auto elim: sys_step.cases)
  have "cs = (cells_of (sys_pool s))[fh_cell h := snd (finisher_cancel (cells_of (sys_pool s) ! fh_cell h))]"
    using arg_cong [OF c, of fst] by (simp add: fst_handler_cancel)
  then have "after_cancel k c idx [] s1"
    using s1 assms(2-4) by (auto simp: after_cancel_def nth_append finisher_cancel_def)
  with cancelling.run_from [OF assms(7)] law have "after_cancel k c idx tr2 s2" by simp
  moreover have "ts = (if 0 < strong (sys_pool s) then [SendTask (Interval (Remove idx))] else [])"
    using cancel_tasks [OF c] assms(5) ts by simp
  ultimately show ?thesis by (auto simp: after_cancel_def ticks_def)
qed

subsection \<open>A removed closure\<close>

abbreviation intervals_of :: "('a, 'm, 'f, 'wk) pool \<Rightarrow> 'f future_container interval_set" where
  "intervals_of p \<equiv> interval_futures (state (pl_shared p))"

text \<open>A key that was issued and is no longer in use; keys are not issued twice.\<close>

definition gone :: "usize \<Rightarrow> 'f interval_set \<Rightarrow> bool" where
  "gone idx fs \<longleftrightarrow> keys_issued fs \<and> interval_get idx fs = None \<and> idx < next_key fs"

text \<open>What a step does to the registry: nothing, or one operation of it.\<close>

definition registry_op :: "'f interval_set \<Rightarrow> 'f interval_set \<Rightarrow> bool" where
  "registry_op fs fs' \<longleftrightarrow> fs' = fs
     \<or> (\<exists>f k. interval_insert f fs = (Some k, fs'))
     \<or> (\<exists>k. fs' = interval_remove k fs)
     \<or> (\<exists>k g f. interval_get k fs = Some g \<and> fs' = interval_put k f fs)"

lemma registry_op_keys: "registry_op fs fs' \<Longrightarrow> keys_issued fs \<Longrightarrow> keys_issued fs'"
  by (auto simp: registry_op_def intro: inv_intros interval_insert_keys_issued)

lemma registry_opI:
  "registry_op fs fs" "interval_insert f fs = (Some k, fs') \<Longrightarrow> registry_op fs fs'"
  "registry_op fs (interval_remove k fs)"
  "interval_get k fs = Some g \<Longrightarrow> registry_op fs (interval_put k f fs)"
  by (auto simp: registry_op_def)

lemma registry_op_gone:
  assumes "registry_op fs fs'" "gone idx fs"
  shows "gone idx fs'"
proof -
  from registry_op_keys [OF assms(1)] assms(2) have "keys_issued fs'" by (simp add: gone_def)
  with assms show ?thesis
    unfolding gone_def registry_op_def
  proof (elim conjE disjE exE)
    fix f k assume "interval_insert f fs = (Some k, fs')" "idx < next_key fs" "interval_get idx fs = None"
    with interval_insert_SomeD [of f fs k fs'] \<open>keys_issued fs'\<close>
    show "keys_issued fs' \<and> interval_get idx fs' = None \<and> idx < next_key fs'"
      by (auto simp: interval_get_def less_usize_Suc order.strict_implies_order)
  qed (auto simp: interval_remove_def interval_put_def interval_get_def)
qed

lemma handle_msg_registry:
  assumes "handle_msg impl open_rx m sh c = (sh', Some r)"
  shows "registry_op (interval_futures (state sh)) (interval_futures (state sh'))"
proof (cases m)
  case (Interval im)
  with assms show ?thesis
    by (cases im) (auto simp: Let_def split: prod.splits option.splits intro: registry_opI)
next
  case (Delayed dm)
  with assms show ?thesis
    by (auto simp: handle_delayed_msg_def Let_def split: prod.splits option.splits intro: registry_opI)
next
  case (Instant im)
  with assms show ?thesis by (auto split: prod.splits intro: registry_opI)
next
  case (ManualShutDown tx)
  with assms show ?thesis by (auto split: if_splits intro: registry_opI)
qed

lemma active_frame [simp]:
  "interval_futures (snd (inc_active st)) = interval_futures st"
  "interval_futures (snd (dec_active st)) = interval_futures st"
  by (simp_all add: inc_active_def dec_active_def modify_active_eq)

lemma pool_step_registry:
  assumes "pool_step impl open_rx p l p'" "\<not> panics_on l"
  shows "registry_op (intervals_of p) (intervals_of p')"
  using assms
proof (cases rule: pool_step.cases)
  case (PHandle i m sh brk c es)
  with handle_msg_registry [OF PHandle(4)] show ?thesis by simp
next
  case (PLeave i again sh c)
  with context_exit_shared [OF PLeave(4)] show ?thesis by (simp add: registry_op_def)
qed (use assms(2) in \<open>auto simp: registry_op_def\<close>)

fun sys_panics :: "('m, 'r, 'f, 'ty, 'v, 'wk) sys_event \<Rightarrow> bool" where
  "sys_panics (Acted l) \<longleftrightarrow> panics_on l"
| "sys_panics _ \<longleftrightarrow> False"

lemma sys_step_registry:
  assumes "sys_step sel impl open_rx s l s'" "\<not> sys_panics l"
  shows "registry_op (intervals_of (sys_pool s)) (intervals_of (sys_pool s'))"
  using assms
proof (cases rule: sys_step.cases)
  case (SAct l p)
  with pool_step_registry [OF SAct(3)] assms(2) show ?thesis by simp
qed (auto simp: registry_op_def set_strong_def set_cells_def task_sends_def)

interpretation issued: trace_invariant "sys_step sel impl open_rx"
  "\<lambda>tr s. list_all (\<lambda>l. \<not> sys_panics l) tr \<longrightarrow> keys_issued (intervals_of (sys_pool s))" for sel impl open_rx
  by unfold_locales (auto dest: sys_step_registry registry_op_keys)

interpretation removed: trace_invariant "sys_step sel impl open_rx"
  "\<lambda>tr s. list_all (\<lambda>l. \<not> sys_panics l) tr \<longrightarrow> gone idx (intervals_of (sys_pool s))" for sel impl open_rx idx
  by unfold_locales (auto dest: sys_step_registry registry_op_gone)

lemma handled_interval:
  assumes "sys_step sel impl open_rx s (Acted (Handled i (Interval m) brk es)) s'"
  shows "\<exists>c sh. handle_interval_msg impl m (pl_shared (sys_pool s)) (mb_ctx (members (sys_pool s) ! i)) = (sh, Some (c, es))
     \<and> i < length (members (sys_pool s)) \<and> pl_shared (sys_pool s') = sh
     \<and> members (sys_pool s') = (members (sys_pool s))
         [i := (members (sys_pool s) ! i)\<lparr>mb_ctx := c, mb_phase := Receiving\<rparr>]"
proof -
  from assms obtain p where "pool_step impl open_rx (sys_pool s) (Handled i (Interval m) brk es) p" "sys_pool s' = p"
    by (auto elim: sys_step.cases)
  then show ?thesis by (auto elim!: pool_step.cases split: prod.splits option.splits)
qed

text \<open>
  C11. Once an actor has handled the removal a cancellation asks for, the closure never runs again: ticks
  that were still in the channel, or that another actor takes later, leave every actor and the
  registry as they are, also when other closures are registered meanwhile.
\<close>

theorem removed_interval_never_runs:
  fixes ctxs :: "('a actor_context \<times> 'rx option) list"
  assumes "run (sys_step sel impl open_rx) (sys_new ctxs (actor_state_new cfg)) tr s"
    and "interval_get idx (intervals_of (sys_pool s)) \<noteq> None"
    and "sys_step sel impl open_rx s (Acted (Handled j (Interval (Remove idx)) brk es)) s1"
    and "run (sys_step sel impl open_rx) s1 tr2 s2" and "list_all (\<lambda>l. \<not> sys_panics l) (tr @ tr2)"
    and "sys_step sel impl open_rx s2 (Acted (Handled i (Interval (Run idx)) brk' es')) s3"
  shows "map (actor \<circ> mb_ctx) (members (sys_pool s3)) = map (actor \<circ> mb_ctx) (members (sys_pool s2))
     \<and> pl_shared (sys_pool s3) = pl_shared (sys_pool s2) \<and> es' = []"
proof -
  have "keys_issued (intervals_of (sys_pool (sys_new ctxs (actor_state_new cfg))))"
    by (simp add: sys_new_def pool_new_def actor_state_new_def keys_issued_default)
  with issued.run_from [OF assms(1)] assms(5)
  have issued: "keys_issued (intervals_of (sys_pool s))" by simp
  then have "idx < next_key (intervals_of (sys_pool s))"
    using assms(2) by (auto simp: keys_issued_def interval_get_def)
  with handled_interval [OF assms(3)] issued have "gone idx (intervals_of (sys_pool s1))"
    using interval_remove_keys_issued [OF issued, of idx] by (auto simp: gone_def interval_get_def interval_remove_def)
  with removed.run_from [OF assms(4), of idx] assms(5)
  have "interval_get idx (intervals_of (sys_pool s2)) = None" by (simp add: gone_def)
  with handled_interval [OF assms(6)] show ?thesis
    by (auto simp: map_update o_def intro!: list_update_same_conv [THEN iffD2])
qed

end
