(* ===== verification/Timer_Play.thy ===== *)
theory Timer_Play
  imports Timer_Correct Actor_Set_Play
begin

section \<open>An interpreter for the steps of tasks and actors\<close>

text \<open>
  The steps of \<open>Timer_Tasks\<close> as a function, over the interpreter of the actors' steps. A move is what a
  scheduler decides: whose turn it is, and for a task what its timer says.
\<close>

datatype ('m, 'f, 'wk) sys_move =
  MAct "('m, 'f) move"
| MClients nat bool
| MSpawn "('m, 'f) context_message"
| MPoll nat "unit poll" 'wk
| MCancel future_handler

fun sys_fire ::
  "('m, 'f, 'wk) task_select \<Rightarrow> ('a, 'm, 'r, 'f, 'ty, 'v) actor_impl \<Rightarrow> (oneshot \<Rightarrow> bool)
     \<Rightarrow> ('m, 'f, 'wk) sys_move \<Rightarrow> ('a, 'm, 'f, 'wk) system
     \<Rightarrow> (('m, 'r, 'f, 'ty, 'v, 'wk) sys_event \<times> ('a, 'm, 'f, 'wk) system) option" where
  "sys_fire sel impl open_rx (MAct mv) s =
     (case fire impl open_rx mv (sys_pool s) of
        None \<Rightarrow> None
      | Some (l, p) \<Rightarrow>
          if \<not> sender_event l \<and> (by_clients l \<longrightarrow> 0 < sys_clients s)
          then Some (Acted l, s\<lparr>sys_pool := p, sys_tasks := sys_tasks s @ spawned l\<rparr>) else None)"
| "sys_fire sel impl open_rx (MClients n g) s =
     (if (0 < strong (sys_pool s) \<or> n = 0) \<and> (pl_group (sys_pool s) \<or> \<not> g)
      then Some (Clients n g,
        s\<lparr>sys_pool := set_strong (strong (sys_pool s) - sys_clients s + n) (sys_pool s)\<lparr>pl_group := g\<rparr>,
          sys_clients := n\<rparr>)
      else None)"
| "sys_fire sel impl open_rx (MSpawn msg) s =
     (if 0 < sys_clients s
      then Some (Spawned msg,
        s\<lparr>sys_pool := set_strong (sender_clone (strong (sys_pool s))) (sys_pool s),
          sys_tasks := sys_tasks s @ [SendTask msg]\<rparr>)
      else None)"
| "sys_fire sel impl open_rx (MPoll k timer wk) s =
     (if k < length (sys_tasks s)
      then (case poll_task sel timer wk (strong (sys_pool s)) (cells_of (sys_pool s)) (sys_tasks s ! k) of
              (t, cs, out) \<Rightarrow> Some (Polled k out (some_receiver (sys_pool s)),
                s\<lparr>sys_pool := set_strong
                    (if holds_sender (sys_tasks s ! k) \<and> \<not> holds_sender t
                     then sender_drop (strong (sys_pool s)) else strong (sys_pool s))
                    (set_cells cs (task_sends out (sys_pool s))),
                  sys_tasks := (sys_tasks s)[k := t]\<rparr>))
      else None)"
| "sys_fire sel impl open_rx (MCancel h) s =
     (if fh_cell h < length (cells_of (sys_pool s))
      then (case handler_cancel (0 < strong (sys_pool s)) h (cells_of (sys_pool s)) of
              (cs, es) \<Rightarrow>
                let ts = List.map_filter task_of (es :: ('m, 'r, 'f, 'ty, 'v, 'wk) ctx_effect list)
                in Some (Cancelled h ts,
                     s\<lparr>sys_pool := set_strong (strong (sys_pool s) + length ts) (set_cells cs (sys_pool s)),
                       sys_tasks := sys_tasks s @ ts\<rparr>))
      else None)"

lemma sys_fire_sound: "sys_fire sel impl open_rx mv s = Some (l, s') \<Longrightarrow> sys_step sel impl open_rx s l s'"
  by (cases mv)
    (auto split: if_splits prod.splits option.splits simp: Let_def
      dest!: fire_sound intro: sys_step.intros)

fun sys_play ::
  "('m, 'f, 'wk) task_select \<Rightarrow> ('a, 'm, 'r, 'f, 'ty, 'v) actor_impl \<Rightarrow> (oneshot \<Rightarrow> bool)
     \<Rightarrow> ('m, 'f, 'wk) sys_move list \<Rightarrow> ('a, 'm, 'f, 'wk) system
     \<Rightarrow> (('m, 'r, 'f, 'ty, 'v, 'wk) sys_event list \<times> ('a, 'm, 'f, 'wk) system) option" where
  "sys_play sel impl open_rx [] s = Some ([], s)"
| "sys_play sel impl open_rx (mv # mvs) s =
     (case sys_fire sel impl open_rx mv s of
        None \<Rightarrow> None
      | Some (l, s1) \<Rightarrow> map_option (\<lambda>(tr, s2). (l # tr, s2)) (sys_play sel impl open_rx mvs s1))"

lemma sys_play_run:
  "sys_play sel impl open_rx mvs s = Some (tr, s') \<Longrightarrow> run (sys_step sel impl open_rx) s tr s'"
proof (induction mvs arbitrary: s tr)
  case (Cons mv mvs)
  then obtain l s1 tr1 where l: "sys_fire sel impl open_rx mv s = Some (l, s1)"
    and rest: "sys_play sel impl open_rx mvs s1 = Some (tr1, s')" and tr: "tr = l # tr1"
    by (auto split: option.splits)
  from run_append [OF Cons.IH [OF rest] run_one [of "sys_step sel impl open_rx", OF sys_fire_sound [OF l]]]
  show ?case by (simp add: tr)
qed simp

subsection \<open>The theorems at work\<close>

lemma left_first_law: "select_law left_first"
  by (simp add: select_law_def)

lemmas play_defs =
  demo_pair_def pool_new_def sys_new_def demo_impl_def context_new_def sender_from_def demo_two_def
  actor_state_new_def state_allow_broadcast_def put_def inc_active_def dec_active_def modify_active_def
  MARKER_def UNIT_eq config_default_def context_exit_def state_restart_on_err_def
  interval_default_def interval_insert_def interval_get_def interval_remove_def interval_put_def
  push_handler_def is_running_def attach_tx_def handle_delayed_msg_def weak_upgrade_def
  handle_delay_on_shutdown_def Let_def left_first_def finisher_poll_def finisher_new_def
  delay_on_ready_def set_strong_def set_cells_def task_sends_def some_receiver_def sender_clone_def
  sender_drop_def from_tick_def runtime_tick_def interval_tick_def yield_now_poll_def
  handler_cancel_def finisher_cancel_def List.map_filter_simps

text \<open>
  Of two actors only the first has started. A delayed message is sent, the address is dropped, the
  delay passes, and the message is handled before the actor sees the channel closed.
\<close>

definition delayed_moves :: "(nat, nat, nat) sys_move list" where
  "delayed_moves =
     [MAct (MStart 0), MAct (MSend (Delayed (DelayedStatic 5 50))), MAct (MTake 0), MAct (MHandle 0),
      MClients 0 False, MPoll 0 Pending 1, MPoll 0 (Ready ()) 1, MAct (MTake 0), MAct (MHandle 0)]"

lemma delayed_plays:
  "\<exists>tr s s'. sys_play left_first demo_impl (\<lambda>_. True) delayed_moves (sys_new demo_pair demo_two) = Some (tr, s)
     \<and> sys_fire left_first demo_impl (\<lambda>_. True) (MAct (MClosed 0)) s = Some (Acted (SawClosed 0), s')
     \<and> born tr = [DelayTask 0 50 False (static_msg (None, 5))] \<and> \<not> cancelled 0 tr
     \<and> sys_taken tr = [(0, Delayed (DelayedStatic 5 50)), (0, static_msg (None, 5))]
     \<and> sys_tasks s = [Ended] \<and> sys_clients s = 0"
  by (simp add: delayed_moves_def play_defs)


text \<open>While the delay runs the task alone keeps the channel open.\<close>

theorem senders_accounted_witness:
  "\<exists>tr s. sys_play left_first demo_impl (\<lambda>_. True) (take 5 delayed_moves) (sys_new demo_pair demo_two) = Some (tr, s)
     \<and> sys_clients s = 0 \<and> strong (sys_pool s) = 1"
proof -
  obtain tr s where p: "sys_play left_first demo_impl (\<lambda>_. True) (take 5 delayed_moves)
      (sys_new demo_pair demo_two) = Some (tr, s)" "sys_clients s = 0" "length (filter holds_sender (sys_tasks s)) = 1"
    by (simp add: delayed_moves_def play_defs)
  from senders_accounted [OF sys_play_run [OF p(1)]] p show ?thesis by simp
qed

text \<open>The same message, cancelled: without \<open>handle_delayed_on_shutdown\<close> it is never sent.\<close>

theorem delayed_sent_once_witness:
  "\<exists>tr s. sys_play left_first demo_impl (\<lambda>_. True)
       (take 5 delayed_moves @ [MCancel \<lparr>fh_cell = 0, fh_tx = None\<rparr>, MPoll 0 Pending 1])
       (sys_new demo_pair demo_two) = Some (tr, s)
     \<and> outs 0 tr = [] \<and> cancelled 0 tr"
proof -
  obtain tr s where p: "sys_play left_first demo_impl (\<lambda>_. True)
      (take 5 delayed_moves @ [MCancel \<lparr>fh_cell = 0, fh_tx = None\<rparr>, MPoll 0 Pending 1])
      (sys_new demo_pair demo_two) = Some (tr, s)"
    and b: "born tr = [DelayTask 0 50 False (static_msg (None, 5))]" "sys_tasks s = [Ended]"
      "static_msg (None, 5) \<notin> set (outs 0 tr)"
    by (simp add: delayed_moves_def play_defs)
  from delayed_sent_once [OF left_first_law sys_play_run [OF p], of 0 0 50 False] b p
  show ?thesis by auto
qed

text \<open>
  An interval is registered and ticks once; then it is cancelled, while its task is at \<open>yield_now\<close>. The
  second run goes on: the removal is sent and handled, and the tick that was still in the channel
  changes nothing.
\<close>

definition interval_moves :: "(nat, nat, nat) sys_move list" where
  "interval_moves =
     [MAct (MStart 0), MAct (MSend (Interval (Register 9 \<lparr>func = 5\<rparr> 100))), MAct (MTake 0), MAct (MHandle 0),
      MPoll 0 (Ready ()) 1, MPoll 0 Pending 1]"

abbreviation demo_handler :: future_handler where "demo_handler \<equiv> \<lparr>fh_cell = 0, fh_tx = Some 0\<rparr>"

theorem cancelled_interval_stops_witness:
  "\<exists>tr s ts s1 tr2 s2.
     sys_play left_first demo_impl (\<lambda>_. True) interval_moves (sys_new demo_pair demo_two) = Some (tr, s)
   \<and> sys_fire left_first demo_impl (\<lambda>_. True) (MCancel demo_handler) s = Some (Cancelled demo_handler ts, s1)
   \<and> sys_play left_first demo_impl (\<lambda>_. True) [MPoll 0 (Ready ()) 1, MPoll 0 (Ready ()) 1] s1 = Some (tr2, s2)
   \<and> outs 0 tr = [Interval (Run 0)] \<and> sys_tasks s2 ! 0 = Ended \<and> ts = [SendTask (Interval (Remove 0))]"
proof -
  obtain tr s ts s1 tr2 s2 where
    p: "sys_play left_first demo_impl (\<lambda>_. True) interval_moves (sys_new demo_pair demo_two) = Some (tr, s)"
      "outs 0 tr = [Interval (Run 0)]" "0 < strong (sys_pool s)"
      "0 < length (sys_tasks s)" "sys_tasks s ! 0 = IntervalTask 0 100 0 AtTick"
    and c: "sys_fire left_first demo_impl (\<lambda>_. True) (MCancel demo_handler) s = Some (Cancelled demo_handler ts, s1)"
    and q: "sys_play left_first demo_impl (\<lambda>_. True) [MPoll 0 (Ready ()) 1, MPoll 0 (Ready ()) 1] s1 = Some (tr2, s2)"
      "polled 0 tr2"
    by (simp add: interval_moves_def play_defs)
  from cancelled_interval_stops [OF left_first_law p(4,5) _ _ sys_fire_sound [OF c] sys_play_run [OF q(1)]]
  have "sys_tasks s2 ! 0 = Ended \<and> ts = [SendTask (Interval (Remove 0))]" using q(2) p(3) by simp
  with p(1,2) c q(1) show ?thesis by blast
qed

theorem removed_interval_never_runs_witness:
  "\<exists>tr s. sys_play left_first demo_impl (\<lambda>_. True)
       (interval_moves @ [MCancel demo_handler, MPoll 1 Pending 1, MAct (MStart 1), MAct (MTake 0), MAct (MTake 1),
          MAct (MHandle 1), MAct (MHandle 0)]) (sys_new demo_pair demo_two) = Some (tr, s)
     \<and> Acted (Handled 0 (Interval (Run 0)) False []) \<in> set tr
     \<and> map (actor \<circ> mb_ctx) (members (sys_pool s)) = [1, 2]"
proof -
  let ?moves = "interval_moves @ [MCancel demo_handler, MPoll 1 Pending 1, MAct (MStart 1), MAct (MTake 0), MAct (MTake 1)]"
  obtain tr s s1 s2 where
    p: "sys_play left_first demo_impl (\<lambda>_. True) ?moves (sys_new demo_pair demo_two) = Some (tr, s)"
      "interval_get 0 (intervals_of (sys_pool s)) \<noteq> None" "list_all (\<lambda>l. \<not> sys_panics l) tr"
    and r: "sys_fire left_first demo_impl (\<lambda>_. True) (MAct (MHandle 1)) s =
        Some (Acted (Handled 1 (Interval (Remove 0)) False []), s1)" "map (actor \<circ> mb_ctx) (members (sys_pool s1)) = [1, 2]"
    and q: "sys_fire left_first demo_impl (\<lambda>_. True) (MAct (MHandle 0)) s1 =
        Some (Acted (Handled 0 (Interval (Run 0)) False []), s2)"
    and all: "\<exists>tr s. sys_play left_first demo_impl (\<lambda>_. True) (?moves @ [MAct (MHandle 1), MAct (MHandle 0)])
        (sys_new demo_pair demo_two) = Some (tr, s) \<and> s = s2 \<and> Acted (Handled 0 (Interval (Run 0)) False []) \<in> set tr"
    by (simp add: interval_moves_def play_defs)
  from removed_interval_never_runs [OF sys_play_run [OF p(1), unfolded demo_two_def] p(2) sys_fire_sound [OF r(1)] RunNil _ sys_fire_sound [OF q]]
    p(3) r(2) all
  show ?thesis by auto
qed

end
