(* ===== verification/Runtime_Features.thy ===== *)
theory Runtime_Features
  imports Actor_Builder
begin

section \<open>The crate's features (\<open>src/util/runtime.rs\<close>, \<open>src/util/channel.rs\<close>, \<open>src/receiver.rs\<close>)\<close>

text \<open>
  A feature of \<open>Cargo.toml\<close> chooses the runtime, and one of them the channel. Each \<open>#[cfg]\<close> is a
  condition on the set of features; what is compiled is the list of the invocations whose condition
  holds. A crate that gets none of a function, or two, does not compile.
\<close>

record features =
  tokio_runtime :: bool
  async_std_runtime :: bool
  actix_runtime :: bool
  actix_runtime_mpsc :: bool

text \<open>The three invocations of \<open>runtime_impl!\<close>, and the three bodies of \<open>spawn_blocking\<close>.\<close>

definition runtime_impls :: "features \<Rightarrow> runtime list" where
  "runtime_impls f =
     (if tokio_runtime f \<and> \<not> (async_std_runtime f \<or> actix_runtime f \<or> actix_runtime_mpsc f)
      then [TokioRuntime] else []) @
     (if async_std_runtime f \<and> \<not> (tokio_runtime f \<or> actix_runtime f \<or> actix_runtime_mpsc f)
      then [AsyncStdRuntime] else []) @
     (if (actix_runtime f \<or> actix_runtime_mpsc f) \<and> \<not> (tokio_runtime f \<or> async_std_runtime f)
      then [ActixRuntime] else [])"

definition blocking_bodies :: "features \<Rightarrow> runtime list" where
  "blocking_bodies f =
     (if tokio_runtime f \<and> \<not> (async_std_runtime f \<or> actix_runtime f \<or> actix_runtime_mpsc f)
      then [TokioRuntime] else []) @
     (if async_std_runtime f \<and> \<not> (tokio_runtime f \<or> actix_runtime f \<or> actix_runtime_mpsc f)
      then [AsyncStdRuntime] else []) @
     (if (actix_runtime f \<or> actix_runtime_mpsc f) \<and> \<not> (async_std_runtime f \<or> tokio_runtime f)
      then [ActixRuntime] else [])"

text \<open>\<open>compile_error!\<close> in \<open>src/lib.rs\<close>, and the one runtime a crate is built for.\<close>

definition compile_error :: "features \<Rightarrow> bool" where
  "compile_error f \<longleftrightarrow> tokio_runtime f \<and> async_std_runtime f"

definition runtime_for :: "features \<Rightarrow> runtime option" where
  "runtime_for f =
     (if compile_error f then None
      else case (runtime_impls f, blocking_bodies f) of ([rt], [_]) \<Rightarrow> Some rt | _ \<Rightarrow> None)"

text \<open>\<open>runtime::spawn\<close> awaits the future and drops what it returns: a spawned task yields nothing.\<close>

definition runtime_spawn :: "'x poll \<Rightarrow> unit poll" where
  "runtime_spawn f = map_poll (\<lambda>_. ()) f"

subsection \<open>The channel\<close>

text \<open>
  async-channel's receivers can be cloned; the receiver of tokio's mpsc cannot, and \<open>clone\<close> panics,
  which is \<open>None\<close>. The capacity asked for a broadcast channel is used by the first only. Closing is
  reported alike, from the error of one and the \<open>None\<close> of the other.
\<close>

definition receiver_clone :: "features \<Rightarrow> 'rx \<Rightarrow> 'rx option" where
  "receiver_clone f rx = (if actix_runtime_mpsc f then None else Some rx)"

definition bounded_capacity :: "features \<Rightarrow> usize \<Rightarrow> usize option" where
  "bounded_capacity f cap = (if actix_runtime_mpsc f then None else Some cap)"

definition mpsc_receiver_recv :: "('ch \<Rightarrow> ('m option \<times> 'ch) poll) \<Rightarrow> 'ch \<Rightarrow> ('m send_result \<times> 'ch) poll" where
  "mpsc_receiver_recv recv ch = map_poll (map_prod (ok_or Closed) id) (recv ch)"

subsection \<open>Starting, with the channel of the feature\<close>

text \<open>
  \<open>Builder::start\<close> and \<open>start_with_arbiters\<close> as in \<open>Actor_Builder\<close>, with the receiver's \<open>clone\<close> for
  every actor unless there is exactly one. A panic is \<open>None\<close>.
\<close>

fun start_loop_for ::
  "features \<Rightarrow> 'ch \<Rightarrow> ('w \<Rightarrow> 'a \<times> 'w) \<Rightarrow> ('w, 'tx, 'rx) bounded_channel \<Rightarrow> 'f actor_state \<Rightarrow> usize \<Rightarrow> nat list
     \<Rightarrow> 'tx list \<Rightarrow> 'w \<Rightarrow> (('a actor_context \<times> 'rx option) list \<times> 'tx list \<times> 'w) option" where
  "start_loop_for f rx build bounded st n [] senders w = Some ([], senders, w)"
| "start_loop_for f rx build bounded st n (i # is) senders w =
     (let (act, w1) = build w;
          (brx, senders1, w2) = broadcast_receiver bounded st n senders w1
      in case receiver_clone f rx of
           None \<Rightarrow> None
         | Some _ \<Rightarrow> map_option (\<lambda>(ctxs, senders2, w3). ((context_new (of_nat i) brx act, brx) # ctxs, senders2, w3))
                      (start_loop_for f rx build bounded st n is senders1 w2))"

definition builder_start_for ::
  "features \<Rightarrow> 'ch \<Rightarrow> ('w \<Rightarrow> 'a \<times> 'w) \<Rightarrow> ('w, nat, 'rx) bounded_channel \<Rightarrow> nat \<Rightarrow> config \<Rightarrow> 'w
     \<Rightarrow> (('a actor_context \<times> 'rx option) list \<times> ('ty, 'v, 'm) address \<times> 'f actor_state \<times> 'w) option" where
  "builder_start_for f rx build bounded tx c w =
     (let n = num c; st = actor_state_new c
      in if n = 1
         then (let (act, w1) = build w;
                   (brx, senders, w2) = broadcast_receiver bounded st n [] w1
               in Some ([(context_new 0 brx act, brx)], address_new tx senders st, st, w2))
         else map_option (\<lambda>(ctxs, senders, w1). (ctxs, address_new tx senders st, st, w1))
                (start_loop_for f rx build bounded st n [0..<unat n] [] w))"

fun arbiters_loop_for ::
  "features \<Rightarrow> 'ch \<Rightarrow> ('w, 'tx, 'rx) bounded_channel \<Rightarrow> 'f actor_state \<Rightarrow> usize \<Rightarrow> nat \<Rightarrow> nat list \<Rightarrow> 'tx list \<Rightarrow> 'w
     \<Rightarrow> ('rx placement list \<times> 'tx list \<times> 'w) option" where
  "arbiters_loop_for f rx bounded st n len [] senders w = Some ([], senders, w)"
| "arbiters_loop_for f rx bounded st n len (i # is) senders w =
     (if len = 0 then None
      else (let index = i mod len;
                (brx, senders1, w1) = broadcast_receiver bounded st n senders w
            in if \<not> index < len then None
               else case receiver_clone f rx of
                      None \<Rightarrow> None
                    | Some _ \<Rightarrow> map_option
                        (\<lambda>(pls, senders2, w2).
                           (\<lparr>pl_arbiter = index, pl_id = of_nat i, pl_rx = brx\<rparr> # pls, senders2, w2))
                        (arbiters_loop_for f rx bounded st n len is senders1 w1)))"

definition start_with_arbiters_for ::
  "features \<Rightarrow> 'ch \<Rightarrow> ('w, nat, 'rx) bounded_channel \<Rightarrow> nat \<Rightarrow> config \<Rightarrow> nat \<Rightarrow> nat option \<Rightarrow> 'w
     \<Rightarrow> ('rx placement list \<times> ('ty, 'v, 'm) address \<times> 'f actor_state \<times> 'w) option" where
  "start_with_arbiters_for f rx bounded tx c len index w =
     (let n = num c; st = actor_state_new c
      in if n = 1
         then (let index = (case index of None \<Rightarrow> 0 | Some i \<Rightarrow> i)
               in if \<not> index < len then None
                  else Some ([\<lparr>pl_arbiter = index, pl_id = 0, pl_rx = None\<rparr>], address_new tx [] st, st, w))
         else map_option (\<lambda>(pls, senders, w1). (pls, address_new tx senders st, st, w1))
                (arbiters_loop_for f rx bounded st n len [0..<unat n] [] w))"

subsection \<open>Exactly one runtime\<close>

text \<open>
  The conditions on the features exclude one another: a crate compiles exactly with one of the
  three runtimes, the two features of actix counting as one, and then every function of the runtime
  and the body of \<open>spawn_blocking\<close> are that runtime's. The explicit \<open>compile_error!\<close> covers one of
  the combinations that do not compile.
\<close>

theorem one_runtime:
  "runtime_for f =
     (case (tokio_runtime f, async_std_runtime f, actix_runtime f \<or> actix_runtime_mpsc f) of
        (True, False, False) \<Rightarrow> Some TokioRuntime
      | (False, True, False) \<Rightarrow> Some AsyncStdRuntime
      | (False, False, True) \<Rightarrow> Some ActixRuntime
      | _ \<Rightarrow> None)
   \<and> runtime_impls f = blocking_bodies f \<and> length (runtime_impls f) \<le> 1"
  by (cases "tokio_runtime f"; cases "async_std_runtime f"; cases "actix_runtime f"; cases "actix_runtime_mpsc f")
    (simp_all add: runtime_for_def runtime_impls_def blocking_bodies_def compile_error_def)

subsection \<open>Starting several actors\<close>

lemma start_loop_for_async:
  "\<not> actix_runtime_mpsc f \<Longrightarrow>
     start_loop_for f rx build bounded st n is senders w = Some (start_loop build bounded st n is senders w)"
  by (induction "is" arbitrary: senders w) (simp_all add: receiver_clone_def Let_def split_def)

lemma start_loop_for_mpsc:
  "actix_runtime_mpsc f \<Longrightarrow> start_loop_for f rx build bounded st n is senders w = None \<longleftrightarrow> is \<noteq> []"
  by (cases "is") (simp_all add: receiver_clone_def Let_def split_def)

lemma arbiters_loop_for_async:
  "\<not> actix_runtime_mpsc f \<Longrightarrow>
     arbiters_loop_for f rx bounded st n len is senders w = arbiters_loop bounded st n len is senders w"
  by (induction "is" arbitrary: senders w) (simp_all add: receiver_clone_def Let_def split_def)

lemma arbiters_loop_for_mpsc:
  "actix_runtime_mpsc f \<Longrightarrow> arbiters_loop_for f rx bounded st n len is senders w = None \<longleftrightarrow> is \<noteq> []"
  by (cases "is") (simp_all add: receiver_clone_def Let_def split_def)

lemma usize_above_one: "(1 :: usize) < n \<longleftrightarrow> n \<noteq> 1 \<and> [0..<unat n] \<noteq> []"
proof -
  have "(1 :: usize) < n \<longleftrightarrow> 1 < unat n" by (simp add: word_less_nat_alt)
  moreover have "n = 1 \<longleftrightarrow> unat n = 1" by (simp add: word_unat_eq_iff)
  ultimately show ?thesis by auto
qed

text \<open>
  C38. With the mpsc channel an address has at most one actor: both ways to start panic for every number
  above one, since the single receiver cannot be cloned; otherwise, and with the other channel
  always, they do what \<open>Actor_Builder\<close> describes.
\<close>

theorem start_by_features:
  "builder_start_for f rx build bounded tx c w =
     (if actix_runtime_mpsc f \<and> 1 < num c then None else Some (builder_start build bounded tx c w))
   \<and> start_with_arbiters_for f rx bounded tx c len index w =
     (if actix_runtime_mpsc f \<and> 1 < num c then None else start_with_arbiters bounded tx c len index w)"
proof (cases "num c = 1")
  case True
  then show ?thesis
    by (auto simp: builder_start_for_def builder_start_def start_with_arbiters_for_def start_with_arbiters_def
        Let_def split_def)
next
  case False
  show ?thesis
  proof (cases "actix_runtime_mpsc f \<and> 1 < num c")
    case True
    then have mpsc: "actix_runtime_mpsc f" and "[0..<unat (num c)] \<noteq> []"
      using usize_above_one by blast+
    note stops = start_loop_for_mpsc [OF mpsc, THEN iffD2, OF this(2)]
      arbiters_loop_for_mpsc [OF mpsc, THEN iffD2, OF this(2)]
    with True False show ?thesis
      by (simp add: stops builder_start_for_def start_with_arbiters_for_def Let_def)
  next
    case no: False
    show ?thesis
    proof (cases "actix_runtime_mpsc f")
      case True
      with no False have none: "[0..<unat (num c)] = []" using usize_above_one [of "num c"] by blast
      show ?thesis
        using False by (simp add: none no builder_start_for_def builder_start_def start_with_arbiters_for_def
            start_with_arbiters_def Let_def)
    next
      case async: False
      with False show ?thesis
        by (simp add: builder_start_for_def builder_start_def start_with_arbiters_for_def
            start_with_arbiters_def Let_def split_def start_loop_for_async arbiters_loop_for_async)
    qed
  qed
qed

end
