(* ===== verification/Client_Programs.thy ===== *)
theory Client_Programs
  imports Actor_System
begin

section \<open>Programs over an address and its actor\<close>

text \<open>
  The examples and tests of the crate are programs over the library. This theory holds what they
  share: the world right after \<open>Builder::start\<close> of one actor, once the actor's task has begun, and
  what a call does in a world whose actor waits for messages.
\<close>

definition world_start ::
  "('a, 'm, 'r, 'f, 'ty, 'v) actor_impl \<Rightarrow> config \<Rightarrow> 'a \<Rightarrow> ('a, 'm, 'r, 'f, 'ty, 'v) world" where
  "world_start impl cfg a =
     (let (sh, c) = context_start impl \<lparr>state = actor_state_new cfg, cells = [], tx_strong = sender_from\<rparr>
                      (context_new 0 (None :: unit option) a)
      in \<lparr>w_actor = c, w_shared = sh, w_queue = [], w_replies = [], w_tasks = [], w_next = 0, w_ended = False\<rparr>)"

text \<open>The actor waits: nothing is queued.\<close>

definition idle :: "('a, 'm, 'r, 'f, 'ty, 'v) world \<Rightarrow> bool" where
  "idle w \<longleftrightarrow> world_ok w \<and> w_queue w = [] \<and> \<not> w_ended w"

abbreviation the_actor :: "('a, 'm, 'r, 'f, 'ty, 'v) world \<Rightarrow> 'a" where "the_actor w \<equiv> actor (w_actor w)"

lemma idle_start [simp]: "idle (world_start impl cfg a)"
  by (simp add: idle_def world_start_def world_ok_def split_def)

lemma actor_start [simp]: "the_actor (world_start impl cfg a) = impl_on_start impl a"
  by (simp add: world_start_def context_start_def context_new_def split_def)

lemma idle_gets_to: "idle w \<Longrightarrow> gets_to impl w (w_shared w) (w_actor w) []"
  by (simp add: idle_def)

lemma send_idle:
  assumes "idle w" and "impl_handle impl (into msg) (the_actor w) = (r, a)"
  shows "\<exists>w'. address_send (world_env impl) into mapr self msg w = (mapr r, w') \<and> the_actor w' = a \<and> idle w'
     \<and> w_shared w' = w_shared w"
  using send_replies [where into = into and msg = msg, OF _ idle_gets_to [OF assms(1)] assms(2)] assms(1)
  by (auto simp: idle_def)

lemma run_idle:
  assumes "idle w" and "impl_call impl f (the_actor w) = ((ty', v), f', a)"
  shows "\<exists>w'. address_run (world_env impl) ty self f w = (if ty = ty' then Ok v else Err TypeCast, w')
     \<and> the_actor w' = a \<and> idle w'"
  using run_replies [OF _ idle_gets_to [OF assms(1)] assms(2), of ty self] assms(1) by (auto simp: idle_def)

text \<open>
  \<open>run_interval\<close> gives a handler of the task it spawned; the closure is registered under the key the
  handler knows. The counter must not be at its end, where registering panics.
\<close>

lemma run_interval_idle:
  fixes w :: "('a, 'm, 'r, 'f, 'ty, 'v) world"
  defines "idx \<equiv> next_key (interval_futures (state (w_shared w)))"
  assumes "idle w" and "idx < usize_max"
  shows "\<exists>w' h. address_run_interval (world_env impl) self dur f w = (Ok h, w')
     \<and> the_actor w' = the_actor w \<and> idle w' \<and> fh_tx h = Some idx
     \<and> interval_get idx (interval_futures (state (w_shared w'))) = Some (future_pack f)
     \<and> SpawnInterval (fh_cell h) dur idx \<in> set (w_tasks w')"
proof -
  let ?m = "Interval (Register (w_next w) (future_pack f) dur) :: ('m, 'f) context_message"
  let ?sel = "\<lambda>r. case r of ReplyHandler x \<Rightarrow> Some x | _ \<Rightarrow> None"
  have ok: "world_ok w" and ended: "\<not> w_ended w" and q: "w_queue w = []" using assms(2) by (simp_all add: idle_def)
  obtain futs where ins: "interval_insert (future_pack f) (interval_futures (state (w_shared w))) = (Some idx, futs)"
    and get: "interval_get idx futs = Some (future_pack f)"
    using assms(3) by (simp add: idx_def interval_insert_def interval_get_def Let_def)
  let ?h = "\<lparr>fh_cell = length (cells (w_shared w)), fh_tx = Some idx\<rparr>"
  obtain sh where m: "handle_msg impl (\<lambda>_. True) ?m (w_shared w) (w_actor w) =
      (sh, Some (False, w_actor w, [SpawnInterval (fh_cell ?h) dur idx, OneshotSend (w_next w) (ReplyHandler ?h)]))"
    and sh: "interval_futures (state sh) = futs"
    by (simp add: ins Let_def attach_tx_def)
  have aw: "env_await_handler (world_env impl) tx = world_await impl ?sel tx" for tx
    by (simp add: world_env_def)
  note got = await_asked [OF ok idle_gets_to [OF assms(2)] m, of "ReplyHandler ?h" ?sel ?h, simplified]
  have "world_ok (snd (world_await impl ?sel (w_next w) (asked ?m w)))"
    unfolding world_await_def Let_def snd_conv
    by (intro inv_intros ok) simp
  with got show ?thesis
    using ended by (simp add: address_run_interval_def aw send_then_world Let_def idle_def sh get)
qed

end
