(* ===== verification/Ws_Config.thy ===== *)
theory Ws_Config
  imports Prelude
begin

section \<open>Websocket settings (\<open>actix_send_websocket/src/lib.rs\<close>)\<close>

text \<open>
  \<open>WsConfig\<close>, its setters and defaults, and where a handler takes it from. The codec is a type of
  actix-http, a \<open>'c\<close>.
\<close>

record 'c ws_config =
  ws_codec :: "'c option"
  ws_protocols :: "string list option"
  ws_heartbeat :: "duration option"
  ws_server_send_heartbeat :: bool
  ws_timeout :: duration

definition secs :: "nat \<Rightarrow> duration" where "secs n = n * 1000000000"

definition DEFAULT_CONFIG :: "'c ws_config" where
  "DEFAULT_CONFIG =
     \<lparr>ws_codec = None, ws_protocols = None, ws_heartbeat = Some (secs 5),
      ws_server_send_heartbeat = False, ws_timeout = secs 10\<rparr>"

definition ws_new :: "'c ws_config" where "ws_new = DEFAULT_CONFIG"

definition ws_set_codec :: "'c \<Rightarrow> 'c ws_config \<Rightarrow> 'c ws_config" where
  "ws_set_codec c cfg = cfg\<lparr>ws_codec := Some c\<rparr>"

definition ws_set_protocols :: "string list \<Rightarrow> 'c ws_config \<Rightarrow> 'c ws_config" where
  "ws_set_protocols ps cfg = cfg\<lparr>ws_protocols := Some ps\<rparr>"

definition ws_set_heartbeat :: "duration \<Rightarrow> 'c ws_config \<Rightarrow> 'c ws_config" where
  "ws_set_heartbeat d cfg = cfg\<lparr>ws_heartbeat := Some d\<rparr>"

definition ws_set_timeout :: "duration \<Rightarrow> 'c ws_config \<Rightarrow> 'c ws_config" where
  "ws_set_timeout d cfg = cfg\<lparr>ws_timeout := d\<rparr>"

definition ws_disable_heartbeat :: "'c ws_config \<Rightarrow> 'c ws_config" where
  "ws_disable_heartbeat cfg = cfg\<lparr>ws_heartbeat := None\<rparr>"

definition ws_enable_server_send_heartbeat :: "'c ws_config \<Rightarrow> 'c ws_config" where
  "ws_enable_server_send_heartbeat cfg = cfg\<lparr>ws_server_send_heartbeat := True\<rparr>"

text \<open>\<open>from_req\<close>: the app data of type \<open>WsConfig\<close>, else of type \<open>Data<WsConfig>\<close>, else the default.\<close>

definition ws_from_req :: "'c ws_config option \<Rightarrow> 'c ws_config option \<Rightarrow> 'c ws_config" where
  "ws_from_req plain data =
     (case (case plain of Some c \<Rightarrow> Some c | None \<Rightarrow> data) of
        Some c \<Rightarrow> c
      | None \<Rightarrow> DEFAULT_CONFIG)"

lemmas ws_config_defs [op_defs] =
  DEFAULT_CONFIG_def ws_new_def ws_set_codec_def ws_set_protocols_def ws_set_heartbeat_def
  ws_set_timeout_def ws_disable_heartbeat_def ws_enable_server_send_heartbeat_def ws_from_req_def

end
