(* ===== verification/Ws_Handshake.thy ===== *)
theory Ws_Handshake
  imports Ws_Config
begin

section \<open>The websocket handshake (\<open>actix_send_websocket/src/lib.rs\<close>)\<close>

text \<open>
  \<open>handshake_with_protocols\<close>. The request, its headers and the response are types of actix-http: what
  the function reads of a request is a record, a header map gives the first value of a name, and what
  it sets on the response builder is a record. \<open>HeaderValue::to_str\<close> and \<open>ws::hash_key\<close> are
  parameters.
\<close>

datatype http_method = GET | OtherMethod string

datatype header_name =
  UPGRADE | SEC_WEBSOCKET_VERSION | SEC_WEBSOCKET_KEY | SEC_WEBSOCKET_PROTOCOL
| TRANSFER_ENCODING | SEC_WEBSOCKET_ACCEPT

record http_request =
  req_method :: http_method
  req_headers :: "header_name \<rightharpoonup> string"
  req_upgrade :: bool

datatype handshake_error =
  GetMethodRequired | NoWebsocketUpgrade | NoConnectionUpgrade | NoVersionHeader
| UnsupportedVersion | BadWebsocketKey

record response =
  resp_status :: nat
  resp_upgrade :: string
  resp_headers :: "(header_name \<times> string) list"

subsection \<open>The string functions of the standard library it calls\<close>

text \<open>\<open>to_ascii_lowercase\<close>.\<close>

definition ascii_lower :: "char \<Rightarrow> char" where
  "ascii_lower c =
     (let n = (of_char c :: nat) in if 65 \<le> n \<and> n \<le> 90 then char_of (n + 32) else c)"

definition to_ascii_lowercase :: "string \<Rightarrow> string" where
  "to_ascii_lowercase s = map ascii_lower s"

text \<open>\<open>trim\<close>: the code points up to 255 that Unicode calls white space.\<close>

definition is_whitespace :: "char \<Rightarrow> bool" where
  "is_whitespace c \<longleftrightarrow> (let n = (of_char c :: nat) in n \<in> {9, 10, 11, 12, 13, 32, 133, 160})"

definition trim :: "string \<Rightarrow> string" where
  "trim s = rev (dropWhile is_whitespace (rev (dropWhile is_whitespace s)))"

subsection \<open>The handshake\<close>

definition has_upgrade_header :: "(string \<Rightarrow> string option) \<Rightarrow> http_request \<Rightarrow> bool" where
  "has_upgrade_header to_str req =
     (case req_headers req UPGRADE of
        None \<Rightarrow> False
      | Some hdr \<Rightarrow> (case to_str hdr of
                       None \<Rightarrow> False
                     | Some s \<Rightarrow> str_contains ''websocket'' (to_ascii_lowercase s)))"

definition supported_version :: "http_request \<Rightarrow> bool" where
  "supported_version req =
     (case req_headers req SEC_WEBSOCKET_VERSION of
        None \<Rightarrow> False
      | Some hdr \<Rightarrow> hdr = ''13'' \<or> hdr = ''8'' \<or> hdr = ''7'')"

definition select_protocol ::
  "(string \<Rightarrow> string option) \<Rightarrow> string list \<Rightarrow> http_request \<Rightarrow> string option" where
  "select_protocol to_str protocols req =
     Option.bind (req_headers req SEC_WEBSOCKET_PROTOCOL)
       (\<lambda>h. Option.bind (to_str h)
         (\<lambda>s. find (\<lambda>p. p \<in> set protocols) (map trim (split_on CHR '','' s))))"

definition handshake_with_protocols ::
  "(string \<Rightarrow> string option) \<Rightarrow> (string \<Rightarrow> string) \<Rightarrow> http_request \<Rightarrow> string list
     \<Rightarrow> handshake_error + response" where
  "handshake_with_protocols to_str hash_key req protocols =
     (if req_method req \<noteq> GET then Err GetMethodRequired
      else if \<not> has_upgrade_header to_str req then Err NoWebsocketUpgrade
      else if \<not> req_upgrade req then Err NoConnectionUpgrade
      else if req_headers req SEC_WEBSOCKET_VERSION = None then Err NoVersionHeader
      else if \<not> supported_version req then Err UnsupportedVersion
      else (case req_headers req SEC_WEBSOCKET_KEY of
              None \<Rightarrow> Err BadWebsocketKey
            | Some key \<Rightarrow>
                Ok \<lparr>resp_status = 101, resp_upgrade = ''websocket'',
                    resp_headers =
                      [(TRANSFER_ENCODING, ''chunked''), (SEC_WEBSOCKET_ACCEPT, hash_key key)] @
                      (case select_protocol to_str protocols req of
                         None \<Rightarrow> []
                       | Some p \<Rightarrow> [(SEC_WEBSOCKET_PROTOCOL, p)])\<rparr>))"

definition handshake ::
  "(string \<Rightarrow> string option) \<Rightarrow> (string \<Rightarrow> string) \<Rightarrow> http_request \<Rightarrow> handshake_error + response" where
  "handshake to_str hash_key req = handshake_with_protocols to_str hash_key req []"

text \<open>\<open>from_request\<close> passes the configured protocols, or none.\<close>

definition request_handshake ::
  "(string \<Rightarrow> string option) \<Rightarrow> (string \<Rightarrow> string) \<Rightarrow> 'c ws_config \<Rightarrow> http_request
     \<Rightarrow> handshake_error + response" where
  "request_handshake to_str hash_key cfg req =
     (case ws_protocols cfg of
        Some protocols \<Rightarrow> handshake_with_protocols to_str hash_key req protocols
      | None \<Rightarrow> handshake_with_protocols to_str hash_key req [])"

subsection \<open>Splitting is the inverse of joining with commas\<close>

fun join_comma :: "string list \<Rightarrow> string" where
  "join_comma [] = []"
| "join_comma [p] = p"
| "join_comma (p # q # ps) = p @ CHR '','' # join_comma (q # ps)"

lemma split_join_comma:
  "ps \<noteq> [] \<Longrightarrow> \<forall>p \<in> set ps. CHR '','' \<notin> set p \<Longrightarrow> split_on CHR '','' (join_comma ps) = ps"
  by (induction ps rule: join_comma.induct) (simp_all add: split_on_append split_on_single)

lemma dropWhile_padded:
  "\<forall>c \<in> set ws. P c \<Longrightarrow> dropWhile P (ws @ xs) = dropWhile P xs"
  by (induction ws) auto

lemma dropWhile_hd: "xs = [] \<or> \<not> P (hd xs) \<Longrightarrow> dropWhile P xs = xs"
  by (cases xs) auto

text \<open>A name with white space around it, as a client writes a list.\<close>

lemma trim_padded:
  assumes "\<forall>c \<in> set (a @ b). is_whitespace c" and "p = [] \<or> \<not> is_whitespace (hd p) \<and> \<not> is_whitespace (last p)"
  shows "trim (a @ p @ b) = p"
proof (cases "p = []")
  case True
  with assms have "\<forall>c \<in> set (a @ p @ b). is_whitespace c" by auto
  then have "dropWhile is_whitespace (a @ p @ b) = []" by (simp only: dropWhile_eq_Nil_conv)
  then show ?thesis unfolding trim_def by (simp only: True rev.simps dropWhile.simps)
next
  case False
  with assms have "dropWhile is_whitespace (a @ p @ b) = p @ b"
    by (simp add: dropWhile_padded) (rule dropWhile_hd, simp)
  moreover have "dropWhile is_whitespace (rev b @ rev p) = rev p"
    using False assms by (simp add: dropWhile_padded) (rule dropWhile_hd, simp add: hd_rev)
  ultimately show ?thesis by (simp add: trim_def)
qed

subsection \<open>What the handshake decides\<close>

text \<open>The requests to accept.\<close>

definition wants_websocket :: "(string \<Rightarrow> string option) \<Rightarrow> http_request \<Rightarrow> bool" where
  "wants_websocket to_str req \<longleftrightarrow>
     req_method req = GET
     \<and> (\<exists>h s a b. req_headers req UPGRADE = Some h \<and> to_str h = Some s
          \<and> to_ascii_lowercase s = a @ ''websocket'' @ b)
     \<and> req_upgrade req
     \<and> req_headers req SEC_WEBSOCKET_VERSION \<in> {Some ''13'', Some ''8'', Some ''7''}
     \<and> req_headers req SEC_WEBSOCKET_KEY \<noteq> None"

text \<open>
  C36. The handshake accepts exactly a GET request with an \<open>Upgrade\<close> header naming websocket in any
  case, an upgrade connection, version 13, 8 or 7, and a key; the answer switches protocols and
  carries the hash of that key.
\<close>

theorem handshake_accepts:
  "case handshake_with_protocols to_str hash_key req protocols of
     Inl e \<Rightarrow> \<not> wants_websocket to_str req
   | Inr r \<Rightarrow> wants_websocket to_str req \<and> resp_status r = 101 \<and> resp_upgrade r = ''websocket''
       \<and> (\<exists>key. req_headers req SEC_WEBSOCKET_KEY = Some key
            \<and> map_of (resp_headers r) SEC_WEBSOCKET_ACCEPT = Some (hash_key key))
       \<and> map_of (resp_headers r) SEC_WEBSOCKET_PROTOCOL = select_protocol to_str protocols req"
  by (auto simp: handshake_with_protocols_def wants_websocket_def has_upgrade_header_def
      supported_version_def str_contains_iff split: option.splits)

text \<open>One entry of the client's list: a name, with the white space around it.\<close>

type_synonym padded = "string \<times> string \<times> string"

definition well_padded :: "padded \<Rightarrow> bool" where
  "well_padded x = (case x of (a, p, b) \<Rightarrow>
     (\<forall>c \<in> set (a @ b). is_whitespace c) \<and> CHR '','' \<notin> set p \<and>
     (p = [] \<or> \<not> is_whitespace (hd p) \<and> \<not> is_whitespace (last p)))"

definition write_padded :: "padded \<Rightarrow> string" where
  "write_padded x = (case x of (a, p, b) \<Rightarrow> a @ p @ b)"

lemma well_paddedD:
  assumes "well_padded x"
  shows "CHR '','' \<notin> set (write_padded x)" "trim (write_padded x) = fst (snd x)"
proof -
  obtain a p b where x: "x = (a, p, b)" by (metis prod_cases3)
  have "\<not> is_whitespace CHR '',''" by (simp add: is_whitespace_def)
  with assms show "CHR '','' \<notin> set (write_padded x)"
    by (auto simp: x well_padded_def write_padded_def)
  from assms show "trim (write_padded x) = fst (snd x)"
    by (simp add: x well_padded_def write_padded_def trim_padded)
qed

text \<open>
  The protocol answered is the first of the client's list that the server knows, whatever the order
  of the server's list and the white space of the header; with none in common the header is absent.
\<close>

theorem protocol_is_clients_first:
  assumes "xs \<noteq> []" and "\<forall>x \<in> set xs. well_padded x"
    and "req_headers req SEC_WEBSOCKET_PROTOCOL = Some h"
    and "to_str h = Some (join_comma (map write_padded xs))"
  shows "select_protocol to_str protocols req = find (\<lambda>p. p \<in> set protocols) (map (fst \<circ> snd) xs)"
proof -
  have "split_on CHR '','' (join_comma (map write_padded xs)) = map write_padded xs"
    using assms(1,2) by (intro split_join_comma) (auto dest: well_paddedD)
  moreover have "map trim (map write_padded xs) = map (fst \<circ> snd) xs"
    using assms(2) by (auto dest: well_paddedD)
  ultimately show ?thesis by (simp add: select_protocol_def assms(3,4) del: map_map)
qed

subsection \<open>The theorems at work\<close>

text \<open>The client asks for p1, p2, p3; the server lists p3 first.\<close>

definition demo_request :: http_request where
  "demo_request =
     \<lparr>req_method = GET,
      req_headers = [UPGRADE \<mapsto> ''WebSocket'', SEC_WEBSOCKET_VERSION \<mapsto> ''13'',
                     SEC_WEBSOCKET_KEY \<mapsto> ''13'', SEC_WEBSOCKET_PROTOCOL \<mapsto> ''p1, p2, p3''],
      req_upgrade = True\<rparr>"

theorem protocol_is_clients_first_witness:
  "select_protocol Some [''p3'', ''p2''] demo_request = Some ''p2''"
proof -
  let ?xs = "[([], ''p1'', []), ('' '', ''p2'', []), ('' '', ''p3'', [])]"
  have "\<forall>x \<in> set ?xs. well_padded x" by (simp add: well_padded_def is_whitespace_def)
  moreover have "req_headers demo_request SEC_WEBSOCKET_PROTOCOL = Some ''p1, p2, p3''"
    by (simp add: demo_request_def)
  moreover have "Some ''p1, p2, p3'' = Some (join_comma (map write_padded ?xs))"
    by (simp add: write_padded_def)
  ultimately show ?thesis
    using protocol_is_clients_first [of ?xs demo_request "''p1, p2, p3''" Some "[''p3'', ''p2'']"]
    by simp
qed

end
