(* ===== verification/Ws_Queue.thy ===== *)
theory Ws_Queue
  imports Ws_Config
begin

section \<open>Websocket messages and the local queue (\<open>actix_send_websocket/src/lib.rs\<close>)\<close>

text \<open>
  \<open>Message\<close> and \<open>Frame\<close> are types of actix-http; their constructors here are those the source
  names. Bytes are a list of 8-bit words, a \<open>ByteString\<close> is a \<open>'t\<close>, a continuation item a \<open>'it\<close> and a
  close reason a \<open>'cr\<close>.
\<close>

type_synonym bytes = "8 word list"

datatype ('t, 'it, 'cr) ws_message =
  MsgText 't
| MsgBinary bytes
| MsgContinuation 'it
| MsgPing bytes
| MsgPong bytes
| MsgClose "'cr option"
| MsgNop

datatype ('it, 'cr) ws_frame =
  FrameText bytes
| FrameBinary bytes
| FrameContinuation 'it
| FramePing bytes
| FramePong bytes
| FrameClose "'cr option"

fun is_close_msg :: "('t, 'it, 'cr) ws_message \<Rightarrow> bool" where
  "is_close_msg (MsgClose _) = True"
| "is_close_msg _ = False"

subsection \<open>The queue\<close>

text \<open>
  \<open>WebSocketLocalQueue\<close> is an \<open>Rc\<close> to a \<open>QueueInner\<close>: the queue, the waker of the encode stream, and
  the number of \<open>Rc\<close>s. \<open>wake\<close> gives the waker it wakes.
\<close>

record ('x, 'wk) local_queue =
  lq_queue :: "'x list"
  lq_waker :: "'wk option"
  lq_strong :: nat

definition lq_new :: "('x, 'wk) local_queue" where
  "lq_new = \<lparr>lq_queue = [], lq_waker = None, lq_strong = 1\<rparr>"

definition lq_clone :: "('x, 'wk) local_queue \<Rightarrow> ('x, 'wk) local_queue" where
  "lq_clone q = q\<lparr>lq_strong := lq_strong q + 1\<rparr>"

definition lq_is_closed :: "('x, 'wk) local_queue \<Rightarrow> bool" where
  "lq_is_closed q \<longleftrightarrow> lq_strong q = 1"

definition lq_pop_front :: "('x, 'wk) local_queue \<Rightarrow> 'x option \<times> ('x, 'wk) local_queue" where
  "lq_pop_front q = (case lq_queue q of [] \<Rightarrow> (None, q) | x # xs \<Rightarrow> (Some x, q\<lparr>lq_queue := xs\<rparr>))"

definition lq_push_back :: "'x \<Rightarrow> ('x, 'wk) local_queue \<Rightarrow> ('x, 'wk) local_queue" where
  "lq_push_back x q = q\<lparr>lq_queue := lq_queue q @ [x]\<rparr>"

definition lq_register :: "'wk \<Rightarrow> ('x, 'wk) local_queue \<Rightarrow> ('x, 'wk) local_queue" where
  "lq_register wk q = q\<lparr>lq_waker := Some wk\<rparr>"

definition lq_wake :: "('x, 'wk) local_queue \<Rightarrow> 'wk option \<times> ('x, 'wk) local_queue" where
  "lq_wake q = (lq_waker q, q\<lparr>lq_waker := None\<rparr>)"

text \<open>The five sending methods push their message and wake the encode stream.\<close>

definition lq_text :: "'t \<Rightarrow> (('t, 'it, 'cr) ws_message, 'wk) local_queue
    \<Rightarrow> 'wk option \<times> (('t, 'it, 'cr) ws_message, 'wk) local_queue" where
  "lq_text s q = lq_wake (lq_push_back (MsgText s) q)"

definition lq_binary :: "bytes \<Rightarrow> (('t, 'it, 'cr) ws_message, 'wk) local_queue
    \<Rightarrow> 'wk option \<times> (('t, 'it, 'cr) ws_message, 'wk) local_queue" where
  "lq_binary b q = lq_wake (lq_push_back (MsgBinary b) q)"

definition lq_ping :: "bytes \<Rightarrow> (('t, 'it, 'cr) ws_message, 'wk) local_queue
    \<Rightarrow> 'wk option \<times> (('t, 'it, 'cr) ws_message, 'wk) local_queue" where
  "lq_ping b q = lq_wake (lq_push_back (MsgPing b) q)"

definition lq_pong :: "bytes \<Rightarrow> (('t, 'it, 'cr) ws_message, 'wk) local_queue
    \<Rightarrow> 'wk option \<times> (('t, 'it, 'cr) ws_message, 'wk) local_queue" where
  "lq_pong b q = lq_wake (lq_push_back (MsgPong b) q)"

definition lq_close :: "'cr option \<Rightarrow> (('t, 'it, 'cr) ws_message, 'wk) local_queue
    \<Rightarrow> 'wk option \<times> (('t, 'it, 'cr) ws_message, 'wk) local_queue" where
  "lq_close r q = lq_wake (lq_push_back (MsgClose r) q)"

lemmas lq_defs [op_defs] =
  lq_new_def lq_clone_def lq_is_closed_def lq_pop_front_def lq_push_back_def lq_register_def
  lq_wake_def lq_text_def lq_binary_def lq_ping_def lq_pong_def lq_close_def

text \<open>\<open>WebSocketStream\<close>'s \<open>PinnedDrop\<close> wakes the encode stream; then the stream's \<open>Rc\<close> goes.\<close>

definition ws_stream_drop :: "('x, 'wk) local_queue \<Rightarrow> 'wk option \<times> ('x, 'wk) local_queue" where
  "ws_stream_drop q =
     (let (woken, q') = lq_wake q in (woken, q'\<lparr>lq_strong := lq_strong q' - 1\<rparr>))"

subsection \<open>The contract of a queue\<close>

text \<open>
  What the encode stream relies on: the messages come out in the order they went in. The contract is
  stated over the sequence of items a queue stands for.
\<close>

locale fifo =
  fixes emp :: 'q
    and enq :: "'x \<Rightarrow> 'q \<Rightarrow> 'q"
    and deq :: "'q \<Rightarrow> 'x option \<times> 'q"
    and items :: "'q \<Rightarrow> 'x list"
  assumes items_emp: "items emp = []"
    and items_enq: "items (enq x q) = items q @ [x]"
    and deq_items: "fst (deq q) = (case items q of [] \<Rightarrow> None | x # _ \<Rightarrow> Some x)"
    and items_deq: "items (snd (deq q)) = tl (items q)"

text \<open>Taking items until there are none, at most \<open>n\<close> of them.\<close>

fun drain :: "('q \<Rightarrow> 'x option \<times> 'q) \<Rightarrow> nat \<Rightarrow> 'q \<Rightarrow> 'x list \<times> 'q" where
  "drain deq 0 q = ([], q)"
| "drain deq (Suc n) q =
     (case deq q of
        (None, q') \<Rightarrow> ([], q')
      | (Some x, q') \<Rightarrow> (let (xs, q'') = drain deq n q' in (x # xs, q'')))"

context fifo begin

lemma items_fold_enq: "items (fold enq xs q) = items q @ xs"
  by (induction xs arbitrary: q) (simp_all add: items_enq)

lemma drain_items: "fst (drain deq n q) = take n (items q)"
proof (induction n arbitrary: q)
  case (Suc n)
  obtain r q' where d: "deq q = (r, q')" by force
  with Suc.IH [of q'] deq_items [of q] items_deq [of q] show ?case
    by (cases "items q") (simp_all add: split_def Let_def)
qed simp

lemma drain_leaves: "items (snd (drain deq n q)) = drop n (items q)"
proof (induction n arbitrary: q)
  case (Suc n)
  obtain r q' where d: "deq q = (r, q')" by force
  with Suc.IH [of q'] deq_items [of q] items_deq [of q] show ?case
    by (cases "items q") (simp_all add: split_def Let_def)
qed simp

lemma first_in_first_out:
  "length xs \<le> n \<Longrightarrow> fst (drain deq n (fold enq xs emp)) = xs"
  by (simp add: drain_items items_fold_enq items_emp)

end

interpretation lq: fifo lq_new lq_push_back lq_pop_front lq_queue
  by unfold_locales (auto simp: op_defs split: list.splits)

text \<open>
  The local queue is first in, first out, and loses no wakeup: once the encode stream has registered
  its waker, the next message sent by any of the five methods wakes it.
\<close>

theorem local_queue_fifo:
  "fst (drain lq_pop_front (length xs) (fold lq_push_back xs lq_new)) = xs
   \<and> lq_queue (snd (drain lq_pop_front (length xs) (fold lq_push_back xs lq_new))) = []
   \<and> fst (lq_text t (lq_register wk q)) = Some wk \<and> fst (lq_binary b (lq_register wk q)) = Some wk
   \<and> fst (lq_ping b (lq_register wk q)) = Some wk \<and> fst (lq_pong b (lq_register wk q)) = Some wk
   \<and> fst (lq_close r (lq_register wk q)) = Some wk"
  using lq.first_in_first_out [OF order_refl, of xs]
  by (auto simp: lq.drain_leaves lq.items_fold_enq) (simp_all add: op_defs)

end
