(* ===== verification/Ws_Encode.thy ===== *)
theory Ws_Encode
  imports Ws_Queue
begin

section \<open>The response stream of a websocket (\<open>actix_send_websocket/src/lib.rs\<close>)\<close>

text \<open>
  \<open>EncodeStream\<close> writes the messages of the local queue and of the channel into one buffer and yields
  it. The codec is code of actix-http: a parameter \<open>enc\<close> from the codec's state, a message and the
  buffer. The channel is tokio's: parameters \<open>rx_close\<close> and \<open>rx_poll\<close>.
\<close>

type_synonym ('c, 'x, 'e) encoder = "'c \<Rightarrow> 'x \<Rightarrow> bytes \<Rightarrow> ('e + unit) \<times> 'c \<times> bytes"

record ('rx, 'x) rx_ops =
  rx_close :: "'rx \<Rightarrow> 'rx"
  rx_poll :: "'rx \<Rightarrow> 'x option poll \<times> 'rx"

record ('rx, 'c) encode_stream =
  en_rx :: 'rx
  en_codec :: 'c
  write_buf :: bytes

definition encode_stream_new :: "'rx \<Rightarrow> 'c \<Rightarrow> ('rx, 'c) encode_stream" where
  "encode_stream_new rx c = \<lparr>en_rx = rx, en_codec = c, write_buf = []\<rparr>"

text \<open>One message: a close message closes the channel first; then the codec writes it.\<close>

definition encode_one ::
  "('rx, ('t, 'it, 'cr) ws_message) rx_ops \<Rightarrow> ('c, ('t, 'it, 'cr) ws_message, 'e) encoder
     \<Rightarrow> ('t, 'it, 'cr) ws_message \<Rightarrow> ('rx, 'c) encode_stream
     \<Rightarrow> ('e + unit) \<times> ('rx, 'c) encode_stream" where
  "encode_one R enc msg st =
     (let st1 = (if is_close_msg msg then st\<lparr>en_rx := rx_close R (en_rx st)\<rparr> else st);
          (r, c, buf) = enc (en_codec st1) msg (write_buf st1)
      in (r, st1\<lparr>en_codec := c, write_buf := buf\<rparr>))"

text \<open>The loop over the queue; an error of the codec leaves it with the rest still queued.\<close>

fun encode_queue ::
  "('rx, ('t, 'it, 'cr) ws_message) rx_ops \<Rightarrow> ('c, ('t, 'it, 'cr) ws_message, 'e) encoder
     \<Rightarrow> ('t, 'it, 'cr) ws_message list \<Rightarrow> ('rx, 'c) encode_stream
     \<Rightarrow> ('e + unit) \<times> ('t, 'it, 'cr) ws_message list \<times> ('rx, 'c) encode_stream" where
  "encode_queue R enc [] st = (Ok (), [], st)"
| "encode_queue R enc (msg # msgs) st =
     (case encode_one R enc msg st of
        (Inl e, st') \<Rightarrow> (Err e, msgs, st')
      | (Inr _, st') \<Rightarrow> encode_queue R enc msgs st')"

text \<open>
  The loop over the channel, which a channel that is never empty keeps busy forever. The last component
  of the result is whether the stream woke itself.
\<close>

partial_function (option) encode_rx ::
  "('rx, ('t, 'it, 'cr) ws_message) rx_ops \<Rightarrow> ('c, ('t, 'it, 'cr) ws_message, 'e) encoder
     \<Rightarrow> ('rx, 'c) encode_stream
     \<Rightarrow> (('e + bytes) option poll \<times> ('rx, 'c) encode_stream \<times> bool) option" where
  "encode_rx R enc st =
     (case rx_poll R (en_rx st) of
        (Ready (Some msg), rx) \<Rightarrow>
          (case encode_one R enc msg (st\<lparr>en_rx := rx\<rparr>) of
             (Inl e, st') \<Rightarrow> Some (Ready (Some (Err e)), st', False)
           | (Inr _, st') \<Rightarrow> encode_rx R enc st')
      | (Pending, rx) \<Rightarrow>
          Some (if write_buf st \<noteq> []
                then (Ready (Some (Ok (write_buf st))), st\<lparr>en_rx := rx, write_buf := []\<rparr>, False)
                else (Pending, st\<lparr>en_rx := rx\<rparr>, False))
      | (Ready None, rx) \<Rightarrow>
          Some (if write_buf st \<noteq> []
                then (Ready (Some (Ok (write_buf st))), st\<lparr>en_rx := rx, write_buf := []\<rparr>, True)
                else (Ready None, st\<lparr>en_rx := rx\<rparr>, False)))"

declare encode_rx.simps [code]

definition encode_poll_next ::
  "('rx, ('t, 'it, 'cr) ws_message) rx_ops \<Rightarrow> ('c, ('t, 'it, 'cr) ws_message, 'e) encoder \<Rightarrow> 'wk
     \<Rightarrow> ('rx, 'c) encode_stream \<Rightarrow> (('t, 'it, 'cr) ws_message, 'wk) local_queue
     \<Rightarrow> (('e + bytes) option poll \<times> ('rx, 'c) encode_stream
          \<times> (('t, 'it, 'cr) ws_message, 'wk) local_queue \<times> bool) option" where
  "encode_poll_next R enc cx st q =
     (case encode_queue R enc (lq_queue q) st of
        (Inl e, msgs, st1) \<Rightarrow> Some (Ready (Some (Err e)), st1, q\<lparr>lq_queue := msgs\<rparr>, False)
      | (Inr _, msgs, st1) \<Rightarrow>
          (let q1 = q\<lparr>lq_queue := msgs\<rparr>;
               (st2, q2) =
                 (if lq_is_closed q1 then (st1\<lparr>en_rx := rx_close R (en_rx st1)\<rparr>, q1)
                  else (st1, lq_register cx q1))
           in map_option (\<lambda>(p, st3, wake). (p, st3, q2, wake)) (encode_rx R enc st2)))"

subsection \<open>What a poll writes\<close>

text \<open>
  tokio's unbounded channel, as documented: buffered messages are received also after closing; an empty
  channel has ended once it is closed or has no senders.
\<close>

record 'x chan =
  ch_msgs :: "'x list"
  ch_closed :: bool
  ch_senders :: nat

definition chan_ops :: "('x chan, 'x) rx_ops" where
  "chan_ops =
     \<lparr>rx_close = (\<lambda>ch. ch\<lparr>ch_closed := True\<rparr>),
      rx_poll = (\<lambda>ch. case ch_msgs ch of
                   m # ms \<Rightarrow> (Ready (Some m), ch\<lparr>ch_msgs := ms\<rparr>)
                 | [] \<Rightarrow> (if ch_closed ch \<or> ch_senders ch = 0 then Ready None else Pending, ch))\<rparr>"

text \<open>\<open>WebSocketSender::send\<close>, which all its methods call: refused once the receiver has closed.\<close>

definition ws_sender_send :: "('x \<Rightarrow> 'e) \<Rightarrow> 'x \<Rightarrow> 'x chan \<Rightarrow> ('e + unit) \<times> 'x chan" where
  "ws_sender_send internal msg ch =
     (if ch_closed ch then (Err (internal msg), ch)
      else (Ok (), ch\<lparr>ch_msgs := ch_msgs ch @ [msg]\<rparr>))"

text \<open>A codec that accepts every message: it appends the message's bytes.\<close>

definition appends ::
  "('c, 'x, 'e) encoder \<Rightarrow> ('c \<Rightarrow> 'x \<Rightarrow> bytes) \<Rightarrow> ('c \<Rightarrow> 'x \<Rightarrow> 'c) \<Rightarrow> bool" where
  "appends enc wire step \<longleftrightarrow> (\<forall>c x b. enc c x b = (Inr (), step c x, b @ wire c x))"

fun wire_all :: "('c \<Rightarrow> 'x \<Rightarrow> bytes) \<Rightarrow> ('c \<Rightarrow> 'x \<Rightarrow> 'c) \<Rightarrow> 'c \<Rightarrow> 'x list \<Rightarrow> bytes" where
  "wire_all wire step c [] = []"
| "wire_all wire step c (x # xs) = wire c x @ wire_all wire step (step c x) xs"

lemma wire_all_append:
  "wire_all wire step c (xs @ ys) = wire_all wire step c xs @ wire_all wire step (foldl step c xs) ys"
  by (induction xs arbitrary: c) simp_all

lemma rx_close_chan: "rx_close chan_ops ch = ch\<lparr>ch_closed := True\<rparr>"
  by (simp add: chan_ops_def)

lemma encode_queue_appends:
  assumes "appends enc wire step"
  shows "encode_queue chan_ops enc msgs st =
     (Inr (), [], st\<lparr>en_rx := (en_rx st)\<lparr>ch_closed := ch_closed (en_rx st) \<or> (\<exists>m \<in> set msgs. is_close_msg m)\<rparr>,
                     en_codec := foldl step (en_codec st) msgs,
                     write_buf := write_buf st @ wire_all wire step (en_codec st) msgs\<rparr>)"
  using assms
  by (induction msgs arbitrary: st) (auto simp: encode_one_def appends_def chan_ops_def Let_def)

lemma encode_rx_appends:
  assumes "appends enc wire step"
  shows "encode_rx chan_ops enc st =
     (let ch = en_rx st; ms = ch_msgs ch; buf = write_buf st @ wire_all wire step (en_codec st) ms;
          closed = (ch_closed ch \<or> (\<exists>m \<in> set ms. is_close_msg m));
          ended = (closed \<or> ch_senders ch = 0);
          st' = st\<lparr>en_rx := ch\<lparr>ch_msgs := [], ch_closed := closed\<rparr>,
                   en_codec := foldl step (en_codec st) ms, write_buf := []\<rparr>
      in Some (if buf \<noteq> [] then (Ready (Some (Ok buf)), st', ended)
               else (if ended then Ready None else Pending, st', False)))"
proof (induction "ch_msgs (en_rx st)" arbitrary: st)
  case Nil
  then show ?case by (subst encode_rx.simps) (auto simp: chan_ops_def Let_def)
next
  case (Cons m ms)
  let ?ch = "(en_rx st)\<lparr>ch_msgs := ms, ch_closed := ch_closed (en_rx st) \<or> is_close_msg m\<rparr>"
  let ?st = "st\<lparr>en_rx := ?ch, en_codec := step (en_codec st) m,
                write_buf := write_buf st @ wire (en_codec st) m\<rparr>"
  have "encode_rx chan_ops enc st = encode_rx chan_ops enc ?st"
    using Cons.hyps(2) [symmetric] assms
    by (subst encode_rx.simps) (auto simp: chan_ops_def encode_one_def appends_def Let_def)
  also note Cons.hyps(1) [of ?st]
  finally show ?case using Cons.hyps(2) [symmetric] by (simp add: Let_def disj_assoc)
qed

lemma encode_poll_returns:
  fixes st :: "(('t, 'it, 'cr) ws_message chan, 'c) encode_stream"
  assumes "appends enc wire step"
  obtains p st' q' wake where "encode_poll_next chan_ops enc cx st q = Some (p, st', q', wake)"
proof -
  have "\<exists>x. encode_rx chan_ops enc s = Some x" for s :: "(('t, 'it, 'cr) ws_message chan, 'c) encode_stream"
    by (simp only: encode_rx_appends [OF assms] Let_def option.inject) blast
  then obtain f where "\<And>s. encode_rx chan_ops enc s = Some (f s)" by metis
  then have "\<exists>x. encode_poll_next chan_ops enc cx st q = Some x"
    by (simp add: encode_poll_next_def encode_queue_appends [OF assms] Let_def split_def)
  then show ?thesis using that by (metis prod_cases4)
qed


text \<open>
  A close message ends the stream: the poll that writes it yields the bytes and wakes itself, later
  messages through the channel are refused, and the next poll reports the end.
\<close>

theorem close_ends_stream:
  assumes "appends enc wire step" and "m \<in> set (lq_queue q @ ch_msgs (en_rx st))" "is_close_msg m"
    and "encode_poll_next chan_ops enc cx st q = Some (p, st', q', wake)"
  shows "fst (ws_sender_send internal msg (en_rx st')) = Err (internal msg)
     \<and> (\<exists>st'' q''. encode_poll_next chan_ops enc cx st' q' = Some (Ready None, st'', q'', False))"
proof -
  have closed: "ch_closed (en_rx st')" and empty: "ch_msgs (en_rx st') = []" "write_buf st' = []"
      "lq_queue q' = []"
    using assms(2-4)
    by (auto simp: encode_poll_next_def encode_queue_appends [OF assms(1)]
        encode_rx_appends [OF assms(1)] Let_def rx_close_chan lq_register_def split: if_splits)
  then have "\<exists>st'' q''. encode_poll_next chan_ops enc cx st' q' = Some (Ready None, st'', q'', False)"
    by (auto simp: encode_poll_next_def encode_queue_appends [OF assms(1)]
        encode_rx_appends [OF assms(1)] Let_def rx_close_chan)
  with closed show ?thesis by (simp add: ws_sender_send_def)
qed

subsection \<open>The theorems at work\<close>

text \<open>A codec that writes one byte for a text and for any other message none but a zero.\<close>

definition demo_wire :: "unit \<Rightarrow> (8 word, unit, unit) ws_message \<Rightarrow> bytes" where
  "demo_wire c m = (case m of MsgText b \<Rightarrow> [b] | _ \<Rightarrow> [0])"

definition demo_enc :: "(unit, (8 word, unit, unit) ws_message, nat) encoder" where
  "demo_enc c m buf = (Inr (), (), buf @ demo_wire c m)"

lemma demo_enc_appends: "appends demo_enc demo_wire (\<lambda>c m. ())"
  by (simp add: appends_def demo_enc_def)

definition demo_encode :: "((8 word, unit, unit) ws_message chan, unit) encode_stream" where
  "demo_encode = encode_stream_new \<lparr>ch_msgs = [MsgText 9], ch_closed = False, ch_senders = 1\<rparr> ()"

definition demo_queue :: "((8 word, unit, unit) ws_message, nat) local_queue" where
  "demo_queue = snd (lq_close None (snd (lq_text 7 (lq_clone lq_new))))"


theorem close_ends_stream_witness:
  "\<exists>p st' q' wake st'' q''.
     encode_poll_next chan_ops demo_enc 5 demo_encode demo_queue = Some (p, st', q', wake)
     \<and> encode_poll_next chan_ops demo_enc 5 st' q' = Some (Ready None, st'', q'', False)"
proof -
  have m: "MsgClose None \<in> set (lq_queue demo_queue @ ch_msgs (en_rx demo_encode))"
      "is_close_msg (MsgClose None :: (8 word, unit, unit) ws_message)"
    by (simp_all add: demo_queue_def op_defs)
  obtain p st' q' wake where run: "encode_poll_next chan_ops demo_enc 5 demo_encode demo_queue
      = Some (p, st', q', wake)"
    by (rule encode_poll_returns [OF demo_enc_appends])
  from close_ends_stream [OF demo_enc_appends m run] run show ?thesis by blast
qed

end
