(* ===== verification/Ws_Decode.thy ===== *)
theory Ws_Decode
  imports Ws_Queue
begin

section \<open>The incoming stream of a websocket (\<open>actix_send_websocket/src/lib.rs\<close>)\<close>

text \<open>
  \<open>DecodeStream\<close> turns chunks of bytes into messages, and closes a connection whose client has been
  silent for too long. The codec (\<open>dec\<close>), the source stream (\<open>nxt\<close>), the display of its errors
  (\<open>fmt\<close>) and the check of a text's encoding (\<open>utf8\<close>) are parameters. \<open>now\<close> is what
  \<open>Instant::now\<close> returns during a poll. A \<open>Sleep\<close> is its deadline; \<open>ready\<close> says whether polling it
  now finds it elapsed.
\<close>

subsection \<open>The heartbeat\<close>

record heart_beat =
  hb_server_send :: bool
  hb_interval :: duration
  hb_timeout :: duration
  hb_deadline :: instant

definition hb_new :: "instant \<Rightarrow> duration \<Rightarrow> duration \<Rightarrow> bool \<Rightarrow> heart_beat" where
  "hb_new now interval tmo server_send =
     \<lparr>hb_server_send = server_send, hb_interval = interval, hb_timeout = tmo,
      hb_deadline = now + tmo\<rparr>"

definition hb_update :: "instant \<Rightarrow> heart_beat \<Rightarrow> heart_beat" where
  "hb_update now hb = hb\<lparr>hb_deadline := now + hb_timeout hb\<rparr>"

text \<open>\<open>set\<close>: whether the connection lives on, and the timer's deadline.\<close>

definition hb_set :: "heart_beat \<Rightarrow> instant \<Rightarrow> bool \<times> instant" where
  "hb_set hb sleep =
     (let now = sleep
      in if now \<ge> hb_deadline hb then (False, sleep) else (True, now + hb_interval hb))"

lemmas hb_defs [op_defs] = hb_new_def hb_update_def hb_set_def

subsection \<open>Polling\<close>

datatype 'pe protocol_error = ProtoIo string | ProtoCodec 'pe

type_synonym ('c, 'f, 'pe) decoder = "'c \<Rightarrow> bytes \<Rightarrow> ('pe + 'f option) \<times> 'c \<times> bytes"

record ('s, 'c) decode_stream =
  de_stream :: 's
  timer :: "instant option"
  beat :: heart_beat
  de_codec :: 'c
  read_buf :: bytes

text \<open>\<open>split_stream\<close>: both streams share the queue and start with the same codec.\<close>

definition split_stream ::
  "'c \<Rightarrow> instant \<Rightarrow> 'c ws_config \<Rightarrow> 's
     \<Rightarrow> ('s, 'c) decode_stream \<times> 'c \<times> ('x, 'wk) local_queue" where
  "split_stream fresh now cfg s =
     (let codec = (case ws_codec cfg of None \<Rightarrow> fresh | Some c \<Rightarrow> c);
          (timer, interval) =
            (case ws_heartbeat cfg of
               Some dur \<Rightarrow> (Some (now + dur), dur)
             | None \<Rightarrow> (None, secs 1));
          queue = lq_new
      in (\<lparr>de_stream = s, timer = timer,
           beat = hb_new now interval (ws_timeout cfg) (ws_server_send_heartbeat cfg),
           de_codec = codec, read_buf = []\<rparr>,
          codec, lq_clone queue))"

definition frame_message ::
  "(bytes \<Rightarrow> string + 't) \<Rightarrow> ('it, 'cr) ws_frame
     \<Rightarrow> 'pe protocol_error + ('t, 'it, 'cr) ws_message" where
  "frame_message utf8 frame =
     (case frame of
        FrameText data \<Rightarrow> (case utf8 data of Inl e \<Rightarrow> Err (ProtoIo e) | Inr t \<Rightarrow> Ok (MsgText t))
      | FrameBinary data \<Rightarrow> Ok (MsgBinary data)
      | FramePing s \<Rightarrow> Ok (MsgPing s)
      | FramePong s \<Rightarrow> Ok (MsgPong s)
      | FrameClose reason \<Rightarrow> Ok (MsgClose reason)
      | FrameContinuation item \<Rightarrow> Ok (MsgContinuation item))"

fun is_heartbeat :: "('it, 'cr) ws_frame \<Rightarrow> bool" where
  "is_heartbeat (FramePing _) = True"
| "is_heartbeat (FramePong _) = True"
| "is_heartbeat _ = False"

text \<open>
  The head of the loop: a frame of the buffer, if it holds one. \<open>None\<close> sends the loop on to the source.
\<close>

definition decode_buffered ::
  "('c, ('it, 'cr) ws_frame, 'pe) decoder \<Rightarrow> (bytes \<Rightarrow> string + 't) \<Rightarrow> instant
     \<Rightarrow> ('s, 'c) decode_stream
     \<Rightarrow> ('pe protocol_error + ('t, 'it, 'cr) ws_message) option \<times> ('s, 'c) decode_stream" where
  "decode_buffered dec utf8 now st =
     (if read_buf st = [] then (None, st)
      else (let (r, c, buf) = dec (de_codec st) (read_buf st);
                st1 = st\<lparr>de_codec := c, read_buf := buf\<rparr>
            in case r of
                 Inl e \<Rightarrow> (Some (Err (ProtoCodec e)), st1)
               | Inr None \<Rightarrow> (None, st1)
               | Inr (Some frame) \<Rightarrow>
                   (Some (frame_message utf8 frame),
                    if is_heartbeat frame then st1\<lparr>beat := hb_update now (beat st1)\<rparr> else st1)))"

text \<open>The literal \<open>b"ping"\<close>.\<close>

definition ping_bytes :: bytes where "ping_bytes = [112, 105, 110, 103]"

text \<open>
  The branch of a source that is not ready. \<open>normal\<close> is \<open>CloseCode::Normal.into()\<close>. Sending a message
  gives the waker it wakes.
\<close>

definition decode_idle ::
  "'cr \<Rightarrow> (instant \<Rightarrow> bool) \<Rightarrow> ('s, 'c) decode_stream
     \<Rightarrow> (('t, 'it, 'cr) ws_message, 'wk) local_queue
     \<Rightarrow> ('pe protocol_error + ('t, 'it, 'cr) ws_message) option poll \<times> ('s, 'c) decode_stream
         \<times> (('t, 'it, 'cr) ws_message, 'wk) local_queue \<times> 'wk option" where
  "decode_idle normal ready st q =
     (case timer st of
        None \<Rightarrow> (Pending, st, q, None)
      | Some sleep \<Rightarrow>
          (if ready sleep
           then (case hb_set (beat st) sleep of
                   (True, sleep') \<Rightarrow>
                     (let (woken, q') = (if hb_server_send (beat st) then lq_ping ping_bytes q else (None, q))
                      in (Pending, st\<lparr>timer := Some sleep'\<rparr>, q', woken))
                 | (False, _) \<Rightarrow>
                     (let (woken, q') = lq_close (Some normal) q in (Ready None, st, q', woken)))
           else (Pending, st, q, None)))"

text \<open>A source that always has another chunk, and a codec that never finds a frame, never end the loop.\<close>

partial_function (option) decode_poll_next ::
  "('c, ('it, 'cr) ws_frame, 'pe) decoder \<Rightarrow> (bytes \<Rightarrow> string + 't)
     \<Rightarrow> ('s \<Rightarrow> ('e + bytes) option poll \<times> 's) \<Rightarrow> ('e \<Rightarrow> string) \<Rightarrow> 'cr \<Rightarrow> instant \<Rightarrow> (instant \<Rightarrow> bool)
     \<Rightarrow> ('s, 'c) decode_stream \<Rightarrow> (('t, 'it, 'cr) ws_message, 'wk) local_queue
     \<Rightarrow> (('pe protocol_error + ('t, 'it, 'cr) ws_message) option poll \<times> ('s, 'c) decode_stream
          \<times> (('t, 'it, 'cr) ws_message, 'wk) local_queue \<times> 'wk option) option" where
  "decode_poll_next dec utf8 nxt fmt normal now ready st q =
     (case decode_buffered dec utf8 now st of
        (Some item, st1) \<Rightarrow> Some (Ready (Some item), st1, q, None)
      | (None, st1) \<Rightarrow>
          (case nxt (de_stream st1) of
             (Ready (Some (Inr chunk)), s) \<Rightarrow>
               decode_poll_next dec utf8 nxt fmt normal now ready
                 (st1\<lparr>de_stream := s, read_buf := read_buf st1 @ chunk\<rparr>) q
           | (Ready (Some (Inl e)), s) \<Rightarrow>
               Some (Ready (Some (Err (ProtoIo (fmt e)))), st1\<lparr>de_stream := s\<rparr>, q, None)
           | (Ready None, s) \<Rightarrow> Some (Ready None, st1\<lparr>de_stream := s\<rparr>, q, None)
           | (Pending, s) \<Rightarrow> Some (decode_idle normal ready (st1\<lparr>de_stream := s\<rparr>) q)))"

declare decode_poll_next.simps [code]

text \<open>\<open>TryNext\<close> turns the item inside out; \<open>Next\<close> passes the poll on.\<close>

definition try_next :: "('pe protocol_error + 'm) option poll \<Rightarrow> ('pe protocol_error + 'm option) poll" where
  "try_next p =
     (case p of
        Ready (Some (Inr msg)) \<Rightarrow> Ready (Ok (Some msg))
      | Ready None \<Rightarrow> Ready (Ok None)
      | Ready (Some (Inl e)) \<Rightarrow> Ready (Err e)
      | Pending \<Rightarrow> Pending)"

subsection \<open>Chunks do not matter\<close>

text \<open>
  What the documentation of \<open>Decoder\<close> asks of a codec: asking for more bytes consumes nothing, a frame is
  never found in no bytes, and the bytes behind a complete frame, or behind an error, do not change
  what is found.
\<close>

definition decoder_law :: "('c, 'f, 'pe) decoder \<Rightarrow> bool" where
  "decoder_law dec \<longleftrightarrow>
     (\<forall>c. dec c [] = (Inr None, c, [])) \<and>
     (\<forall>c b c' b'. dec c b = (Inr None, c', b') \<longrightarrow> c' = c \<and> b' = b) \<and>
     (\<forall>c b f c' b' x. dec c b = (Inr (Some f), c', b') \<longrightarrow> dec c (b @ x) = (Inr (Some f), c', b' @ x)) \<and>
     (\<forall>c b e c' b' x. dec c b = (Inl e, c', b') \<longrightarrow> (\<exists>c'' b''. dec c (b @ x) = (Inl e, c'', b'')))"

text \<open>The frames a codec finds in some bytes, one after another, and what is left.\<close>

inductive parses ::
  "('c, 'f, 'pe) decoder \<Rightarrow> 'c \<Rightarrow> bytes \<Rightarrow> 'f list \<Rightarrow> 'c \<Rightarrow> bytes \<Rightarrow> bool" for dec where
  parses_end: "dec c b = (Inr None, c, b) \<Longrightarrow> parses dec c b [] c b"
| parses_frame: "dec c b = (Inr (Some f), c1, b1) \<Longrightarrow> parses dec c1 b1 fs c2 b2
    \<Longrightarrow> parses dec c b (f # fs) c2 b2"

inductive_cases parses_NilE: "parses dec c b [] c' b'"
inductive_cases parses_ConsE: "parses dec c b (f # fs) c' b'"

text \<open>A source that has the given chunks and then ends, and polling \<open>n\<close> times.\<close>

fun chunk_next :: "bytes list \<Rightarrow> ('e + bytes) option poll \<times> bytes list" where
  "chunk_next [] = (Ready None, [])"
| "chunk_next (ch # cs) = (Ready (Some (Inr ch)), cs)"

type_synonym ('t, 'it, 'cr, 'pe) decoded = "('pe protocol_error + ('t, 'it, 'cr) ws_message) option poll"

fun decode_polls ::
  "(('s, 'c) decode_stream \<Rightarrow> ('x, 'wk) local_queue
     \<Rightarrow> ('p \<times> ('s, 'c) decode_stream \<times> ('x, 'wk) local_queue \<times> 'wk option) option)
     \<Rightarrow> nat \<Rightarrow> ('s, 'c) decode_stream \<Rightarrow> ('x, 'wk) local_queue
     \<Rightarrow> ('p list \<times> ('s, 'c) decode_stream \<times> ('x, 'wk) local_queue) option" where
  "decode_polls poll 0 st q = Some ([], st, q)"
| "decode_polls poll (Suc n) st q =
     (case poll st q of
        None \<Rightarrow> None
      | Some (p, st1, q1, _) \<Rightarrow>
          (case decode_polls poll n st1 q1 of
             None \<Rightarrow> None
           | Some (ps, st2, q2) \<Rightarrow> Some (p # ps, st2, q2)))"

lemma decode_buffered_frame:
  assumes "decoder_law dec" "dec (de_codec st) (read_buf st) = (Inr (Some f), c1, b1)"
  shows "\<exists>h. decode_buffered dec utf8 now st =
     (Some (frame_message utf8 f), st\<lparr>de_codec := c1, read_buf := b1, beat := h\<rparr>)"
proof -
  have "read_buf st \<noteq> []" using assms by (auto simp: decoder_law_def)
  then show ?thesis
    by (intro exI [of _ "if is_heartbeat f then hb_update now (beat st) else beat st"], cases st)
      (use assms(2) in \<open>simp add: decode_buffered_def\<close>)
qed

lemma decode_buffered_none:
  assumes "decoder_law dec" "dec (de_codec st) (read_buf st) = (Inr None, c1, b1)"
  shows "decode_buffered dec utf8 now st = (None, st)"
  using assms by (auto simp: decode_buffered_def decoder_law_def)

text \<open>The next frame of the whole input comes out of one poll, however the input is cut.\<close>

lemma poll_finds_frame:
  assumes law: "decoder_law dec"
    and "parses dec (de_codec st) (read_buf st @ concat (de_stream st)) (f # fs) c' b'"
  shows "\<exists>st'. decode_poll_next dec utf8 chunk_next fmt normal now ready st q =
           Some (Ready (Some (frame_message utf8 f)), st', q, None)
     \<and> parses dec (de_codec st') (read_buf st' @ concat (de_stream st')) fs c' b'"
  using assms(2)
proof (induction "de_stream st" arbitrary: st)
  case Nil
  then obtain c1 b1 where d: "dec (de_codec st) (read_buf st) = (Inr (Some f), c1, b1)"
    and rest: "parses dec c1 b1 fs c' b'" by (auto elim: parses_ConsE)
  obtain h where "decode_buffered dec utf8 now st =
      (Some (frame_message utf8 f), st\<lparr>de_codec := c1, read_buf := b1, beat := h\<rparr>)"
    using decode_buffered_frame [OF law d] by blast
  with Nil rest show ?case by (subst decode_poll_next.simps) simp
next
  case (Cons ch cs)
  obtain r c1 b1 where d: "dec (de_codec st) (read_buf st) = (r, c1, b1)" by (metis prod_cases3)
  obtain c2 b2 where whole: "dec (de_codec st) (read_buf st @ ch @ concat cs) = (Inr (Some f), c2, b2)"
    and rest: "parses dec c2 b2 fs c' b'"
    using Cons.prems Cons.hyps(2) [symmetric] by (auto elim: parses_ConsE)
  show ?case
  proof (cases r)
    case (Inl e)
    with law d whole show ?thesis unfolding decoder_law_def by (metis Inl_not_Inr prod.inject)
  next
    case (Inr opt)
    show ?thesis
    proof (cases opt)
      case None
      with Inr d have none: "decode_buffered dec utf8 now st = (None, st)"
        by (intro decode_buffered_none [OF law]) simp
      let ?st = "st\<lparr>de_stream := cs, read_buf := read_buf st @ ch\<rparr>"
      have "decode_poll_next dec utf8 chunk_next fmt normal now ready st q =
          decode_poll_next dec utf8 chunk_next fmt normal now ready ?st q"
        using Cons.hyps(2) [symmetric] by (subst decode_poll_next.simps) (simp add: none)
      with Cons.hyps(1) [of ?st] Cons.prems Cons.hyps(2) [symmetric] show ?thesis by simp
    next
      case (Some f')
      with law d Inr have "dec (de_codec st) (read_buf st @ ch @ concat cs) =
          (Inr (Some f'), c1, b1 @ ch @ concat cs)" by (simp add: decoder_law_def)
      with whole have f: "f' = f" "c1 = c2" "b2 = b1 @ ch @ concat cs" by simp_all
      with Some Inr d obtain h where "decode_buffered dec utf8 now st =
          (Some (frame_message utf8 f), st\<lparr>de_codec := c2, read_buf := b1, beat := h\<rparr>)"
        using decode_buffered_frame [OF law, of st f] by blast
      with rest f Cons.hyps(2) [symmetric] show ?thesis by (subst decode_poll_next.simps) simp
    qed
  qed
qed

lemma poll_finds_end:
  assumes law: "decoder_law dec"
    and "parses dec (de_codec st) (read_buf st @ concat (de_stream st)) [] c' b'"
  shows "\<exists>st'. decode_poll_next dec utf8 chunk_next fmt normal now ready st q =
           Some (Ready None, st', q, None)"
  using assms(2)
proof (induction "de_stream st" arbitrary: st)
  case Nil
  then have "dec (de_codec st) (read_buf st) = (Inr None, de_codec st, read_buf st)"
    by (auto elim: parses_NilE)
  note none = decode_buffered_none [OF law this]
  show ?case by (subst decode_poll_next.simps) (simp add: none Nil.hyps [symmetric])
next
  case (Cons ch cs)
  obtain r c1 b1 where d: "dec (de_codec st) (read_buf st) = (r, c1, b1)" by (metis prod_cases3)
  have whole: "dec (de_codec st) (read_buf st @ ch @ concat cs) =
      (Inr None, de_codec st, read_buf st @ ch @ concat cs)"
    using Cons.prems Cons.hyps(2) [symmetric] by (auto elim: parses_NilE)
  have "r = Inr None"
  proof (cases r)
    case (Inl e)
    with law d whole show ?thesis unfolding decoder_law_def by (metis Inl_not_Inr prod.inject)
  next
    case (Inr opt)
    with law d whole show ?thesis unfolding decoder_law_def
      by (cases opt) (metis option.distinct(1) prod.inject sum.inject(2))+
  qed
  with d have none: "decode_buffered dec utf8 now st = (None, st)"
    by (intro decode_buffered_none [OF law]) simp
  let ?st = "st\<lparr>de_stream := cs, read_buf := read_buf st @ ch\<rparr>"
  have "decode_poll_next dec utf8 chunk_next fmt normal now ready st q =
      decode_poll_next dec utf8 chunk_next fmt normal now ready ?st q"
    using Cons.hyps(2) [symmetric] by (subst decode_poll_next.simps) (simp add: none)
  with Cons.hyps(1) [of ?st] Cons.prems Cons.hyps(2) [symmetric] show ?case by simp
qed

lemma polls_find_frames:
  assumes law: "decoder_law dec"
  shows "parses dec (de_codec st) (read_buf st @ concat (de_stream st)) fs c' b' \<Longrightarrow>
     \<exists>st'. decode_polls (decode_poll_next dec utf8 chunk_next fmt normal now ready) (Suc (length fs)) st q =
       Some (map (\<lambda>f. Ready (Some (frame_message utf8 f))) fs @ [Ready None], st', q)"
proof (induction fs arbitrary: st)
  case Nil
  obtain st' where "decode_poll_next dec utf8 chunk_next fmt normal now ready st q = Some (Ready None, st', q, None)"
    using poll_finds_end [OF law Nil] by blast
  then show ?case by simp
next
  case (Cons f fs)
  from poll_finds_frame [OF law Cons.prems, of utf8 fmt normal now ready q] obtain st1
    where "decode_poll_next dec utf8 chunk_next fmt normal now ready st q =
        Some (Ready (Some (frame_message utf8 f)), st1, q, None)"
      and "parses dec (de_codec st1) (read_buf st1 @ concat (de_stream st1)) fs c' b'" by blast
  with Cons.IH [of st1] show ?case by (auto simp del: decode_polls.simps simp: decode_polls.simps(2) [of _ "Suc (length fs)"])
qed

text \<open>
  C31. The messages of a connection do not depend on how its bytes were cut into chunks: polling yields
  the message of each frame that the codec finds in the whole input, in order, a badly encoded text as
  an error in its place, and then the end.
\<close>

theorem chunks_do_not_matter:
  assumes "decoder_law dec" and "parses dec c (concat chunks) fs c' b'"
  shows "\<exists>st' q'. decode_polls (decode_poll_next dec utf8 chunk_next fmt normal now ready) (Suc (length fs))
       \<lparr>de_stream = chunks, timer = t, beat = h, de_codec = c, read_buf = []\<rparr> q =
       Some (map (\<lambda>f. Ready (Some (frame_message utf8 f))) fs @ [Ready None], st', q')"
  using polls_find_frames [OF assms(1), where st = "\<lparr>de_stream = chunks, timer = t, beat = h, de_codec = c, read_buf = []\<rparr>"]
    assms(2) by fastforce

subsection \<open>A silent client\<close>

text \<open>A source that is never ready, polled each time the timer has elapsed.\<close>

definition silent :: "'s \<Rightarrow> ('e + bytes) option poll \<times> 's" where "silent s = (Pending, s)"

lemma silent_poll:
  assumes "read_buf st = []" "timer st = Some d"
  shows "decode_poll_next dec utf8 silent fmt normal now (\<lambda>_. True) st q =
     Some (if hb_deadline (beat st) \<le> d
           then (Ready None, st, snd (lq_close (Some normal) q), fst (lq_close (Some normal) q))
           else (Pending, st\<lparr>timer := Some (d + hb_interval (beat st))\<rparr>,
                 if hb_server_send (beat st) then snd (lq_ping ping_bytes q) else q,
                 if hb_server_send (beat st) then fst (lq_ping ping_bytes q) else None))"
  using assms
  by (subst decode_poll_next.simps)
    (simp add: decode_buffered_def silent_def decode_idle_def hb_set_def Let_def split_def)

lemma lq_ping_queue [simp]: "lq_queue (snd (lq_ping b q)) = lq_queue q @ [MsgPing b]"
  by (simp add: op_defs)

lemma lq_close_queue [simp]: "lq_queue (snd (lq_close r q)) = lq_queue q @ [MsgClose r]"
  by (simp add: op_defs)

lemma silent_polls:
  assumes "read_buf st = []"
  shows "timer st = Some d \<Longrightarrow> hb_deadline (beat st) \<le> d + n * hb_interval (beat st) \<Longrightarrow>
     \<forall>k < n. d + k * hb_interval (beat st) < hb_deadline (beat st) \<Longrightarrow>
     \<exists>st' q'. decode_polls (decode_poll_next dec utf8 silent fmt normal now (\<lambda>_. True)) (Suc n) st q =
         Some (replicate n Pending @ [Ready None], st', q')
       \<and> lq_queue q' = lq_queue q
           @ (if hb_server_send (beat st) then replicate n (MsgPing ping_bytes) else [])
           @ [MsgClose (Some normal)]"
  using assms
proof (induction n arbitrary: st d q)
  case 0
  then show ?case by (simp add: silent_poll [OF 0(4,1)])
next
  case (Suc n)
  let ?i = "hb_interval (beat st)"
  let ?q = "if hb_server_send (beat st) then snd (lq_ping ping_bytes q) else q"
  have alive: "\<not> hb_deadline (beat st) \<le> d" using Suc.prems(3) by force
  have "\<forall>k < n. d + ?i + k * ?i < hb_deadline (beat st)"
  proof (intro allI impI)
    fix k assume "k < n"
    then have "d + Suc k * ?i < hb_deadline (beat st)" using Suc.prems(3) Suc_less_eq by blast
    then show "d + ?i + k * ?i < hb_deadline (beat st)" by simp
  qed
  with Suc.IH [of "st\<lparr>timer := Some (d + ?i)\<rparr>" "d + ?i" ?q] Suc.prems(2,4) obtain st' q'
    where "decode_polls (decode_poll_next dec utf8 silent fmt normal now (\<lambda>_. True)) (Suc n)
        (st\<lparr>timer := Some (d + ?i)\<rparr>) ?q = Some (replicate n Pending @ [Ready None], st', q')"
      and "lq_queue q' = lq_queue ?q
        @ (if hb_server_send (beat st) then replicate n (MsgPing ping_bytes) else [])
        @ [MsgClose (Some normal)]"
    by (auto simp: add.assoc)
  with alive show ?case
    by (subst decode_polls.simps) (simp add: silent_poll [OF Suc.prems(4,1)] del: decode_polls.simps)
qed

text \<open>
  C34. A silent client is disconnected: with a positive interval the connection is closed at the first
  tick of the timer that is not before the deadline, hence less than one interval after it; before
  that every tick keeps it open and sends a ping if the server is to, and the close frame is the
  last message queued.
\<close>

theorem silent_client_closed:
  assumes "0 < hb_interval (beat st)" and "read_buf st = []" and "timer st = Some d"
  shows "\<exists>n st' q'. hb_deadline (beat st) \<le> d + n * hb_interval (beat st)
     \<and> (\<forall>k < n. d + k * hb_interval (beat st) < hb_deadline (beat st))
     \<and> decode_polls (decode_poll_next dec utf8 silent fmt normal now (\<lambda>_. True)) (Suc n) st q =
         Some (replicate n Pending @ [Ready None], st', q')
     \<and> lq_queue q' = lq_queue q
           @ (if hb_server_send (beat st) then replicate n (MsgPing ping_bytes) else [])
           @ [MsgClose (Some normal)]"
proof -
  let ?P = "\<lambda>n. hb_deadline (beat st) \<le> d + n * hb_interval (beat st)"
  have "hb_deadline (beat st) \<le> hb_deadline (beat st) * hb_interval (beat st)" using assms(1) by simp
  then have "?P (hb_deadline (beat st))" by linarith
  then have least: "?P (Least ?P)" by (rule LeastI)
  have before: "\<forall>k < Least ?P. d + k * hb_interval (beat st) < hb_deadline (beat st)"
    using not_less_Least by (metis not_le)
  from silent_polls [OF assms(2,3) least before, of dec utf8 fmt normal now q] obtain st' q' where
    "decode_polls (decode_poll_next dec utf8 silent fmt normal now (\<lambda>_. True)) (Suc (Least ?P)) st q =
        Some (replicate (Least ?P) Pending @ [Ready None], st', q')"
    "lq_queue q' = lq_queue q @ (if hb_server_send (beat st) then replicate (Least ?P) (MsgPing ping_bytes) else [])
        @ [MsgClose (Some normal)]" by blast
  with least before show ?thesis
    by (intro exI [of _ "Least ?P"] exI [of _ st'] exI [of _ q']) (simp only: simp_thms)
qed

subsection \<open>The theorems at work\<close>

text \<open>A codec whose frames are one byte each, except that a zero asks for the byte behind it.\<close>

definition demo_dec :: "(unit, (unit, unit) ws_frame, nat) decoder" where
  "demo_dec c b =
     (case b of
        [] \<Rightarrow> (Inr None, c, [])
      | x # xs \<Rightarrow> (if x \<noteq> 0 then (Inr (Some (FrameText [x])), c, xs)
                   else (case xs of [] \<Rightarrow> (Inr None, c, b) | y # ys \<Rightarrow> (Inr (Some (FramePing [y])), c, ys))))"

lemma demo_dec_law: "decoder_law demo_dec"
  by (auto simp: decoder_law_def demo_dec_def split: list.splits if_splits)

definition demo_utf8 :: "bytes \<Rightarrow> string + bytes" where
  "demo_utf8 b = (if b = [200] then Err ''bad'' else Ok b)"

theorem chunks_do_not_matter_witness:
  "\<exists>st' q'. decode_polls
     (decode_poll_next demo_dec demo_utf8 chunk_next (\<lambda>e :: nat. []) () 0 (\<lambda>_. False)) (Suc 3)
     \<lparr>de_stream = [[5, 0], [], [6, 200]], timer = None, beat = hb_new 0 1 1 False, de_codec = (), read_buf = []\<rparr>
     (lq_new :: (_, nat) local_queue)
   = Some ([Ready (Some (Ok (MsgText [5]))), Ready (Some (Ok (MsgPing [6]))),
            Ready (Some (Err (ProtoIo ''bad''))), Ready None], st', q')"
proof -
  let ?fs = "[FrameText [5], FramePing [6], FrameText [200]] :: (unit, unit) ws_frame list"
  have parse: "parses demo_dec () (concat [[5, 0], [], [6, 200]]) ?fs () []"
    by (auto intro!: parses.intros simp: demo_dec_def)
  have msgs: "map (\<lambda>f. Ready (Some (frame_message demo_utf8 f))) ?fs @ [Ready None] =
      [Ready (Some (Ok (MsgText [5]))), Ready (Some (Ok (MsgPing [6]))),
       Ready (Some (Err (ProtoIo ''bad'') :: nat protocol_error + (bytes, unit, unit) ws_message)), Ready None]"
    by (simp add: frame_message_def demo_utf8_def)
  have len: "length ?fs = 3" by simp
  from chunks_do_not_matter [OF demo_dec_law parse, of demo_utf8 "\<lambda>e :: nat. []" "()" 0 "\<lambda>_. False" None
      "hb_new 0 1 1 False" "lq_new :: (_, nat) local_queue"]
  show ?thesis unfolding msgs [symmetric] len [symmetric] .
qed

text \<open>The default settings, ten units to the second: the first tick finds the client in time.\<close>

definition demo_silent :: "(unit, unit) decode_stream" where
  "demo_silent =
     \<lparr>de_stream = (), timer = Some 5, beat = hb_new 0 5 10 True, de_codec = (), read_buf = []\<rparr>"

theorem silent_client_closed_witness:
  "\<exists>n. 10 \<le> 5 + n * 5 \<and> (\<forall>k < n. 5 + k * 5 < (10 :: nat))
     \<and> (\<exists>st' q'. decode_polls
          (decode_poll_next demo_dec demo_utf8 silent (\<lambda>e :: nat. []) () 0 (\<lambda>_. True)) (Suc n)
          demo_silent (lq_new :: (_, nat) local_queue) =
        Some (replicate n Pending @ [Ready None], st', q')
        \<and> lq_queue q' = replicate n (MsgPing ping_bytes) @ [MsgClose (Some ())])"
  using silent_client_closed [of demo_silent 5 demo_dec demo_utf8 "\<lambda>e :: nat. []" "()" 0
      "lq_new :: (_, nat) local_queue"]
  by (auto simp: demo_silent_def hb_new_def lq_new_def)

end
