(* ===== verification/Ws_Connection.thy ===== *)
theory Ws_Connection
  imports Ws_Handshake Ws_Encode Ws_Decode
begin

section \<open>A websocket connection (\<open>actix_send_websocket/src/lib.rs\<close>)\<close>

text \<open>
  The extractor \<open>WebSocket\<close> makes the two streams of a connection from a request: the incoming
  \<open>WebSocketStream\<close>, with a sender of the channel, goes to the handler, the \<open>EncodeStream\<close> into the
  response. At the end the echo handler of the crate's tests is run over them, from the bytes that
  arrive to the bytes that are sent.
\<close>

subsection \<open>The sender\<close>

definition channel_new :: "'x chan" where
  "channel_new = \<lparr>ch_msgs = [], ch_closed = False, ch_senders = 1\<rparr>"

text \<open>\<open>WebSocketStream::sender\<close> clones the stream's sender.\<close>

definition stream_sender :: "'x chan \<Rightarrow> 'x chan" where
  "stream_sender ch = ch\<lparr>ch_senders := ch_senders ch + 1\<rparr>"

definition ws_sender_drop :: "'x chan \<Rightarrow> 'x chan" where
  "ws_sender_drop ch = ch\<lparr>ch_senders := ch_senders ch - 1\<rparr>"

type_synonym ('t, 'it, 'cr) ws_chan = "('t, 'it, 'cr) ws_message chan"

definition sender_text :: "(('t, 'it, 'cr) ws_message \<Rightarrow> 'e) \<Rightarrow> 't \<Rightarrow> ('t, 'it, 'cr) ws_chan
    \<Rightarrow> ('e + unit) \<times> ('t, 'it, 'cr) ws_chan" where
  "sender_text internal t = ws_sender_send internal (MsgText t)"

definition sender_binary :: "(('t, 'it, 'cr) ws_message \<Rightarrow> 'e) \<Rightarrow> bytes \<Rightarrow> ('t, 'it, 'cr) ws_chan
    \<Rightarrow> ('e + unit) \<times> ('t, 'it, 'cr) ws_chan" where
  "sender_binary internal b = ws_sender_send internal (MsgBinary b)"

definition sender_ping :: "(('t, 'it, 'cr) ws_message \<Rightarrow> 'e) \<Rightarrow> bytes \<Rightarrow> ('t, 'it, 'cr) ws_chan
    \<Rightarrow> ('e + unit) \<times> ('t, 'it, 'cr) ws_chan" where
  "sender_ping internal b = ws_sender_send internal (MsgPing b)"

definition sender_pong :: "(('t, 'it, 'cr) ws_message \<Rightarrow> 'e) \<Rightarrow> bytes \<Rightarrow> ('t, 'it, 'cr) ws_chan
    \<Rightarrow> ('e + unit) \<times> ('t, 'it, 'cr) ws_chan" where
  "sender_pong internal b = ws_sender_send internal (MsgPong b)"

definition sender_close :: "(('t, 'it, 'cr) ws_message \<Rightarrow> 'e) \<Rightarrow> 'cr option \<Rightarrow> ('t, 'it, 'cr) ws_chan
    \<Rightarrow> ('e + unit) \<times> ('t, 'it, 'cr) ws_chan" where
  "sender_close internal r = ws_sender_send internal (MsgClose r)"

subsection \<open>The extractor\<close>

text \<open>\<open>WebSocketFuture\<close> has its result ready once; a second poll unwraps \<open>None\<close>, which is a panic.\<close>

record 'r web_future =
  fut_res :: "'r option"

definition web_future_new :: "'r \<Rightarrow> 'r web_future" where
  "web_future_new r = \<lparr>fut_res = Some r\<rparr>"

definition web_future_poll :: "'r web_future \<Rightarrow> ('r poll \<times> 'r web_future) option" where
  "web_future_poll f = map_option (\<lambda>r. (Ready r, f\<lparr>fut_res := None\<rparr>)) (fut_res f)"

text \<open>What the extractor hands out: the stream, the response, its body, and the queue the two share.\<close>

record ('s, 'c, 'x, 'wk) web_socket =
  sock_stream :: "('s, 'c) decode_stream"
  sock_response :: response
  sock_body :: "('x chan, 'c) encode_stream"
  sock_queue :: "('x, 'wk) local_queue"

definition from_request ::
  "(string \<Rightarrow> string option) \<Rightarrow> (string \<Rightarrow> string) \<Rightarrow> 'c \<Rightarrow> instant \<Rightarrow> 'c ws_config option
     \<Rightarrow> 'c ws_config option \<Rightarrow> http_request \<Rightarrow> 's
     \<Rightarrow> (handshake_error + ('s, 'c, 'x, 'wk) web_socket) web_future" where
  "from_request to_str hash_key fresh now plain data req payload =
     (let cfg = ws_from_req plain data
      in case request_handshake to_str hash_key cfg req of
           Inr res \<Rightarrow>
             (let (stream, codec, queue) = split_stream fresh now cfg payload
              in web_future_new (Ok \<lparr>sock_stream = stream, sock_response = res,
                   sock_body = encode_stream_new channel_new codec, sock_queue = queue\<rparr>))
         | Inl e \<Rightarrow> web_future_new (Err e))"

lemmas connection_defs [op_defs] =
  channel_new_def stream_sender_def ws_sender_drop_def sender_text_def sender_binary_def sender_ping_def
  sender_pong_def sender_close_def web_future_new_def web_future_poll_def from_request_def

text \<open>
  A request becomes a connection exactly when its handshake succeeds, with the settings of the
  application or the default: the future is ready at the first poll (and panics at a second one), both
  streams start with the same codec and empty buffers, the timer and the deadline are set from the
  settings, nothing is queued, and the body does not see the incoming stream as closed.
\<close>

theorem from_request_outcome:
  fixes fut :: "(handshake_error + ('s, 'c, 'x, 'wk) web_socket) web_future"
  assumes "from_request to_str hash_key fresh now plain data req payload = fut"
    and "ws_from_req plain data = cfg"
  shows "\<exists>r. web_future_poll fut = Some (Ready r, \<lparr>fut_res = None\<rparr>)
     \<and> web_future_poll \<lparr>fut_res = None :: (handshake_error + ('s, 'c, 'x, 'wk) web_socket) option\<rparr> = None
     \<and> (case request_handshake to_str hash_key cfg req of
          Inl e \<Rightarrow> r = Err e
        | Inr res \<Rightarrow> \<exists>sock. r = Ok sock \<and> sock_response sock = res
            \<and> de_stream (sock_stream sock) = payload
            \<and> de_codec (sock_stream sock) = (case ws_codec cfg of None \<Rightarrow> fresh | Some c \<Rightarrow> c)
            \<and> en_codec (sock_body sock) = de_codec (sock_stream sock)
            \<and> read_buf (sock_stream sock) = [] \<and> write_buf (sock_body sock) = []
            \<and> timer (sock_stream sock) = map_option (\<lambda>d. now + d) (ws_heartbeat cfg)
            \<and> hb_deadline (beat (sock_stream sock)) = now + ws_timeout cfg
            \<and> lq_queue (sock_queue sock) = [] \<and> \<not> lq_is_closed (sock_queue sock)
            \<and> ch_msgs (en_rx (sock_body sock)) = [] \<and> \<not> ch_closed (en_rx (sock_body sock)))"
  using assms
  by (auto simp: connection_defs split_stream_def encode_stream_new_def lq_defs hb_new_def Let_def
      split: sum.splits option.splits)

theorem from_request_outcome_witness:
  "\<exists>r. web_future_poll (from_request Some rev (7 :: nat) 100 (None :: nat ws_config option) None
        \<lparr>req_method = GET, req_headers = Map.empty, req_upgrade = True\<rparr> (0 :: nat)
        :: (handshake_error + (nat, nat, nat, nat) web_socket) web_future)
      = Some (Ready r, \<lparr>fut_res = None\<rparr>) \<and> r = Err NoWebsocketUpgrade"
  using from_request_outcome [of Some rev "7 :: nat" 100 "None :: nat ws_config option" None
      "\<lparr>req_method = GET, req_headers = Map.empty, req_upgrade = True\<rparr>" "0 :: nat", OF refl refl]
  by (auto simp: request_handshake_def handshake_with_protocols_def has_upgrade_header_def ws_from_req_def
      DEFAULT_CONFIG_def)

subsection \<open>The echo handler (\<open>tests/websockets.rs\<close>)\<close>

text \<open>One message: what it queues, and whether the loop goes on. Any other message returns.\<close>

definition echo_message ::
  "('t, 'it, 'cr) ws_message \<Rightarrow> (('t, 'it, 'cr) ws_message, 'wk) local_queue
     \<Rightarrow> bool \<times> (('t, 'it, 'cr) ws_message, 'wk) local_queue" where
  "echo_message msg q =
     (case msg of
        MsgText t \<Rightarrow> (True, snd (lq_text t q))
      | MsgBinary b \<Rightarrow> (True, snd (lq_binary b q))
      | MsgPing b \<Rightarrow> (True, snd (lq_pong b q))
      | MsgClose r \<Rightarrow> (False, snd (lq_close r q))
      | _ \<Rightarrow> (False, q))"

text \<open>
  The task: it polls the stream for the next message until the loop ends, and then drops the stream.
  While the stream is pending it waits: \<open>False\<close> says it is still alive. A client that never stops
  sending keeps it busy forever.
\<close>

partial_function (option) echo_task ::
  "('st \<Rightarrow> (('t, 'it, 'cr) ws_message, 'wk) local_queue
       \<Rightarrow> (('pe protocol_error + ('t, 'it, 'cr) ws_message) option poll \<times> 'st
            \<times> (('t, 'it, 'cr) ws_message, 'wk) local_queue \<times> 'wk option) option)
     \<Rightarrow> 'st \<Rightarrow> (('t, 'it, 'cr) ws_message, 'wk) local_queue
     \<Rightarrow> (bool \<times> 'st \<times> (('t, 'it, 'cr) ws_message, 'wk) local_queue) option" where
  "echo_task poll st q =
     (case poll st q of
        None \<Rightarrow> None
      | Some (p, st1, q1, _) \<Rightarrow>
          (case p of
             Pending \<Rightarrow> Some (False, st1, q1)
           | Ready (Some (Inr msg)) \<Rightarrow>
               (case echo_message msg q1 of
                  (go, q2) \<Rightarrow>
                    if go then echo_task poll st1 q2 else Some (True, st1, snd (ws_stream_drop q2)))
           | Ready _ \<Rightarrow> Some (True, st1, snd (ws_stream_drop q1))))"

text \<open>What the client should get back.\<close>

fun echo_replies :: "('pe protocol_error + ('t, 'it, 'cr) ws_message) list \<Rightarrow> ('t, 'it, 'cr) ws_message list" where
  "echo_replies (Inr (MsgText t) # ms) = MsgText t # echo_replies ms"
| "echo_replies (Inr (MsgBinary b) # ms) = MsgBinary b # echo_replies ms"
| "echo_replies (Inr (MsgPing b) # ms) = MsgPong b # echo_replies ms"
| "echo_replies (Inr (MsgClose r) # ms) = [MsgClose r]"
| "echo_replies _ = []"

lemma echo_task_replies:
  fixes dec :: "('c, ('it, 'cr) ws_frame, 'pe) decoder" and utf8 :: "bytes \<Rightarrow> string + 't"
  defines "msg_of \<equiv> frame_message utf8 :: _ \<Rightarrow> 'pe protocol_error + ('t, 'it, 'cr) ws_message"
  assumes law: "decoder_law dec"
  shows "parses dec (de_codec st) (read_buf st @ concat (de_stream st)) fs c' b' \<Longrightarrow>
     \<exists>st' q'. echo_task (decode_poll_next dec utf8 chunk_next fmt normal now ready) st q = Some (True, st', q')
       \<and> lq_queue q' = lq_queue q @ echo_replies (map msg_of fs)
       \<and> lq_strong q' = lq_strong q - 1"
proof (induction fs arbitrary: st q)
  case Nil
  obtain st' where "decode_poll_next dec utf8 chunk_next fmt normal now ready st q = Some (Ready None, st', q, None)"
    using poll_finds_end [OF law Nil] by blast
  then show ?case by (subst echo_task.simps) (simp add: ws_stream_drop_def lq_wake_def)
next
  case (Cons f fs)
  from poll_finds_frame [OF law Cons.prems, of utf8 fmt normal now ready q, folded msg_of_def] obtain st1
    where poll: "decode_poll_next dec utf8 chunk_next fmt normal now ready st q =
        Some (Ready (Some (msg_of f)), st1, q, None)"
      and rest: "parses dec (de_codec st1) (read_buf st1 @ concat (de_stream st1)) fs c' b'" by blast
  note IH = Cons.IH [OF rest]
  show ?case
  proof (cases "msg_of f")
    case (Inl e)
    with poll show ?thesis by (subst echo_task.simps) (simp add: ws_stream_drop_def lq_wake_def)
  next
    case (Inr msg)
    show ?thesis
    proof (cases "fst (echo_message msg q)")
      case True
      then have "echo_task (decode_poll_next dec utf8 chunk_next fmt normal now ready) st q
          = echo_task (decode_poll_next dec utf8 chunk_next fmt normal now ready) st1 (snd (echo_message msg q))"
        using poll Inr by (subst echo_task.simps) (simp add: split_def)
      moreover from True have "lq_queue q @ echo_replies (Inr msg # map msg_of fs)
          = lq_queue (snd (echo_message msg q)) @ echo_replies (map msg_of fs)"
        "lq_strong (snd (echo_message msg q)) = lq_strong q"
        by (cases msg; simp add: echo_message_def lq_defs)+
      ultimately show ?thesis using IH [of "snd (echo_message msg q)"] Inr by simp
    next
      case False
      with poll Inr show ?thesis
        by (subst echo_task.simps, cases msg) (simp_all add: echo_message_def lq_defs ws_stream_drop_def)
    qed
  qed
qed


subsection \<open>The theorems at work\<close>

definition echo_request :: http_request where
  "echo_request = \<lparr>req_method = GET,
     req_headers = [UPGRADE \<mapsto> ''websocket'', SEC_WEBSOCKET_VERSION \<mapsto> ''13'', SEC_WEBSOCKET_KEY \<mapsto> ''key''],
     req_upgrade = True\<rparr>"

definition echo_wire :: "unit \<Rightarrow> (bytes, unit, unit) ws_message \<Rightarrow> bytes" where
  "echo_wire c m = (case m of MsgText b \<Rightarrow> b | MsgPong b \<Rightarrow> 0 # b | _ \<Rightarrow> [0])"

definition echo_enc :: "(unit, (bytes, unit, unit) ws_message, nat) encoder" where
  "echo_enc c m buf = (Inr (), (), buf @ echo_wire c m)"

lemma echo_enc_appends: "appends echo_enc echo_wire (\<lambda>c m. ())"
  by (simp add: appends_def echo_enc_def)


end
