(* ===== verification/Chat_Server.thy ===== *)
theory Chat_Server
  imports Ws_Encode
begin

section \<open>The chat server (\<open>examples/websocket-chat2/src/server.rs\<close>)\<close>

text \<open>
  The server that the websocket crate's example shares between all connections: the sender of every
  session, and for each room the set of its sessions. A \<open>HashMap\<close> is a list of keys and values, a
  \<open>HashSet\<close> a list; the order in which Rust iterates over one is the environment's, and so is
  whether a sender's channel still accepts a message. Each operation runs under the server's mutex.

  \<open>send_message\<close> disconnects the sessions it cannot reach, \<open>disconnect\<close> leaves their rooms, and leaving
  a room sends a message again: the recursion ends since every turn of it removes a session.
\<close>

record 'tx chat_server =
  sessions :: "(usize \<times> 'tx) list"
  rooms :: "(string \<times> usize list) list"

record ('tx, 'w) chat_env =
  iter_ids :: "usize list \<Rightarrow> 'w \<Rightarrow> usize list \<times> 'w"
  iter_names :: "string list \<Rightarrow> 'w \<Rightarrow> string list \<times> 'w"
  tx_text :: "'tx \<Rightarrow> string \<Rightarrow> 'w \<Rightarrow> bool \<times> 'w"

definition chat_default :: "'tx chat_server" where
  "chat_default = \<lparr>sessions = [], rooms = [(''Main'', [])]\<rparr>"

subsection \<open>Sending, disconnecting and leaving\<close>

text \<open>The sessions that cannot be reached.\<close>

fun send_each ::
  "('tx, 'w) chat_env \<Rightarrow> (usize \<times> 'tx) list \<Rightarrow> string \<Rightarrow> usize list \<Rightarrow> 'w \<Rightarrow> usize list \<times> 'w" where
  "send_each E ss msg [] w = ([], w)"
| "send_each E ss msg (i # ids) w =
     (case map_of ss i of
        None \<Rightarrow> send_each E ss msg ids w
      | Some tx \<Rightarrow>
          (let (sent, w1) = tx_text E tx msg w;
               (failed, w2) = send_each E ss msg ids w1
           in (if sent then failed else i # failed, w2)))"

definition remove_session :: "usize \<Rightarrow> 'tx chat_server \<Rightarrow> 'tx chat_server" where
  "remove_session i srv = srv\<lparr>sessions := filter (\<lambda>(j, _). j \<noteq> i) (sessions srv)\<rparr>"

definition leave :: "usize \<Rightarrow> 'tx chat_server \<Rightarrow> 'tx chat_server" where
  "leave i srv = srv\<lparr>rooms := map (\<lambda>(n, ids). (n, filter (\<lambda>j. j \<noteq> i) ids)) (rooms srv)\<rparr>"

definition in_room :: "usize \<Rightarrow> 'tx chat_server \<Rightarrow> string \<Rightarrow> bool" where
  "in_room i srv n \<longleftrightarrow> (case map_of (rooms srv) n of None \<Rightarrow> False | Some ids \<Rightarrow> i \<in> set ids)"

definition notice :: string where "notice = ''Someone disconnected''"

definition deliver ::
  "('tx, 'w) chat_env \<Rightarrow> string \<Rightarrow> string \<Rightarrow> usize \<Rightarrow> 'tx chat_server \<Rightarrow> 'w
     \<Rightarrow> (usize list \<times> 'w) option" where
  "deliver E room msg skip srv w =
     map_option
       (\<lambda>members.
         (let (ids, w1) = iter_ids E members w
          in send_each E (sessions srv) msg (filter (\<lambda>j. j \<noteq> skip) ids) w1))
       (map_of (rooms srv) room)"

text \<open>The rooms a session is in, in the order of the map.\<close>

definition rooms_of :: "('tx, 'w) chat_env \<Rightarrow> usize \<Rightarrow> 'tx chat_server \<Rightarrow> 'w \<Rightarrow> string list \<times> 'w" where
  "rooms_of E i srv w =
     (let (names, w1) = iter_names E (map fst (rooms srv)) w in (filter (in_room i srv) names, w1))"

function (sequential) send_message ::
  "('tx, 'w) chat_env \<Rightarrow> string \<Rightarrow> string \<Rightarrow> usize \<Rightarrow> 'tx chat_server \<times> 'w \<Rightarrow> 'tx chat_server \<times> 'w"
and disconnect_each ::
  "('tx, 'w) chat_env \<Rightarrow> usize list \<Rightarrow> 'tx chat_server \<times> 'w \<Rightarrow> 'tx chat_server \<times> 'w"
and disconnect ::
  "('tx, 'w) chat_env \<Rightarrow> usize \<Rightarrow> 'tx chat_server \<times> 'w \<Rightarrow> 'tx chat_server \<times> 'w"
and exit_rooms ::
  "('tx, 'w) chat_env \<Rightarrow> usize \<Rightarrow> 'tx chat_server \<times> 'w \<Rightarrow> 'tx chat_server \<times> 'w"
and notify_rooms ::
  "('tx, 'w) chat_env \<Rightarrow> string list \<Rightarrow> 'tx chat_server \<times> 'w \<Rightarrow> 'tx chat_server \<times> 'w" where
  "send_message E room msg skip (srv, w) =
     (case deliver E room msg skip srv w of
        None \<Rightarrow> (srv, w)
      | Some (failed, w1) \<Rightarrow> disconnect_each E failed (srv, w1))"
| "disconnect_each E [] s = s"
| "disconnect_each E (i # ids) s = disconnect_each E ids (disconnect E i s)"
| "disconnect E i (srv, w) =
     (if map_of (sessions srv) i = None then (srv, w) else exit_rooms E i (remove_session i srv, w))"
| "exit_rooms E i (srv, w) =
     (case rooms_of E i srv w of (names, w1) \<Rightarrow> notify_rooms E names (leave i srv, w1))"
| "notify_rooms E [] s = s"
| "notify_rooms E (room # names) s = notify_rooms E names (send_message E room notice 0 s)"
  by pat_completeness auto

abbreviation session_count :: "'tx chat_server \<times> 'w \<Rightarrow> nat" where
  "session_count s \<equiv> length (sessions (fst s))"

lemma remove_session_count:
  "map_of (sessions srv) i \<noteq> None \<Longrightarrow> length (sessions (remove_session i srv)) < length (sessions srv)"
  unfolding remove_session_def
  by (auto intro!: length_filter_less dest: map_of_SomeD)

lemma leave_sessions [simp]: "sessions (leave i srv) = sessions srv"
  by (simp add: leave_def)

text \<open>What the nested calls rely on, before the recursion is known to end.\<close>

lemma sessions_shrink:
  "send_message_disconnect_each_disconnect_exit_rooms_notify_rooms_dom (Inl (Inl (E, room, msg, skip, s))) \<Longrightarrow>
     session_count (send_message E room msg skip s) \<le> session_count s"
  "send_message_disconnect_each_disconnect_exit_rooms_notify_rooms_dom (Inl (Inr (E, ids, s))) \<Longrightarrow>
     session_count (disconnect_each E ids s) \<le> session_count s"
  "send_message_disconnect_each_disconnect_exit_rooms_notify_rooms_dom (Inr (Inl (E, i, s))) \<Longrightarrow>
     session_count (disconnect E i s) \<le> session_count s"
  "send_message_disconnect_each_disconnect_exit_rooms_notify_rooms_dom (Inr (Inr (Inl (E, i, s)))) \<Longrightarrow>
     session_count (exit_rooms E i s) \<le> session_count s"
  "send_message_disconnect_each_disconnect_exit_rooms_notify_rooms_dom (Inr (Inr (Inr (E, names, s)))) \<Longrightarrow>
     session_count (notify_rooms E names s) \<le> session_count s"
proof (induction E room msg skip s and E ids s and E i s and E i s and E names s
    rule: send_message_disconnect_each_disconnect_exit_rooms_notify_rooms.pinduct)
  case (1 E room msg skip srv w)
  then show ?case by (auto simp: send_message.psimps split: option.splits)
next
  case (4 E i srv w)
  then show ?case
    using remove_session_count [of srv i]
    by (cases "map_of (sessions srv) i = None") (simp_all add: disconnect.psimps)
qed (auto simp: disconnect_each.psimps exit_rooms.psimps notify_rooms.psimps split: prod.splits)

text \<open>
  At the same number of sessions the calls only go down from \<open>exit_rooms\<close> to \<open>notify_rooms\<close> and on to
  \<open>disconnect\<close>, or shorten a list; the call of \<open>exit_rooms\<close> comes with a session less.
\<close>

termination send_message
proof (relation "measures
    [case_sum (case_sum (\<lambda>(E, room, msg, skip, s). session_count s) (\<lambda>(E, ids, s). session_count s))
       (case_sum (\<lambda>(E, i, s). session_count s)
          (case_sum (\<lambda>(E, i, s). session_count s) (\<lambda>(E, names, s). session_count s))),
     case_sum (case_sum (\<lambda>_. 2) (\<lambda>_. 1)) (case_sum (\<lambda>_. 0) (case_sum (\<lambda>_. 4) (\<lambda>_. 3))),
     case_sum (case_sum (\<lambda>_. 0) (\<lambda>(E, ids, s). length ids))
       (case_sum (\<lambda>_. 0) (case_sum (\<lambda>_. 0) (\<lambda>(E, names, s). length names)))]", goal_cases)
  case (4 E i ids s)
  then show ?case using sessions_shrink(3) [of E i s] by auto
next
  case (5 E i srv w)
  then show ?case using remove_session_count [of srv i] by simp
next
  case (8 E room names s)
  then show ?case using sessions_shrink(1) [of E room notice 0 s] by auto
qed auto

subsection \<open>Connecting, joining and listing\<close>

definition insert_session :: "usize \<Rightarrow> 'tx \<Rightarrow> 'tx chat_server \<Rightarrow> 'tx chat_server" where
  "insert_session i tx srv =
     srv\<lparr>sessions := (i, tx) # filter (\<lambda>(j, _). j \<noteq> i) (sessions srv)\<rparr>"

definition join_room :: "usize \<Rightarrow> string \<Rightarrow> 'tx chat_server \<Rightarrow> 'tx chat_server" where
  "join_room i name srv =
     srv\<lparr>rooms :=
       (if map_of (rooms srv) name = None then (name, [i]) # rooms srv
        else map (\<lambda>(n, ids). (n, if n = name then List.insert i ids else ids)) (rooms srv))\<rparr>"

definition connect ::
  "('tx, 'w) chat_env \<Rightarrow> usize \<Rightarrow> 'tx \<Rightarrow> 'tx chat_server \<times> 'w \<Rightarrow> 'tx chat_server \<times> 'w" where
  "connect E i tx s =
     (let (srv, w) = send_message E ''Main'' ''Someone joined'' 0 s
      in (join_room i ''Main'' (insert_session i tx srv), w))"

definition join ::
  "('tx, 'w) chat_env \<Rightarrow> usize \<Rightarrow> string \<Rightarrow> 'tx chat_server \<times> 'w \<Rightarrow> 'tx chat_server \<times> 'w" where
  "join E i name s =
     (let (srv, w) = exit_rooms E i s
      in send_message E name ''Someone connected'' i (join_room i name srv, w))"

definition list_rooms ::
  "('tx, 'w) chat_env \<Rightarrow> 'tx chat_server \<times> 'w \<Rightarrow> string list \<times> 'tx chat_server \<times> 'w" where
  "list_rooms E s = (case s of (srv, w) \<Rightarrow>
     (let (names, w1) = iter_names E (map fst (rooms srv)) w in (names, srv, w1)))"

end
