(* ===== verification/Chat_Correct.thy ===== *)
theory Chat_Correct
  imports Chat_Server
begin

section \<open>What the chat server does\<close>

text \<open>
  The contract of the channels: a sender that accepts a text has it from then on, and a refusal is
  remembered; iterating gives every element once. Under it every operation of the server is a simple
  one, adding, moving or removing a session, followed by the removal of the sessions that refused a
  text; and who stays has received every message of its room, besides the notices.
\<close>

locale text_channels =
  fixes E :: "('tx, 'w) chat_env"
    and accepted :: "'w \<Rightarrow> 'tx \<Rightarrow> string list"
    and refused :: "'w \<Rightarrow> 'tx set"
  assumes ids_order: "mset (fst (iter_ids E xs w)) = mset xs"
    and names_order: "mset (fst (iter_names E ns w)) = mset ns"
    and ids_quiet: "accepted (snd (iter_ids E xs w)) = accepted w" "refused (snd (iter_ids E xs w)) = refused w"
    and names_quiet: "accepted (snd (iter_names E ns w)) = accepted w" "refused (snd (iter_names E ns w)) = refused w"
    and tx_sent: "tx_text E tx m w = (True, w') \<Longrightarrow>
       accepted w' = (accepted w)(tx := accepted w tx @ [m]) \<and> refused w' = refused w"
    and tx_refused: "tx_text E tx m w = (False, w') \<Longrightarrow>
       accepted w' = accepted w \<and> refused w' = insert tx (refused w)"

subsection \<open>Keeping some sessions\<close>

definition keep :: "usize set \<Rightarrow> 'tx chat_server \<Rightarrow> 'tx chat_server" where
  "keep S srv =
     \<lparr>sessions = filter (\<lambda>(i, _). i \<in> S) (sessions srv),
      rooms = map (\<lambda>(n, ids). (n, filter (\<lambda>i. i \<in> S) ids)) (rooms srv)\<rparr>"

definition room_members :: "'tx chat_server \<Rightarrow> usize set" where
  "room_members srv = (\<Union>(n, ids) \<in> set (rooms srv). set ids)"

lemma keep_UNIV [simp]: "keep UNIV srv = srv"
  by (simp add: keep_def)

lemma keep_keep: "keep T (keep S srv) = keep (S \<inter> T) srv"
  by (auto simp: keep_def split_def comp_def conj_commute intro!: filter_cong)

lemma map_of_keep: "map_of (filter (\<lambda>(i, _). i \<in> S) xs) i = (if i \<in> S then map_of xs i else None)"
  by (induction xs) auto

lemma keep_sessions [simp]:
  "map_of (sessions (keep S srv)) i = (if i \<in> S then map_of (sessions srv) i else None)"
  by (simp add: keep_def map_of_keep)

text \<open>No two sessions have the same sender: each connection made its own.\<close>

definition one_tx :: "'tx chat_server \<Rightarrow> bool" where
  "one_tx srv \<longleftrightarrow> (\<forall>i j tx. map_of (sessions srv) i = Some tx \<longrightarrow> map_of (sessions srv) j = Some tx \<longrightarrow> i = j)"

lemma one_tx_keep: "one_tx srv \<Longrightarrow> one_tx (keep S srv)"
  by (auto simp: one_tx_def split: if_splits)

lemma remove_session_lookup:
  "map_of (sessions (remove_session i srv)) j = (if j = i then None else map_of (sessions srv) j)"
proof -
  have "map_of (filter (\<lambda>(j, _). j \<noteq> i) xs) j = (if j = i then None else map_of xs j)" for xs :: "(usize \<times> 'a) list"
    by (induction xs) auto
  then show ?thesis by (simp add: remove_session_def)
qed

lemma keep_members: "room_members (keep S srv) = room_members srv \<inter> S"
  by (auto simp: keep_def room_members_def)

lemma leave_removed: "leave i (remove_session i srv) = keep (- {i}) srv"
  by (simp add: leave_def remove_session_def keep_def)

lemma leave_members: "room_members (leave i srv) = room_members srv - {i}"
  by (auto simp: leave_def room_members_def)

text \<open>The maps and sets have no duplicates.\<close>

definition well_formed :: "'tx chat_server \<Rightarrow> bool" where
  "well_formed srv \<longleftrightarrow>
     distinct (map fst (sessions srv)) \<and> distinct (map fst (rooms srv)) \<and>
     (\<forall>(n, ids) \<in> set (rooms srv). distinct ids) \<and> one_tx srv"

lemma well_formed_keep: "well_formed srv \<Longrightarrow> well_formed (keep S srv)"
  using one_tx_keep [of srv S]
  by (auto simp: well_formed_def keep_def distinct_map_filter split_def comp_def)

text \<open>Removing the sessions whose sender has refused a text.\<close>

definition prune :: "'tx set \<Rightarrow> 'tx chat_server \<Rightarrow> 'tx chat_server" where
  "prune R srv =
     keep {i. case map_of (sessions srv) i of None \<Rightarrow> True | Some tx \<Rightarrow> tx \<notin> R} srv"

lemma prune_prune: "R \<subseteq> R' \<Longrightarrow> prune R' (prune R srv) = prune R' srv"
  unfolding prune_def keep_keep
  by (rule arg_cong [of _ _ "\<lambda>S. keep S srv"]) (auto split: option.splits)

lemma prune_lookup:
  "map_of (sessions (prune R srv)) i = Some tx \<longleftrightarrow> map_of (sessions srv) i = Some tx \<and> tx \<notin> R"
  by (auto simp: prune_def split: option.splits)

lemma well_formed_leave: "well_formed srv \<Longrightarrow> well_formed (leave i srv)"
  by (auto simp: well_formed_def leave_def one_tx_def split_def comp_def)

lemma join_room_sessions [simp]: "sessions (join_room i name srv) = sessions srv"
  by (simp add: join_room_def)

lemma well_formed_join: "well_formed srv \<Longrightarrow> well_formed (join_room i name srv)"
  by (auto simp: well_formed_def join_room_def one_tx_def split_def comp_def map_of_eq_None_iff)

definition fresh_session :: "usize \<Rightarrow> 'tx \<Rightarrow> 'tx chat_server \<Rightarrow> bool" where
  "fresh_session i tx srv \<longleftrightarrow> map_of (sessions srv) i = None \<and> (\<forall>j. map_of (sessions srv) j \<noteq> Some tx)"

text \<open>What disconnecting means, when nobody refuses a text.\<close>

definition dropped :: "usize \<Rightarrow> 'tx chat_server \<Rightarrow> 'tx chat_server" where
  "dropped i srv = (if map_of (sessions srv) i = None then srv else keep (- {i}) srv)"

lemma map_of_mapped: "map_of (map (\<lambda>p. (fst p, f (snd p))) xs) n = map_option f (map_of xs n)"
  by (induction xs) auto

lemma join_room_keep: "i \<in> S \<Longrightarrow> join_room i name (keep S srv) = keep S (join_room i name srv)"
  by (auto simp: keep_def join_room_def split_def comp_def map_of_mapped List.insert_def)

lemma join_room_prune:
  "(\<And>tx. map_of (sessions srv) i = Some tx \<Longrightarrow> tx \<notin> R)
     \<Longrightarrow> join_room i name (prune R srv) = prune R (join_room i name srv)"
  unfolding prune_def join_room_sessions by (rule join_room_keep) (auto split: option.splits)

lemma insert_session_lookup [simp]:
  "map_of (sessions (insert_session i tx srv)) j = (if j = i then Some tx else map_of (sessions srv) j)"
  using remove_session_lookup [of i srv j] by (simp add: insert_session_def remove_session_def)

lemma insert_session_keep: "i \<in> S \<Longrightarrow> insert_session i tx (keep S srv) = keep S (insert_session i tx srv)"
  by (auto simp: keep_def insert_session_def split_def conj_commute)

lemma insert_session_prune:
  assumes "map_of (sessions srv) i = None" "tx \<notin> R"
  shows "insert_session i tx (prune R srv) = prune R (insert_session i tx srv)"
proof -
  let ?S = "{i. case map_of (sessions srv) i of None \<Rightarrow> True | Some tx \<Rightarrow> tx \<notin> R}"
  have "?S = {j. case map_of (sessions (insert_session i tx srv)) j of None \<Rightarrow> True | Some tx \<Rightarrow> tx \<notin> R}"
    using assms by auto
  moreover have "i \<in> ?S" using assms by simp
  ultimately show ?thesis unfolding prune_def by (metis insert_session_keep)
qed

subsection \<open>What may happen to the others\<close>

context text_channels begin

text \<open>
  From \<open>s\<close> to \<open>s'\<close> only sessions have gone that refused a text or are among \<open>gone\<close>; only members of
  rooms were sent to, and nothing but notices.
\<close>

definition evolves :: "usize set \<Rightarrow> 'tx chat_server \<times> 'w \<Rightarrow> 'tx chat_server \<times> 'w \<Rightarrow> bool" where
  "evolves gone s s' \<longleftrightarrow>
     (\<exists>S. fst s' = keep S (fst s) \<and>
        (\<forall>i. i \<notin> S \<longrightarrow>
           (\<exists>tx. map_of (sessions (fst s)) i = Some tx \<and> (tx \<in> refused (snd s') \<or> i \<in> gone)))) \<and>
     refused (snd s) \<subseteq> refused (snd s') \<and>
     (\<forall>tx \<in> refused (snd s') - refused (snd s). \<exists>i \<in> room_members (fst s). map_of (sessions (fst s)) i = Some tx) \<and>
     (\<forall>tx. \<exists>k. accepted (snd s') tx = accepted (snd s) tx @ replicate k notice)"

lemma evolves_refl [simp]: "evolves gone s s"
  unfolding evolves_def by (auto intro!: exI [of _ UNIV] exI [of _ 0])

lemma evolves_trans:
  assumes "evolves g1 s s1" "evolves g2 s1 s2" "g1 \<union> g2 \<subseteq> g"
  shows "evolves g s s2"
proof -
  from assms(1) obtain S1 where s1: "fst s1 = keep S1 (fst s)"
      "\<forall>i. i \<notin> S1 \<longrightarrow> (\<exists>tx. map_of (sessions (fst s)) i = Some tx \<and> (tx \<in> refused (snd s1) \<or> i \<in> g1))"
    and r1: "refused (snd s) \<subseteq> refused (snd s1)"
      "\<forall>tx \<in> refused (snd s1) - refused (snd s). \<exists>i \<in> room_members (fst s). map_of (sessions (fst s)) i = Some tx"
    and a1: "\<forall>tx. \<exists>k. accepted (snd s1) tx = accepted (snd s) tx @ replicate k notice"
    unfolding evolves_def by blast
  from assms(2) obtain S2 where s2: "fst s2 = keep S2 (fst s1)"
      "\<forall>i. i \<notin> S2 \<longrightarrow> (\<exists>tx. map_of (sessions (fst s1)) i = Some tx \<and> (tx \<in> refused (snd s2) \<or> i \<in> g2))"
    and r2: "refused (snd s1) \<subseteq> refused (snd s2)"
      "\<forall>tx \<in> refused (snd s2) - refused (snd s1). \<exists>i \<in> room_members (fst s1). map_of (sessions (fst s1)) i = Some tx"
    and a2: "\<forall>tx. \<exists>k. accepted (snd s2) tx = accepted (snd s1) tx @ replicate k notice"
    unfolding evolves_def by blast
  have "fst s2 = keep (S1 \<inter> S2) (fst s)" by (simp add: s1 s2 keep_keep)
  moreover have "\<forall>i. i \<notin> S1 \<inter> S2 \<longrightarrow>
      (\<exists>tx. map_of (sessions (fst s)) i = Some tx \<and> (tx \<in> refused (snd s2) \<or> i \<in> g))"
  proof (intro allI impI)
    fix i
    assume at: "i \<notin> S1 \<inter> S2"
    show "\<exists>tx. map_of (sessions (fst s)) i = Some tx \<and> (tx \<in> refused (snd s2) \<or> i \<in> g)"
    proof (cases "i \<in> S1")
      case True
      with at s2(2) obtain tx where "map_of (sessions (fst s1)) i = Some tx"
        "tx \<in> refused (snd s2) \<or> i \<in> g2" by blast
      with True s1(1) assms(3) show ?thesis by auto
    next
      case False
      with s1(2) r2(1) assms(3) show ?thesis by blast
    qed
  qed
  moreover have "\<forall>tx \<in> refused (snd s2) - refused (snd s). \<exists>i \<in> room_members (fst s). map_of (sessions (fst s)) i = Some tx"
    using r1(2) r2(2) s1(1) by (auto simp: keep_members split: if_splits)
  moreover have "\<exists>k. accepted (snd s2) tx = accepted (snd s) tx @ replicate k notice" for tx
  proof -
    from a1 a2 obtain k1 k2 where "accepted (snd s1) tx = accepted (snd s) tx @ replicate k1 notice"
      "accepted (snd s2) tx = accepted (snd s1) tx @ replicate k2 notice" by blast
    then show ?thesis by (auto simp: replicate_add [symmetric])
  qed
  ultimately show ?thesis using r1(1) r2(1) unfolding evolves_def by blast
qed

lemma send_each_sent:
  assumes "send_each E ss msg ids w = (failed, w')"
  shows "set failed \<subseteq> set ids \<and> refused w \<subseteq> refused w' \<and>
     (\<forall>i \<in> set failed. \<exists>tx. map_of ss i = Some tx \<and> tx \<in> refused w') \<and>
     (\<forall>tx \<in> refused w' - refused w. \<exists>i \<in> set failed. map_of ss i = Some tx) \<and>
     (\<forall>tx. \<exists>k. accepted w' tx = accepted w tx @ replicate k msg)"
  using assms
proof (induction ids arbitrary: w failed)
  case (Cons j ids)
  show ?case
  proof (cases "map_of ss j")
    case (Some tx)
    obtain b w1 where t: "tx_text E tx msg w = (b, w1)" by force
    obtain failed1 where rest: "send_each E ss msg ids w1 = (failed1, w')"
      and f: "failed = (if b then failed1 else j # failed1)"
      using Cons.prems Some t by (auto simp: split_def Let_def prod_eq_iff)
    note IH = Cons.IH [OF rest]
    have k: "\<exists>k. accepted w' x = accepted w x @ replicate k msg" for x
    proof -
      from IH obtain k where k: "accepted w' x = accepted w1 x @ replicate k msg" by blast
      show ?thesis
      proof (cases "b \<and> x = tx")
        case True
        with t k tx_sent [of tx msg w w1] show ?thesis
          by (auto intro!: exI [of _ "Suc k"] simp: replicate_app_Cons_same)
      next
        case False
        with t k tx_sent [of tx msg w w1] tx_refused [of tx msg w w1] show ?thesis by (cases b) auto
      qed
    qed
    show ?thesis
    proof (cases b)
      case True
      with IH f k t tx_sent [of tx msg w w1] show ?thesis by auto
    next
      case False
      with t tx_refused [of tx msg w w1] have "refused w1 = insert tx (refused w)" by simp
      with IH f False k Some show ?thesis by auto
    qed
  next
    case None
    with Cons.prems have "send_each E ss msg ids w = (failed, w')" by simp
    from Cons.IH [OF this] show ?thesis by auto
  qed
qed (auto intro!: exI [of _ 0])

lemma map_of_in_room: "map_of (rooms srv) n = Some ids \<Longrightarrow> i \<in> set ids \<Longrightarrow> i \<in> room_members srv"
  by (force simp: room_members_def dest: map_of_SomeD)

lemma deliver_evolves:
  assumes "deliver E room notice skip srv w = Some (failed, w')"
  shows "evolves (set failed) (srv, w) (srv, w') \<and>
     (\<forall>i \<in> set failed. \<exists>tx. map_of (sessions srv) i = Some tx \<and> tx \<in> refused w')"
proof -
  obtain ids where ids: "map_of (rooms srv) room = Some ids"
    and each: "send_each E (sessions srv) notice
       (filter (\<lambda>j. j \<noteq> skip) (fst (iter_ids E ids w))) (snd (iter_ids E ids w)) = (failed, w')"
    using assms by (auto simp: deliver_def split_def Let_def)
  have order: "set (fst (iter_ids E ids w)) = set ids" using ids_order by (metis set_mset_mset)
  note quiet = ids_quiet [of ids w]
  from send_each_sent [OF each] have failed: "set failed \<subseteq> room_members srv"
      "\<forall>i \<in> set failed. \<exists>tx. map_of (sessions srv) i = Some tx \<and> tx \<in> refused w'"
    and new: "refused w \<subseteq> refused w'"
      "\<forall>tx \<in> refused w' - refused w. \<exists>i \<in> set failed. map_of (sessions srv) i = Some tx"
      "\<forall>tx. \<exists>k. accepted w' tx = accepted w tx @ replicate k notice"
    using map_of_in_room [OF ids] by (auto simp: order quiet)
  have "\<forall>tx \<in> refused w' - refused w. \<exists>i \<in> room_members srv. map_of (sessions srv) i = Some tx"
    using new(2) failed(1) by blast
  with new(1,3) have "evolves (set failed) (srv, w) (srv, w')"
    unfolding evolves_def by (auto intro!: exI [of _ UNIV])
  with failed(2) show ?thesis by blast
qed

lemma evolves_gone:
  assumes "evolves g s s'" "\<And>i tx. i \<in> g \<Longrightarrow> map_of (sessions (fst s)) i = Some tx \<Longrightarrow> tx \<in> refused (snd s') \<or> i \<in> g'"
  shows "evolves g' s s'"
  using assms unfolding evolves_def by blast

lemma evolves_names: "evolves g (leave i srv, snd (iter_names E ns w)) s' = evolves g (leave i srv, w) s'"
  by (simp add: evolves_def names_quiet)

lemma evolves_refused: "evolves g s s' \<Longrightarrow> refused (snd s) \<subseteq> refused (snd s')"
  by (simp add: evolves_def)

lemma disconnect_evolves:
  assumes "map_of (sessions srv) i \<noteq> None" "evolves {} (leave i (remove_session i srv), w) s'"
  shows "evolves {i} (srv, w) s'"
proof -
  have "evolves {i} (srv, w) (keep (- {i}) srv, w)"
    using assms(1) unfolding evolves_def by (auto intro!: exI [of _ "- {i}"] exI [of _ 0])
  from evolves_trans [OF this] assms(2) show ?thesis by (simp add: leave_removed)
qed

lemma ops_evolve:
  "E' = E \<Longrightarrow> msg = notice \<Longrightarrow> evolves {} s (send_message E' room msg skip s)"
  "E' = E \<Longrightarrow> evolves (set ids) s (disconnect_each E' ids s)"
  "E' = E \<Longrightarrow> evolves {i} s (disconnect E' i s)"
  "E' = E \<Longrightarrow> evolves {} (leave i (fst s), snd s) (exit_rooms E' i s)"
  "E' = E \<Longrightarrow> evolves {} s (notify_rooms E' names s)"
proof (induction E' room msg skip s and E' ids s and E' i s and E' i s and E' names s
    rule: send_message_disconnect_each_disconnect_exit_rooms_notify_rooms.induct)
  case (1 E' room msg skip srv w)
  show ?case
  proof (cases "deliver E' room msg skip srv w")
    case (Some r)
    obtain failed w1 where r: "r = (failed, w1)" by force
    from deliver_evolves [of room skip srv w failed w1] Some r 1
    have d: "evolves (set failed) (srv, w) (srv, w1)"
      "\<forall>i \<in> set failed. \<exists>tx. map_of (sessions srv) i = Some tx \<and> tx \<in> refused w1" by auto
    from 1(1) [OF Some r [symmetric] 1(2)]
    have e: "evolves (set failed) (srv, w1) (disconnect_each E' failed (srv, w1))" .
    have "evolves {} (srv, w) (disconnect_each E' failed (srv, w1))"
      by (rule evolves_gone [OF evolves_trans [OF d(1) e order_refl]])
        (use d(2) evolves_refused [OF e] in fastforce)
    with Some r show ?thesis by simp
  qed simp
next
  case (3 E' i ids s)
  from evolves_trans [OF 3(1,2) [OF 3(3)], of "set (i # ids)"] show ?case by simp
next
  case (4 E' i srv w)
  then show ?case
    using disconnect_evolves [of srv i w] by auto
next
  case (5 E' i srv w)
  show ?case
    using 5(1) [of "fst (rooms_of E' i srv w)" "snd (rooms_of E' i srv w)"] 5(2)
    by (simp add: split_def rooms_of_def Let_def evolves_names)
next
  case (7 E' room names s)
  from evolves_trans [OF 7(1) [OF 7(3) refl] 7(2) [OF 7(3)]] show ?case by simp
qed simp_all

subsection \<open>Who refused a text is disconnected\<close>

definition pending :: "usize set \<Rightarrow> 'tx chat_server \<times> 'w \<Rightarrow> bool" where
  "pending X s \<longleftrightarrow> (\<forall>i tx. map_of (sessions (fst s)) i = Some tx \<longrightarrow> tx \<in> refused (snd s) \<longrightarrow> i \<in> X)"

lemma one_tx_evolves: "one_tx (fst s) \<Longrightarrow> evolves g s s' \<Longrightarrow> one_tx (fst s')"
  by (auto simp: evolves_def one_tx_keep)

lemma deliver_pending:
  assumes "deliver E room msg skip srv w = Some (failed, w')" "one_tx srv" "pending X (srv, w)"
  shows "pending (set failed \<union> X) (srv, w')"
proof -
  obtain ids where
    each: "send_each E (sessions srv) msg
       (filter (\<lambda>j. j \<noteq> skip) (fst (iter_ids E ids w))) (snd (iter_ids E ids w)) = (failed, w')"
    using assms(1) by (auto simp: deliver_def split_def Let_def)
  from send_each_sent [OF each]
  have new: "\<forall>tx \<in> refused w' - refused w. \<exists>i \<in> set failed. map_of (sessions srv) i = Some tx"
    by (simp add: ids_quiet)
  show ?thesis
    unfolding pending_def
  proof (intro allI impI)
    fix i tx
    assume at: "map_of (sessions (fst (srv, w'))) i = Some tx" "tx \<in> refused (snd (srv, w'))"
    show "i \<in> set failed \<union> X"
    proof (cases "tx \<in> refused w")
      case False
      with new at(2) obtain j where "j \<in> set failed" "map_of (sessions srv) j = Some tx" by auto
      with at(1) assms(2) show ?thesis by (metis UnI1 fst_conv one_tx_def)
    qed (use assms(3) at(1) in \<open>auto simp: pending_def\<close>)
  qed
qed

lemma ops_pending:
  "E' = E \<Longrightarrow> one_tx (fst s) \<Longrightarrow> pending X s \<Longrightarrow> pending X (send_message E' room msg skip s)"
  "E' = E \<Longrightarrow> one_tx (fst s) \<Longrightarrow> pending (set ids \<union> X) s \<Longrightarrow> pending X (disconnect_each E' ids s)"
  "E' = E \<Longrightarrow> one_tx (fst s) \<Longrightarrow> pending (insert i X) s \<Longrightarrow> pending X (disconnect E' i s)"
  "E' = E \<Longrightarrow> one_tx (fst s) \<Longrightarrow> pending X s \<Longrightarrow> pending X (exit_rooms E' i s)"
  "E' = E \<Longrightarrow> one_tx (fst s) \<Longrightarrow> pending X s \<Longrightarrow> pending X (notify_rooms E' names s)"
proof (induction E' room msg skip s and E' ids s and E' i s and E' i s and E' names s
    arbitrary: X and X and X and X and X
    rule: send_message_disconnect_each_disconnect_exit_rooms_notify_rooms.induct)
  case (1 E' room msg skip srv w)
  show ?case
  proof (cases "deliver E' room msg skip srv w")
    case (Some r)
    obtain failed w1 where r: "r = (failed, w1)" by force
    from deliver_pending [of room msg skip srv w failed w1 X] Some r 1(2-4)
    have "pending (set failed \<union> X) (srv, w1)" "one_tx (fst (srv, w1))" by simp_all
    from 1(1) [OF Some r [symmetric] 1(2) this(2,1)] Some r show ?thesis by simp
  qed (use 1(4) in simp)
next
  case (3 E' i ids s)
  from 3(3) ops_evolve(3) [of E i s] one_tx_evolves [OF 3(4)] have "one_tx (fst (disconnect E' i s))" by blast
  with 3(1) [OF 3(3,4), of "set ids \<union> X"] 3(2,3,5) show ?case by simp
next
  case (4 E' i srv w)
  show ?case
  proof (cases "map_of (sessions srv) i = None")
    case True
    with 4(4) have "pending X (srv, w)" by (metis fst_conv insertE option.distinct(1) pending_def)
    with True show ?thesis by simp
  next
    case False
    have "one_tx (remove_session i srv)" "pending X (remove_session i srv, w)"
      using 4(3,4) by (auto simp: one_tx_def pending_def remove_session_lookup split: if_splits)
    with 4(1) [OF False 4(2), of X] False show ?thesis by (simp del: exit_rooms.simps not_None_eq)
  qed
next
  case (5 E' i srv w)
  have "pending X (leave i srv, snd (rooms_of E' i srv w))"
    using 5(2,4) by (simp add: pending_def rooms_of_def split_def Let_def names_quiet)
  with 5(1) [of "fst (rooms_of E' i srv w)" "snd (rooms_of E' i srv w)" X] 5(2,3)
  show ?case by (simp add: split_def one_tx_def)
next
  case (7 E' room names s)
  have "one_tx (fst (send_message E' room notice 0 s))"
    using ops_evolve(1) [of E notice s room 0] one_tx_evolves [OF 7(4)] 7(3) by blast
  with 7 show ?case by simp
qed simp_all

subsection \<open>The operations\<close>

lemma evolves_prune:
  assumes "evolves {} s s'" "pending {} s'"
  shows "fst s' = prune (refused (snd s')) (fst s)"
proof -
  from assms(1) obtain S where S: "fst s' = keep S (fst s)"
      "\<forall>i. i \<notin> S \<longrightarrow> (\<exists>tx. map_of (sessions (fst s)) i = Some tx \<and> tx \<in> refused (snd s'))"
    unfolding evolves_def by blast
  have "i \<notin> S" if "map_of (sessions (fst s)) i = Some tx" "tx \<in> refused (snd s')" for i tx
  proof
    assume "i \<in> S"
    with S(1) that(1) have "map_of (sessions (fst s')) i = Some tx" by simp
    with assms(2) that(2) show False by (auto simp: pending_def)
  qed
  with S(2) have "S = {i. case map_of (sessions (fst s)) i of None \<Rightarrow> True | Some tx \<Rightarrow> tx \<notin> refused (snd s')}"
    by (fastforce split: option.splits)
  with S(1) show ?thesis by (simp add: prune_def)
qed

lemma send_each_accepted:
  assumes "send_each E (sessions srv) msg ids w = (failed, w')" "distinct ids" "one_tx srv"
  shows "accepted w' tx = accepted w tx @
     (if \<exists>i \<in> set ids - set failed. map_of (sessions srv) i = Some tx then [msg] else [])"
  using assms(1,2)
proof (induction ids arbitrary: w failed)
  case (Cons j ids)
  show ?case
  proof (cases "map_of (sessions srv) j")
    case None
    with Cons.prems have rest: "send_each E (sessions srv) msg ids w = (failed, w')" by simp
    from None have "(\<exists>i \<in> set (j # ids) - set failed. map_of (sessions srv) i = Some tx)
        \<longleftrightarrow> (\<exists>i \<in> set ids - set failed. map_of (sessions srv) i = Some tx)" by auto
    with Cons.IH [OF rest] Cons.prems(2) show ?thesis by simp
  next
    case (Some t)
    obtain b w1 where t: "tx_text E t msg w = (b, w1)" by force
    obtain failed1 where rest: "send_each E (sessions srv) msg ids w1 = (failed1, w')"
      and f: "failed = (if b then failed1 else j # failed1)"
      using Cons.prems Some t by (auto simp: split_def Let_def prod_eq_iff)
    from send_each_sent [OF rest] Cons.prems(2) have j: "j \<notin> set failed1" by auto
    note IH = Cons.IH [OF rest]
    show ?thesis
    proof (cases "tx = t")
      case True
      with Some assms(3) Cons.prems(2) have none: "\<not> (\<exists>i \<in> set ids. map_of (sessions srv) i = Some tx)"
        by (auto simp: one_tx_def)
      then have "accepted w' tx = accepted w1 tx" using IH Cons.prems(2) by auto
      moreover have "(\<exists>i \<in> set (j # ids) - set failed. map_of (sessions srv) i = Some tx) \<longleftrightarrow> b"
        using none Some True f j by auto
      ultimately show ?thesis
        using t tx_sent [of t msg w w1] tx_refused [of t msg w w1] True by (cases b) auto
    next
      case False
      with t tx_sent [of t msg w w1] tx_refused [of t msg w w1] have "accepted w1 tx = accepted w tx"
        by (cases b) auto
      moreover have "(\<exists>i \<in> set (j # ids) - set failed. map_of (sessions srv) i = Some tx)
          \<longleftrightarrow> (\<exists>i \<in> set ids - set failed1. map_of (sessions srv) i = Some tx)"
        using Some False f Cons.prems(2) by auto
      ultimately show ?thesis using IH Cons.prems(2) by simp
    qed
  qed
qed simp

definition sent_to :: "usize \<Rightarrow> usize \<Rightarrow> 'tx chat_server \<Rightarrow> string \<Rightarrow> bool" where
  "sent_to skip i srv room \<longleftrightarrow> i \<noteq> skip \<and> in_room i srv room"

text \<open>What sending does: who refused is gone, and who stays has the message.\<close>

definition send_ok ::
  "'tx chat_server \<times> 'w \<Rightarrow> string \<Rightarrow> string \<Rightarrow> usize \<Rightarrow> 'tx chat_server \<times> 'w \<Rightarrow> bool" where
  "send_ok s room msg skip s' \<longleftrightarrow>
     fst s' = prune (refused (snd s')) (fst s) \<and> pending {} s' \<and> refused (snd s) \<subseteq> refused (snd s') \<and>
     (\<forall>tx \<in> refused (snd s') - refused (snd s). \<exists>i \<in> room_members (fst s). map_of (sessions (fst s)) i = Some tx) \<and>
     (\<forall>i tx. map_of (sessions (fst s')) i = Some tx \<longrightarrow>
        (\<exists>k. accepted (snd s') tx = accepted (snd s) tx @
                (if sent_to skip i (fst s) room then [msg] else []) @ replicate k notice))"

lemma send_okD:
  "send_ok s room msg skip s' \<Longrightarrow> fst s' = prune (refused (snd s')) (fst s) \<and> pending {} s'"
  unfolding send_ok_def by blast

lemma send_ok_accepted:
  "send_ok s room msg skip s' \<Longrightarrow> map_of (sessions (fst s')) i = Some tx \<Longrightarrow>
     \<exists>k. accepted (snd s') tx = accepted (snd s) tx @
            (if sent_to skip i (fst s) room then [msg] else []) @ replicate k notice"
  unfolding send_ok_def by blast

lemma send_message_ok:
  assumes wf: "well_formed srv" and p: "pending {} (srv, w)"
  shows "send_ok (srv, w) room msg skip (send_message E room msg skip (srv, w))"
proof -
  from wf have one: "one_tx srv" by (simp add: well_formed_def)
  show ?thesis
  proof (cases "deliver E room msg skip srv w")
    case None
    have "srv = prune (refused w) srv"
      using evolves_prune [of "(srv, w)" "(srv, w)"] p by simp
    moreover from None have "\<not> sent_to skip i srv room" for i
      by (auto simp: deliver_def sent_to_def in_room_def)
    ultimately show ?thesis using None p by (auto simp: send_ok_def intro!: exI [of _ 0])
  next
    case (Some r)
    obtain failed w1 where d: "deliver E room msg skip srv w = Some (failed, w1)" using Some by force
    then obtain ids where ids: "map_of (rooms srv) room = Some ids"
      and each: "send_each E (sessions srv) msg
         (filter (\<lambda>j. j \<noteq> skip) (fst (iter_ids E ids w))) (snd (iter_ids E ids w)) = (failed, w1)"
      by (auto simp: deliver_def split_def Let_def)
    let ?ids = "filter (\<lambda>j. j \<noteq> skip) (fst (iter_ids E ids w))"
    have order: "set (fst (iter_ids E ids w)) = set ids" using ids_order by (metis set_mset_mset)
    have "distinct ids" using wf map_of_SomeD [OF ids] by (auto simp: well_formed_def)
    then have dist: "distinct ?ids"
      using ids_order [of ids w] by (metis distinct_filter mset_eq_imp_distinct_iff)
    from send_each_sent [OF each] have failed: "set failed \<subseteq> set ?ids"
      "\<forall>i \<in> set failed. \<exists>tx. map_of (sessions srv) i = Some tx \<and> tx \<in> refused w1"
      and new: "refused w \<subseteq> refused w1"
      "\<forall>tx \<in> refused w1 - refused w. \<exists>i \<in> set failed. map_of (sessions srv) i = Some tx"
      by (simp_all add: ids_quiet)
    from failed(1) map_of_in_room [OF ids] have mem: "set failed \<subseteq> room_members srv" by (auto simp: order)
    define s' where "s' = disconnect_each E failed (srv, w1)"
    have e: "evolves (set failed) (srv, w1) s'" unfolding s'_def by (rule ops_evolve(2) [OF refl])
    have e0: "evolves {} (srv, w1) s'"
      by (rule evolves_gone [OF e]) (use failed(2) evolves_refused [OF e] in fastforce)
    have p': "pending {} s'"
      unfolding s'_def
      by (rule ops_pending(2) [OF refl]) (use deliver_pending [OF d one p] one in simp_all)
    from evolves_prune [OF e0 p'] have pr: "fst s' = prune (refused (snd s')) srv" by simp
    have grow: "refused w \<subseteq> refused (snd s')"
      "\<forall>tx \<in> refused (snd s') - refused w. \<exists>i \<in> room_members srv. map_of (sessions srv) i = Some tx"
    proof -
      show "refused w \<subseteq> refused (snd s')" using new(1) evolves_refused [OF e] by auto
      have "\<forall>tx \<in> refused (snd s') - refused w1. \<exists>i \<in> room_members srv. map_of (sessions srv) i = Some tx"
        using e0 by (simp add: evolves_def)
      with new(2) mem show "\<forall>tx \<in> refused (snd s') - refused w. \<exists>i \<in> room_members srv. map_of (sessions srv) i = Some tx"
        by blast
    qed
    have "\<exists>k. accepted (snd s') tx = accepted w tx @
        (if sent_to skip i srv room then [msg] else []) @ replicate k notice"
      if i: "map_of (sessions (fst s')) i = Some tx" for i tx
    proof -
      from i pr have reg: "map_of (sessions srv) i = Some tx" "tx \<notin> refused (snd s')"
        by (simp_all add: prune_lookup)
      with failed(2) evolves_refused [OF e] have "i \<notin> set failed" by fastforce
      with reg one have "(\<exists>j \<in> set ?ids - set failed. map_of (sessions srv) j = Some tx) \<longleftrightarrow> i \<in> set ?ids"
        by (auto simp: one_tx_def)
      moreover have "i \<in> set ?ids \<longleftrightarrow> sent_to skip i srv room"
        using ids by (auto simp: sent_to_def in_room_def order)
      ultimately have "accepted w1 tx = accepted w tx @ (if sent_to skip i srv room then [msg] else [])"
        using send_each_accepted [OF each dist one, of tx] by (simp add: ids_quiet)
      moreover have "\<exists>k. accepted (snd s') tx = accepted w1 tx @ replicate k notice"
        using e by (simp add: evolves_def)
      ultimately show ?thesis by auto
    qed
    with pr p' grow d show ?thesis by (simp add: send_ok_def s'_def)
  qed
qed

lemma clean_prune: "pending {} s \<Longrightarrow> prune (refused (snd s)) (fst s) = fst s"
  using evolves_prune [of s s] by simp

lemma exit_rooms_ok:
  assumes "one_tx (fst s)" "pending {} s"
  shows "fst (exit_rooms E i s) = prune (refused (snd (exit_rooms E i s))) (leave i (fst s))"
    and "pending {} (exit_rooms E i s)" and "refused (snd s) \<subseteq> refused (snd (exit_rooms E i s))"
    and "\<forall>tx \<in> refused (snd (exit_rooms E i s)) - refused (snd s).
           \<exists>j \<in> room_members (fst s) - {i}. map_of (sessions (fst s)) j = Some tx"
proof -
  note e = ops_evolve(4) [OF refl, of i s]
  show p: "pending {} (exit_rooms E i s)" by (rule ops_pending(4) [OF refl assms])
  from evolves_prune [OF e this]
  show "fst (exit_rooms E i s) = prune (refused (snd (exit_rooms E i s))) (leave i (fst s))" by simp
  show "refused (snd s) \<subseteq> refused (snd (exit_rooms E i s))" using evolves_refused [OF e] by simp
  show "\<forall>tx \<in> refused (snd (exit_rooms E i s)) - refused (snd s).
           \<exists>j \<in> room_members (fst s) - {i}. map_of (sessions (fst s)) j = Some tx"
    using e by (simp add: evolves_def leave_members)
qed

lemma disconnect_ok:
  assumes "one_tx srv" "pending {} (srv, w)"
  shows "fst (disconnect E i (srv, w)) = prune (refused (snd (disconnect E i (srv, w)))) (dropped i srv)"
    and "pending {} (disconnect E i (srv, w))"
proof -
  have "one_tx (remove_session i srv)" "pending {} (remove_session i srv, w)"
    using assms by (auto simp: one_tx_def pending_def remove_session_lookup split: if_splits)
  from exit_rooms_ok(1,2) [of "(remove_session i srv, w)" i] this
  show "fst (disconnect E i (srv, w)) = prune (refused (snd (disconnect E i (srv, w)))) (dropped i srv)"
    and "pending {} (disconnect E i (srv, w))"
    using assms(2) clean_prune [of "(srv, w)"]
    by (auto simp: dropped_def leave_removed simp del: exit_rooms.simps not_None_eq)
qed

lemma send_evolves_wf: "well_formed srv \<Longrightarrow> send_ok (srv, w) room msg skip s' \<Longrightarrow> well_formed (fst s')"
  by (simp add: send_ok_def prune_def well_formed_keep)

lemma join_ok:
  assumes "well_formed srv" "pending {} (srv, w)"
  shows "fst (join E i name (srv, w)) = prune (refused (snd (join E i name (srv, w)))) (join_room i name (leave i srv))"
    and "pending {} (join E i name (srv, w))"
proof -
  from assms(1) have one: "one_tx srv" by (simp add: well_formed_def)
  obtain srv1 w1 where ex: "exit_rooms E i (srv, w) = (srv1, w1)" by force
  note exit = exit_rooms_ok [of "(srv, w)" i, unfolded ex fst_conv snd_conv, OF one assms(2)]
  have fresh: "tx \<notin> refused w1" if tx: "map_of (sessions srv) i = Some tx" for tx
  proof
    assume "tx \<in> refused w1"
    moreover have "tx \<notin> refused w" using assms(2) tx by (auto simp: pending_def)
    ultimately obtain j where "j \<noteq> i" "map_of (sessions srv) j = Some tx" using exit(4) by blast
    with tx one show False by (auto simp: one_tx_def)
  qed
  have srv1: "srv1 = prune (refused w1) (leave i srv)" by (rule exit(1))
  have moved: "join_room i name srv1 = prune (refused w1) (join_room i name (leave i srv))"
    unfolding srv1 by (rule join_room_prune) (simp add: fresh)
  have wf: "well_formed (join_room i name srv1)"
    unfolding moved prune_def by (intro well_formed_keep well_formed_join well_formed_leave assms(1))
  have p: "pending {} (join_room i name srv1, w1)" using exit(2) by (simp add: pending_def)
  have "join E i name (srv, w) = send_message E name ''Someone connected'' i (join_room i name srv1, w1)"
    by (simp add: join_def ex del: exit_rooms.simps send_message.simps)
  with send_message_ok [OF wf p, of name "''Someone connected''" i]
  show "fst (join E i name (srv, w)) = prune (refused (snd (join E i name (srv, w)))) (join_room i name (leave i srv))"
    and "pending {} (join E i name (srv, w))"
    by (simp_all add: send_ok_def moved prune_prune del: send_message.simps)
qed

lemma connect_ok:
  assumes "well_formed srv" "pending {} (srv, w)" and "fresh_session i tx srv" "tx \<notin> refused w"
  shows "fst (connect E i tx (srv, w)) =
       prune (refused (snd (connect E i tx (srv, w)))) (join_room i ''Main'' (insert_session i tx srv))"
    and "pending {} (connect E i tx (srv, w))"
proof -
  obtain srv1 w1 where sm: "send_message E ''Main'' ''Someone joined'' 0 (srv, w) = (srv1, w1)" by force
  have ok: "send_ok (srv, w) ''Main'' ''Someone joined'' 0 (srv1, w1)"
    using send_message_ok [OF assms(1,2), of "''Main''" "''Someone joined''" 0] by (simp only: sm)
  from ok assms(3,4) have fresh: "tx \<notin> refused w1" by (fastforce simp: send_ok_def fresh_session_def)
  have srv1: "srv1 = prune (refused w1) srv" using ok by (simp add: send_ok_def)
  have run: "connect E i tx (srv, w) = (join_room i ''Main'' (insert_session i tx srv1), w1)"
    by (simp add: connect_def sm del: send_message.simps)
  have "insert_session i tx srv1 = prune (refused w1) (insert_session i tx srv)"
    unfolding srv1 by (rule insert_session_prune) (use fresh assms(3) in \<open>simp_all add: fresh_session_def\<close>)
  moreover have "join_room i ''Main'' (prune (refused w1) (insert_session i tx srv))
      = prune (refused w1) (join_room i ''Main'' (insert_session i tx srv))"
    by (rule join_room_prune) (simp add: fresh)
  ultimately show "fst (connect E i tx (srv, w)) =
       prune (refused (snd (connect E i tx (srv, w)))) (join_room i ''Main'' (insert_session i tx srv))"
    by (simp add: run)
  show "pending {} (connect E i tx (srv, w))"
  proof -
    from send_okD [OF ok] have "pending {} (srv1, w1)" ..
    with fresh show ?thesis by (auto simp: run pending_def split: if_splits)
  qed
qed

end

end
