(* ===== verification/Chat_World.thy ===== *)
theory Chat_World
  imports Chat_Correct
begin

section \<open>The chat server over real channels\<close>

text \<open>
  The contract \<open>text_channels\<close> met by the channels of the websocket crate, and with it the refinement
  theorem of the server.
\<close>

subsection \<open>Channels that close at any time\<close>

text \<open>
  The channels are those of \<open>Ws_Encode\<close>, numbered, with the texts the response streams have already
  taken kept in them. A stream can go at any time, which the server notices when it next sends: \<open>closes\<close>
  says at which moment which channel has no receiver any more. \<open>order\<close> says in which order the maps
  are iterated at a moment, as the positions taken one after another.
\<close>

fun shuffle :: "nat list \<Rightarrow> 'x list \<Rightarrow> 'x list" where
  "shuffle (k # ks) (x # xs) =
     (let p = k mod Suc (length xs); ys = x # xs
      in ys ! p # shuffle ks (take p ys @ drop (Suc p) ys))"
| "shuffle ks xs = xs"

lemma mset_shuffle: "mset (shuffle ks xs) = mset xs"
proof (induction ks xs rule: shuffle.induct)
  case (1 k ks x xs)
  let ?p = "k mod Suc (length xs)" and ?ys = "x # xs"
  have "?p < length ?ys" by simp
  then have "mset ?ys = mset (take ?p ?ys @ ?ys ! ?p # drop (Suc ?p) ?ys)"
    by (metis id_take_nth_drop)
  also have "\<dots> = add_mset (?ys ! ?p) (mset (take ?p ?ys @ drop (Suc ?p) ?ys))" by simp
  finally show ?case using 1 [OF refl refl] by (simp only: shuffle.simps Let_def mset.simps)
qed simp_all

record ('it, 'cr) chat_world =
  chans :: "nat \<Rightarrow> (string, 'it, 'cr) ws_message chan"
  moment :: nat

definition channels_env ::
  "(nat \<Rightarrow> nat \<Rightarrow> bool) \<Rightarrow> (nat \<Rightarrow> nat list) \<Rightarrow> (nat, ('it, 'cr) chat_world) chat_env" where
  "channels_env closes order =
     \<lparr>iter_ids = (\<lambda>ids w. (shuffle (order (moment w)) ids, w\<lparr>moment := moment w + 1\<rparr>)),
      iter_names = (\<lambda>ns w. (shuffle (order (moment w)) ns, w\<lparr>moment := moment w + 1\<rparr>)),
      tx_text = (\<lambda>tx m w.
        let ch = chans w tx;
            (r, ch') = ws_sender_send id (MsgText m)
                         (ch\<lparr>ch_closed := ch_closed ch \<or> closes (moment w) tx\<rparr>)
        in (is_ok r, w\<lparr>chans := (chans w)(tx := ch'), moment := moment w + 1\<rparr>))\<rparr>"

fun text_of :: "('t, 'it, 'cr) ws_message \<Rightarrow> 't option" where
  "text_of (MsgText t) = Some t"
| "text_of _ = None"

definition texts :: "('it, 'cr) chat_world \<Rightarrow> nat \<Rightarrow> string list" where
  "texts w tx = List.map_filter text_of (ch_msgs (chans w tx))"

definition closed :: "('it, 'cr) chat_world \<Rightarrow> nat set" where
  "closed w = {tx. ch_closed (chans w tx)}"

interpretation chat: text_channels "channels_env closes order" texts closed for closes order
proof unfold_locales
  fix tx m and w w' :: "('it, 'cr) chat_world"
  show "tx_text (channels_env closes order) tx m w = (True, w') \<Longrightarrow>
      texts w' = (texts w)(tx := texts w tx @ [m]) \<and> closed w' = closed w"
    by (auto simp: channels_env_def ws_sender_send_def texts_def closed_def fun_eq_iff List.map_filter_def
        Let_def split: if_splits)
  show "tx_text (channels_env closes order) tx m w = (False, w') \<Longrightarrow>
      texts w' = texts w \<and> closed w' = insert tx (closed w)"
    by (auto simp: channels_env_def ws_sender_send_def texts_def closed_def fun_eq_iff Let_def
        split: if_splits)
qed (simp_all add: channels_env_def mset_shuffle texts_def closed_def fun_eq_iff)

subsection \<open>The server refines its specification\<close>

datatype 'tx chat_op = Connect usize 'tx | Disconnect usize | Join usize string | Say string string usize

fun chat_run ::
  "('tx, 'w) chat_env \<Rightarrow> 'tx chat_op \<Rightarrow> 'tx chat_server \<times> 'w \<Rightarrow> 'tx chat_server \<times> 'w" where
  "chat_run E (Connect i tx) s = connect E i tx s"
| "chat_run E (Disconnect i) s = disconnect E i s"
| "chat_run E (Join i name) s = join E i name s"
| "chat_run E (Say room msg i) s = send_message E room msg i s"

fun chat_spec :: "'tx chat_op \<Rightarrow> 'tx chat_server \<Rightarrow> 'tx chat_server" where
  "chat_spec (Connect i tx) srv = join_room i ''Main'' (insert_session i tx srv)"
| "chat_spec (Disconnect i) srv = dropped i srv"
| "chat_spec (Join i name) srv = join_room i name (leave i srv)"
| "chat_spec (Say room msg i) srv = srv"

text \<open>A new connection has its own id, and its own sender with the stream still there.\<close>

fun admissible :: "'tx chat_op \<Rightarrow> 'tx set \<Rightarrow> 'tx chat_server \<Rightarrow> bool" where
  "admissible (Connect i tx) R srv \<longleftrightarrow> fresh_session i tx srv \<and> tx \<notin> R"
| "admissible _ R srv \<longleftrightarrow> True"

definition all_open :: "nat chat_server \<times> ('it, 'cr) chat_world \<Rightarrow> bool" where
  "all_open s \<longleftrightarrow> (\<forall>i tx. map_of (sessions (fst s)) i = Some tx \<longrightarrow> \<not> ch_closed (chans (snd s) tx))"

lemma all_open_pending: "all_open s = chat.pending {} s"
  by (simp add: all_open_def chat.pending_def closed_def)

lemma well_formed_spec: "well_formed srv \<Longrightarrow> admissible op R srv \<Longrightarrow> well_formed (chat_spec op srv)"
proof (cases op)
  case (Connect i tx)
  assume "well_formed srv" "admissible op R srv"
  with Connect have "well_formed (insert_session i tx srv)"
    by (auto simp: well_formed_def one_tx_def fresh_session_def)
      (auto simp: insert_session_def distinct_map_filter)
  with Connect show ?thesis by (simp add: well_formed_join)
qed (auto simp: dropped_def well_formed_keep well_formed_join well_formed_leave)

text \<open>
  C12. The chat server refines a server without failures. Whatever channels close while an operation runs,
  in whatever order the maps are iterated, and however the disconnections cascade, the operation ends
  in the state in which a session was added, moved or removed, less exactly the sessions whose
  channel was found closed: they are in no room and no map any more, and none that was found closed is
  left behind.
\<close>

theorem chat_refines:
  fixes w :: "('it, 'cr) chat_world"
  assumes "well_formed srv" "all_open (srv, w)" "admissible op (closed w) srv"
    and "chat_run (channels_env closes order) op (srv, w) = (srv', w')"
  shows "srv' = prune (closed w') (chat_spec op srv) \<and> well_formed srv' \<and> all_open (srv', w')"
proof -
  have p: "chat.pending {} (srv, w)" using assms(2) by (simp add: all_open_pending)
  from assms(1) have one: "one_tx srv" by (simp add: well_formed_def)
  have "srv' = prune (closed w') (chat_spec op srv) \<and> chat.pending {} (srv', w')"
  proof (cases op)
    case (Connect i tx)
    with chat.connect_ok [OF assms(1) p, where i = i and tx = tx and closes = closes and order = order] assms(3,4) show ?thesis by simp
  next
    case (Disconnect i)
    with chat.disconnect_ok [OF one p, where i = i and closes = closes and order = order] assms(4) show ?thesis
      by (simp del: disconnect.simps)
  next
    case (Join i name)
    with chat.join_ok [OF assms(1) p, where i = i and name = name and closes = closes and order = order] assms(4) show ?thesis by simp
  next
    case (Say room msg i)
    with assms(4) have run: "send_message (channels_env closes order) room msg i (srv, w) = (srv', w')" by simp
    from chat.send_okD [OF chat.send_message_ok [OF assms(1) p,
        where room = room and msg = msg and skip = i and closes = closes and order = order], unfolded run fst_conv snd_conv]
    show ?thesis unfolding Say chat_spec.simps .
  qed
  moreover from this well_formed_spec [OF assms(1,3)] have "well_formed srv'"
    by (simp add: prune_def well_formed_keep)
  ultimately show ?thesis unfolding all_open_pending by blast
qed

end
