(* ===== verification/Chat_Session.thy ===== *)
theory Chat_Session
  imports Chat_World Ws_Handshake Step_Systems
begin

section \<open>The chat's connections (\<open>examples/websocket-chat2/src/main.rs\<close>)\<close>

text \<open>
  The route handler of the chat: a session for every websocket connection, and the loop over the
  messages of its incoming stream, which answers on the connection's local queue and calls the shared
  server. A string holds code points up to 255. The loop's variable is bound as \<open>res\<close> and used as
  \<open>msg\<close> in the source; here it has one name.
\<close>

record chat_session =
  cs_id :: usize
  cs_room :: string
  cs_name :: "string option"

definition session_new :: "usize \<Rightarrow> chat_session" where
  "session_new i = \<lparr>cs_id = i, cs_room = ''Main'', cs_name = None\<rparr>"

subsection \<open>The string functions of the standard library it calls\<close>

text \<open>\<open>splitn(2, d)\<close>.\<close>

definition splitn2 :: "char \<Rightarrow> string \<Rightarrow> string list" where
  "splitn2 d s =
     (case dropWhile (\<lambda>c. c \<noteq> d) s of
        [] \<Rightarrow> [s]
      | _ # rest \<Rightarrow> [takeWhile (\<lambda>c. c \<noteq> d) s, rest])"

text \<open>\<open>Debug\<close> of a \<open>str\<close>: in quotes, with what does not print escaped.\<close>

definition hex_digit :: "nat \<Rightarrow> char" where
  "hex_digit n = (if n < 10 then char_of (48 + n) else char_of (87 + n))"

definition unicode_escape :: "nat \<Rightarrow> string" where
  "unicode_escape n =
     [CHR 0x5C, CHR ''u'', CHR ''{''] @ (if n < 16 then [hex_digit n] else [hex_digit (n div 16), hex_digit (n mod 16)])
     @ [CHR ''}'']"

definition debug_char :: "char \<Rightarrow> string" where
  "debug_char c =
     (let n = (of_char c :: nat)
      in if n = 0 then [CHR 0x5C, CHR ''0'']
         else if n = 9 then [CHR 0x5C, CHR ''t'']
         else if n = 10 then [CHR 0x5C, CHR ''n'']
         else if n = 13 then [CHR 0x5C, CHR ''r'']
         else if n = 34 \<or> n = 92 then [CHR 0x5C, c]
         else if n < 32 \<or> 127 \<le> n \<and> n \<le> 160 \<or> n = 173 then unicode_escape n
         else [c])"

definition str_debug :: "string \<Rightarrow> string" where
  "str_debug s = [CHR 0x22] @ concat (map debug_char s) @ [CHR 0x22]"

subsection \<open>Handling a message\<close>

text \<open>The local queue of the connection, and the wakers that sending into it has woken.\<close>

type_synonym ('it, 'cr, 'wk) chat_out =
  "((string, 'it, 'cr) ws_message, 'wk) local_queue \<times> 'wk list"

definition push ::
  "(((string, 'it, 'cr) ws_message, 'wk) local_queue
      \<Rightarrow> 'wk option \<times> ((string, 'it, 'cr) ws_message, 'wk) local_queue)
     \<Rightarrow> ('it, 'cr, 'wk) chat_out \<Rightarrow> ('it, 'cr, 'wk) chat_out" where
  "push f out = (let (woken, q) = f (fst out) in (q, snd out @ (case woken of None \<Rightarrow> [] | Some wk \<Rightarrow> [wk])))"

text \<open>A text that starts with a slash. \<open>/join\<close> gives the server the session's own room.\<close>

definition chat_command ::
  "('tx, 'w) chat_env \<Rightarrow> string \<Rightarrow> chat_session \<Rightarrow> ('it, 'cr, 'wk) chat_out \<Rightarrow> 'tx chat_server \<times> 'w
     \<Rightarrow> chat_session \<times> ('it, 'cr, 'wk) chat_out \<times> 'tx chat_server \<times> 'w" where
  "chat_command E m ses out s =
     (let v = splitn2 CHR '' '' m
      in if v ! 0 = ''/list'' then
           (let (names, s') = list_rooms E s in (ses, fold (\<lambda>room. push (lq_text room)) names out, s'))
         else if v ! 0 = ''/join'' then
           (if length v = 2
            then (let s' = join E (cs_id ses) (cs_room ses) s in (ses, push (lq_text ''joined'') out, s'))
            else (ses, push (lq_text ''!!! room name is required'') out, s))
         else if v ! 0 = ''/name'' then
           (if length v = 2
            then (ses\<lparr>cs_name := Some (v ! 1)\<rparr>, push (lq_text (''new name is '' @ v ! 1)) out, s)
            else (ses, push (lq_text ''!!! name is required'') out, s))
         else (ses, push (lq_text (''!!! unknown command: '' @ str_debug m)) out, s))"

fun starts_with :: "char \<Rightarrow> string \<Rightarrow> bool" where
  "starts_with c [] \<longleftrightarrow> False"
| "starts_with c (d # _) \<longleftrightarrow> d = c"

definition chat_line :: "chat_session \<Rightarrow> string \<Rightarrow> string" where
  "chat_line ses m = (case cs_name ses of Some name \<Rightarrow> name @ '': '' @ m | None \<Rightarrow> m)"

definition chat_text ::
  "('tx, 'w) chat_env \<Rightarrow> string \<Rightarrow> chat_session \<Rightarrow> ('it, 'cr, 'wk) chat_out \<Rightarrow> 'tx chat_server \<times> 'w
     \<Rightarrow> chat_session \<times> ('it, 'cr, 'wk) chat_out \<times> 'tx chat_server \<times> 'w" where
  "chat_text E text ses out s =
     (let m = trim text
      in if starts_with CHR ''/'' m then chat_command E m ses out s
         else (ses, out, send_message E (cs_room ses) (chat_line ses m) (cs_id ses) s))"

text \<open>One turn of the loop; the first component is whether it goes on.\<close>

definition chat_message ::
  "('tx, 'w) chat_env \<Rightarrow> (string, 'it, 'cr) ws_message \<Rightarrow> chat_session \<Rightarrow> ('it, 'cr, 'wk) chat_out
     \<Rightarrow> 'tx chat_server \<times> 'w
     \<Rightarrow> bool \<times> chat_session \<times> ('it, 'cr, 'wk) chat_out \<times> 'tx chat_server \<times> 'w" where
  "chat_message E msg ses out s =
     (case msg of
        MsgPing b \<Rightarrow> (True, ses, push (lq_pong b) out, s)
      | MsgText t \<Rightarrow> (True, chat_text E t ses out s)
      | MsgBinary _ \<Rightarrow> (True, ses, out, s)
      | MsgClose reason \<Rightarrow> (False, ses, push (lq_close reason) out, s)
      | MsgContinuation _ \<Rightarrow> (False, ses, push (lq_close None) out, s)
      | MsgNop \<Rightarrow> (True, ses, out, s)
      | MsgPong _ \<Rightarrow> (True, ses, out, s))"

text \<open>The loop over the items of the incoming stream, until it ends or yields an error.\<close>

fun chat_loop ::
  "('tx, 'w) chat_env \<Rightarrow> ('e + (string, 'it, 'cr) ws_message) list \<Rightarrow> chat_session
     \<Rightarrow> ('it, 'cr, 'wk) chat_out \<Rightarrow> 'tx chat_server \<times> 'w
     \<Rightarrow> chat_session \<times> ('it, 'cr, 'wk) chat_out \<times> 'tx chat_server \<times> 'w" where
  "chat_loop E [] ses out s = (ses, out, s)"
| "chat_loop E (Inl e # items) ses out s = (ses, out, s)"
| "chat_loop E (Inr msg # items) ses out s =
     (case chat_message E msg ses out s of
        (True, ses', out', s') \<Rightarrow> chat_loop E items ses' out' s'
      | (False, r) \<Rightarrow> r)"

text \<open>The spawned task: the session, the loop, and then the drops, the stream's first.\<close>

definition chat_route ::
  "('tx, 'w) chat_env \<Rightarrow> usize \<Rightarrow> 'tx \<Rightarrow> ('e + (string, 'it, 'cr) ws_message) list
     \<Rightarrow> ((string, 'it, 'cr) ws_message, 'wk) local_queue \<Rightarrow> 'tx chat_server \<times> 'w
     \<Rightarrow> ('it, 'cr, 'wk) chat_out \<times> 'tx chat_server \<times> 'w" where
  "chat_route E i tx items q s =
     (let (ses, out, s1) = chat_loop E items (session_new i) (q, []) (connect E i tx s)
      in (push ws_stream_drop out, disconnect E (cs_id ses) s1))"

subsection \<open>All connections at once\<close>

text \<open>
  The tasks of all connections, interleaved message by message: each message calls the server at most
  once, and that call holds the server's mutex. A stream that closes does so when the server next
  sends to it, as \<open>closes\<close> says.
\<close>

record ('it, 'cr, 'wk) chat_task =
  ct_session :: chat_session
  ct_out :: "('it, 'cr, 'wk) chat_out"

record ('it, 'cr, 'wk) chat_system =
  cy_server :: "nat chat_server \<times> ('it, 'cr) chat_world"
  cy_tasks :: "('it, 'cr, 'wk) chat_task list"

datatype ('it, 'cr) chat_event =
  Opened usize nat
| Heard nat "(string, 'it, 'cr) ws_message"
| Returned nat "(string, 'it, 'cr) ws_message"
| Ended nat

definition without :: "nat \<Rightarrow> 'x list \<Rightarrow> 'x list" where
  "without k xs = take k xs @ drop (Suc k) xs"

inductive chat_step ::
  "(nat \<Rightarrow> nat \<Rightarrow> bool) \<Rightarrow> (nat \<Rightarrow> nat list) \<Rightarrow> ('it, 'cr, 'wk) chat_system
     \<Rightarrow> ('it, 'cr) chat_event \<Rightarrow> ('it, 'cr, 'wk) chat_system \<Rightarrow> bool"
  for closes order where
  ChatOpen: "admissible (Connect i tx) (closed (snd (cy_server s))) (fst (cy_server s)) \<Longrightarrow>
    chat_step closes order s (Opened i tx)
      \<lparr>cy_server = connect (channels_env closes order) i tx (cy_server s),
       cy_tasks = cy_tasks s @ [\<lparr>ct_session = session_new i, ct_out = (lq_clone lq_new, [])\<rparr>]\<rparr>"
| ChatHear: "k < length (cy_tasks s) \<Longrightarrow> t = cy_tasks s ! k \<Longrightarrow>
    chat_message (channels_env closes order) msg (ct_session t) (ct_out t) (cy_server s) = (True, ses, out, srv) \<Longrightarrow>
    chat_step closes order s (Heard k msg)
      \<lparr>cy_server = srv, cy_tasks = (cy_tasks s)[k := \<lparr>ct_session = ses, ct_out = out\<rparr>]\<rparr>"
| ChatReturn: "k < length (cy_tasks s) \<Longrightarrow> t = cy_tasks s ! k \<Longrightarrow>
    chat_message (channels_env closes order) msg (ct_session t) (ct_out t) (cy_server s) = (False, ses, out, srv) \<Longrightarrow>
    chat_step closes order s (Returned k msg)
      \<lparr>cy_server = disconnect (channels_env closes order) (cs_id ses) srv, cy_tasks = without k (cy_tasks s)\<rparr>"
| ChatEnd: "k < length (cy_tasks s) \<Longrightarrow>
    chat_step closes order s (Ended k)
      \<lparr>cy_server = disconnect (channels_env closes order) (cs_id (ct_session (cy_tasks s ! k))) (cy_server s),
       cy_tasks = without k (cy_tasks s)\<rparr>"

definition chat_system_new :: "('it, 'cr) chat_world \<Rightarrow> ('it, 'cr, 'wk) chat_system" where
  "chat_system_new w = \<lparr>cy_server = (chat_default, w), cy_tasks = []\<rparr>"

subsection \<open>There is only one room\<close>

definition one_room :: "'tx chat_server \<Rightarrow> bool" where
  "one_room srv \<longleftrightarrow> map fst (rooms srv) = [''Main''] \<and>
     (\<forall>i tx. map_of (sessions srv) i = Some tx \<longrightarrow> in_room i srv ''Main'')"

lemma one_room_rooms: "one_room srv \<Longrightarrow> \<exists>ids. rooms srv = [(''Main'', ids)]"
  by (auto simp: one_room_def map_eq_Cons_conv)

lemma one_room_keep: "one_room srv \<Longrightarrow> one_room (keep S srv)"
  using one_room_rooms [of srv]
  by (auto simp: one_room_def in_room_def keep_def map_of_keep split: if_splits)

lemma one_room_insert: "one_room srv \<Longrightarrow> one_room (join_room i ''Main'' (insert_session i tx srv))"
  using one_room_rooms [of srv]
  by (auto simp: one_room_def in_room_def join_room_def insert_session_def
      remove_session_lookup [unfolded remove_session_def, simplified] split: if_splits)

lemma one_room_rejoin: "one_room srv \<Longrightarrow> one_room (join_room i ''Main'' (leave i srv))"
  using one_room_rooms [of srv] by (auto simp: one_room_def in_room_def join_room_def leave_def)

fun main_op :: "'tx chat_op \<Rightarrow> bool" where
  "main_op (Join i room) \<longleftrightarrow> room = ''Main''"
| "main_op _ \<longleftrightarrow> True"

lemma one_room_spec: "one_room srv \<Longrightarrow> main_op op \<Longrightarrow> one_room (chat_spec op srv)"
  by (cases op) (simp_all add: one_room_insert one_room_rejoin dropped_def one_room_keep)

definition server_ok :: "nat chat_server \<times> ('it, 'cr) chat_world \<Rightarrow> bool" where
  "server_ok s \<longleftrightarrow> well_formed (fst s) \<and> all_open s \<and> one_room (fst s)"

lemma server_ok_run:
  assumes "server_ok s" "main_op op" "admissible op (closed (snd s)) (fst s)"
  shows "server_ok (chat_run (channels_env closes order) op s)"
proof -
  obtain srv' w' where run: "chat_run (channels_env closes order) op (fst s, snd s) = (srv', w')" by force
  from assms(1) have "well_formed (fst s)" "all_open (fst s, snd s)" "one_room (fst s)"
    by (simp_all add: server_ok_def)
  with chat_refines [OF this(1,2) assms(3) run] one_room_spec [OF this(3) assms(2)]
  have "srv' = prune (closed w') (chat_spec op (fst s))" "well_formed srv'" "all_open (srv', w')"
    "one_room (chat_spec op (fst s))" by blast+
  then have "server_ok (srv', w')" unfolding server_ok_def by (simp add: prune_def one_room_keep)
  with run show ?thesis by simp
qed

lemma list_rooms_state [simp]:
  "fst (snd (list_rooms (channels_env closes order) s)) = fst s"
  "chans (snd (snd (list_rooms (channels_env closes order) s))) = chans (snd s)"
  by (simp_all add: list_rooms_def channels_env_def split_def Let_def)

text \<open>A message leaves the session in its room, and calls the server as one of its operations or not at all.\<close>

definition session_op :: "chat_session \<Rightarrow> 'tx chat_op \<Rightarrow> bool" where
  "session_op ses op \<longleftrightarrow> op = Join (cs_id ses) (cs_room ses) \<or> (\<exists>m. op = Say (cs_room ses) m (cs_id ses))"

definition server_call ::
  "(nat \<Rightarrow> nat \<Rightarrow> bool) \<Rightarrow> (nat \<Rightarrow> nat list) \<Rightarrow> chat_session \<Rightarrow> nat chat_server \<times> ('it, 'cr) chat_world
     \<Rightarrow> nat chat_server \<times> ('it, 'cr) chat_world \<Rightarrow> bool" where
  "server_call closes order ses s s' \<longleftrightarrow>
     fst s' = fst s \<and> chans (snd s') = chans (snd s) \<or>
     (\<exists>op. session_op ses op \<and> s' = chat_run (channels_env closes order) op s)"

lemma chat_message_server:
  assumes "chat_message (channels_env closes order) msg ses out s = (go, ses', out', s')"
  shows "cs_room ses' = cs_room ses \<and> cs_id ses' = cs_id ses \<and> server_call closes order ses s s'"
proof (cases msg)
  case (MsgText t)
  show ?thesis
  proof (cases "starts_with CHR ''/'' (trim t)")
    case True
    have "server_call closes order ses s (join (channels_env closes order) (cs_id ses) (cs_room ses) s)"
      unfolding server_call_def session_op_def by (metis chat_run.simps(3))
    with assms MsgText True show ?thesis
      by (auto simp: chat_message_def chat_text_def chat_command_def Let_def split_def server_call_def
          split: if_splits)
  next
    case False
    have "server_call closes order ses s (send_message (channels_env closes order) (cs_room ses) m (cs_id ses) s)" for m
      unfolding server_call_def session_op_def by (metis chat_run.simps(4))
    with assms MsgText False show ?thesis by (auto simp: chat_message_def chat_text_def Let_def)
  qed
qed (use assms in \<open>auto simp: chat_message_def server_call_def\<close>)

lemma server_ok_call:
  assumes "server_ok s" "cs_room ses = ''Main''" "server_call closes order ses s s'"
  shows "server_ok s'"
  using assms(3) unfolding server_call_def
proof (elim disjE conjE exE)
  assume "fst s' = fst s" "chans (snd s') = chans (snd s)"
  with assms(1) show ?thesis by (simp add: server_ok_def all_open_def)
next
  fix op
  assume "session_op ses op" "s' = chat_run (channels_env closes order) op s"
  with server_ok_run [OF assms(1), of op closes order] assms(2) show ?thesis
    by (auto simp: session_op_def)
qed

definition system_ok :: "('it, 'cr) chat_event list \<Rightarrow> ('it, 'cr, 'wk) chat_system \<Rightarrow> bool" where
  "system_ok tr s \<longleftrightarrow> server_ok (cy_server s) \<and> (\<forall>t \<in> set (cy_tasks s). cs_room (ct_session t) = ''Main'')"

lemma set_without: "set (without k xs) \<subseteq> set xs"
  by (auto simp: without_def dest: in_set_takeD in_set_dropD)

lemma system_ok_step:
  assumes "chat_step closes order s l s'" "system_ok tr s"
  shows "system_ok (tr @ [l]) s'"
  using assms(1)
proof (cases rule: chat_step.cases)
  case (ChatOpen i tx)
  with server_ok_run [of "cy_server s" "Connect i tx" closes order] assms(2) show ?thesis
    by (simp add: system_ok_def session_new_def)
next
  case (ChatHear k t msg ses out srv)
  then have "cs_room (ct_session t) = ''Main''" using assms(2) by (simp add: system_ok_def)
  with chat_message_server [OF ChatHear(5)] server_ok_call [of "cy_server s" "ct_session t" closes order srv] assms(2)
    ChatHear(2) show ?thesis
    by (auto simp: system_ok_def dest!: set_update_subset_insert [THEN subsetD])
next
  case (ChatReturn k t msg ses out srv)
  then have "cs_room (ct_session t) = ''Main''" using assms(2) by (simp add: system_ok_def)
  with chat_message_server [OF ChatReturn(5)] server_ok_call [of "cy_server s" "ct_session t" closes order srv]
    assms(2) have "server_ok srv" by (simp add: system_ok_def)
  with server_ok_run [of srv "Disconnect (cs_id ses)" closes order] ChatReturn(2) assms(2) set_without [of k "cy_tasks s"]
  show ?thesis by (auto simp: system_ok_def simp del: disconnect.simps)
next
  case (ChatEnd k)
  with server_ok_run [of "cy_server s" "Disconnect (cs_id (ct_session (cy_tasks s ! k)))" closes order] assms(2)
    set_without [of k "cy_tasks s"]
  show ?thesis by (auto simp: system_ok_def simp del: disconnect.simps)
qed

interpretation chat_sys: trace_invariant "chat_step closes order" system_ok for closes order
  by unfold_locales (rule system_ok_step)

lemma system_ok_new: "system_ok [] (chat_system_new w)"
  by (simp add: system_ok_def chat_system_new_def server_ok_def chat_default_def well_formed_def one_tx_def
      all_open_def one_room_def)

text \<open>
  The chat has one room. Whatever commands are given, in whatever order the connections' messages are
  handled and channels close, the server's only room is \<open>Main\<close>, every session is and stays in it, and
  every registered session is a member of it whose channel was not found closed: \<open>/join\<close> never leads
  to another room.
\<close>

theorem chat_one_room:
  assumes "run (chat_step closes order) (chat_system_new w) tr s"
  shows "map fst (rooms (fst (cy_server s))) = [''Main'']
     \<and> (\<forall>t \<in> set (cy_tasks s). cs_room (ct_session t) = ''Main'')
     \<and> (\<forall>i tx. map_of (sessions (fst (cy_server s))) i = Some tx \<longrightarrow>
            in_room i (fst (cy_server s)) ''Main'' \<and> \<not> ch_closed (chans (snd (cy_server s)) tx))"
  using chat_sys.run_from [OF assms system_ok_new]
  by (simp add: system_ok_def server_ok_def one_room_def all_open_def)


subsection \<open>The theorems at work\<close>

text \<open>Two connections, the first of which may be found closed.\<close>

definition chat_demo_world :: "(unit, unit) chat_world" where
  "chat_demo_world = \<lparr>chans = (\<lambda>_. \<lparr>ch_msgs = [], ch_closed = False, ch_senders = 1\<rparr>), moment = 0\<rparr>"

definition demo_server :: "nat chat_server" where
  "demo_server = \<lparr>sessions = [(1, 1), (2, 2)], rooms = [(''Main'', [1, 2])]\<rparr>"

lemma demo_server_ok: "well_formed demo_server" "all_open (demo_server, chat_demo_world)"
  by (auto simp: well_formed_def one_tx_def all_open_def demo_server_def chat_demo_world_def split: if_splits)

theorem chat_refines_witness:
  "\<exists>w'. chat_run (channels_env (\<lambda>_ tx. tx = 1) (\<lambda>_. [1])) (Say ''Main'' ''hi'' 2) (demo_server, chat_demo_world)
       = (\<lparr>sessions = [(2, 2)], rooms = [(''Main'', [2])]\<rparr>, w')
     \<and> \<lparr>sessions = [(2, 2)], rooms = [(''Main'', [2])]\<rparr> = prune (closed w') demo_server"
proof -
  have "fst (chat_run (channels_env (\<lambda>_ tx. tx = 1) (\<lambda>_. [1])) (Say ''Main'' ''hi'' 2) (demo_server, chat_demo_world))
      = \<lparr>sessions = [(2, 2)], rooms = [(''Main'', [2])]\<rparr>"
    by code_simp
  then obtain w' where run: "chat_run (channels_env (\<lambda>_ tx. tx = 1) (\<lambda>_. [1])) (Say ''Main'' ''hi'' 2) (demo_server, chat_demo_world)
      = (\<lparr>sessions = [(2, 2)], rooms = [(''Main'', [2])]\<rparr>, w')"
    by (metis prod.collapse)
  from chat_refines [OF demo_server_ok _ run] run show ?thesis by auto
qed

text \<open>
  Why \<open>chat_spec\<close> lets a session join that is no longer registered: the connection of a session that
  was found closed may still have a \<open>/join\<close> to handle. It then is a member again, and nothing ever
  takes it out, since \<open>disconnect\<close> leaves the rooms of registered sessions only.
\<close>

lemma stale_member:
  "fst (let E = channels_env (\<lambda>_ tx. tx = 1) (\<lambda>_. [])
        in disconnect E 1 (join E 1 ''Main'' (send_message E ''Main'' ''hi'' 2 (demo_server, chat_demo_world))))
     = \<lparr>sessions = [(2, 2)], rooms = [(''Main'', [1, 2])]\<rparr>"
  by code_simp

definition demo_chat :: "(unit, unit, nat) chat_system" where
  "demo_chat =
     (let E = channels_env (\<lambda>_ _. False) (\<lambda>_. [])
      in \<lparr>cy_server = connect E 2 2 (connect E 1 1 (chat_default, chat_demo_world)),
          cy_tasks = [\<lparr>ct_session = session_new 1, ct_out = (lq_clone lq_new, [])\<rparr>,
                      \<lparr>ct_session = session_new 2, ct_out = (lq_clone lq_new, [])\<rparr>]\<rparr>)"

lemma demo_chat_run:
  "run (chat_step (\<lambda>_ _. False) (\<lambda>_. [])) (chat_system_new chat_demo_world) [Opened 1 1, Opened 2 2] demo_chat"
proof -
  let ?E = "channels_env (\<lambda>_ _. False) (\<lambda>_. []) :: (nat, (unit, unit) chat_world) chat_env"
  let ?s0 = "chat_system_new chat_demo_world :: (unit, unit, nat) chat_system"
  let ?s1 = "\<lparr>cy_server = connect ?E 1 1 (chat_default, chat_demo_world),
      cy_tasks = [\<lparr>ct_session = session_new 1, ct_out = (lq_clone lq_new, [])\<rparr>]\<rparr>"
  have step1: "chat_step (\<lambda>_ _. False) (\<lambda>_. []) ?s0 (Opened 1 1) ?s1"
    using ChatOpen [of 1 1 ?s0] by (simp add: chat_system_new_def chat_default_def fresh_session_def closed_def chat_demo_world_def)
  have "fst (connect ?E 1 1 (chat_default, chat_demo_world)) = \<lparr>sessions = [(1, 1)], rooms = [(''Main'', [1])]\<rparr>"
    "\<not> ch_closed (chans (snd (connect ?E 1 1 (chat_default, chat_demo_world))) 2)"
    by code_simp+
  then have "admissible (Connect 2 2) (closed (snd (cy_server ?s1))) (fst (cy_server ?s1))"
    by (auto simp: fresh_session_def closed_def)
  from ChatOpen [OF this, of "\<lambda>_ _. False" "\<lambda>_. []"]
  have "chat_step (\<lambda>_ _. False) (\<lambda>_. []) ?s1 (Opened 2 2) demo_chat" by (simp add: demo_chat_def Let_def)
  with step1 show ?thesis by (rule run_two)
qed

theorem chat_one_room_witness: "map fst (rooms (fst (cy_server demo_chat))) = [''Main'']"
  using chat_one_room [OF demo_chat_run] by simp


end
