(* ===== verification/Macro_Syntax.thy ===== *)
theory Macro_Syntax
  imports Prelude
begin

section \<open>The syntax the macros work on (\<open>actix-send-macros/src/lib.rs\<close>)\<close>

text \<open>
  The part of syn's syntax trees that the macros read or build. Tokens and spans, which carry no
  information, are left out, and so are the fields the macros always leave empty. What a user wrote
  between braces is a \<open>'b\<close>: the macros move such blocks and never look inside.
\<close>

type_synonym ident = string

datatype ty = TyPath path | TyTuple "ty list" | TyOther string
and path = Path bool "segment list"
and segment = Segment ident arguments
and arguments = NoArgs | AngleArgs "ty list" | ParenArgs "ty list"

text \<open>\<open>Path::get_ident\<close>: the one segment of a path without colons and arguments.\<close>

fun get_ident :: "path \<Rightarrow> ident option" where
  "get_ident (Path False [Segment i NoArgs]) = Some i"
| "get_ident _ = None"

record attribute =
  attr_path :: path
  attr_tokens :: string

text \<open>An identifier pattern carries whether it is \<open>mut\<close>.\<close>

datatype pat = PIdent bool ident | PTupleStruct path "pat list" | PWild | POther string

text \<open>
  \<open>EAsync\<close> is \<open>async move\<close>, \<open>EClosure\<close> is \<open>move ||\<close> with a block, \<open>EMacro\<close> a macro call without
  arguments. A block is a user's or made of generated statements.
\<close>

datatype 'b expr =
  EPath path
| ECall "'b expr" "'b expr list"
| EAsync "'b block"
| EClosure "'b block"
| EAwait "'b expr"
| EMatch "'b expr" "(pat \<times> 'b expr) list"
| EMacro path
| EBlock "'b stmt list"
and 'b stmt = SLet ident "'b expr" | SExpr "'b expr"
and 'b block = UserBlock 'b | Stmts "'b stmt list"

datatype fn_arg = Receiver | Typed pat ty

record 'b impl_method =
  m_attrs :: "attribute list"
  m_pub :: bool
  m_async :: bool
  m_ident :: ident
  m_inputs :: "fn_arg list"
  m_output :: "ty option"
  m_block :: "'b block"

datatype 'b impl_item = Method "'b impl_method" | AssocType ident ty | OtherItem string

record 'b item_impl =
  impl_attrs :: "attribute list"
  impl_trait :: "path option"
  impl_self :: ty
  impl_items :: "'b impl_item list"

text \<open>An enum whose variants have one unnamed field each.\<close>

record item_enum =
  enum_attrs :: "attribute list"
  enum_ident :: ident
  variants :: "(ident \<times> ty) list"

text \<open>A struct or a type alias: its attributes, its name, and everything behind the name.\<close>

record item_decl =
  decl_attrs :: "attribute list"
  decl_ident :: ident
  decl_rest :: string

datatype 'b item =
  StructItem item_decl
| TypeItem item_decl
| ImplItem "'b item_impl"
| EnumItem item_enum
| OtherTopItem string

subsection \<open>The helper functions\<close>

definition path_from_ident_str :: "string list \<Rightarrow> path" where
  "path_from_ident_str is = Path False (map (\<lambda>i. Segment i NoArgs) is)"

definition type_path_from_idents :: "ident list \<Rightarrow> path" where
  "type_path_from_idents is = Path False (map (\<lambda>i. Segment i NoArgs) is)"

definition attr_from_ident_str :: "string list \<Rightarrow> attribute" where
  "attr_from_ident_str is = \<lparr>attr_path = path_from_ident_str is, attr_tokens = []\<rparr>"

fun first_segment_is :: "string \<Rightarrow> path \<Rightarrow> bool" where
  "first_segment_is s (Path _ (Segment i _ # _)) = (i = s)"
| "first_segment_is s (Path _ []) = False"

definition is_ident :: "attribute list \<Rightarrow> string \<Rightarrow> attribute option" where
  "is_ident attrs s = find (\<lambda>a. first_segment_is s (attr_path a)) attrs"

text \<open>
  A flag among a macro's arguments, such as \<open>no_send\<close>. Of the arguments only paths matter: the others
  are \<open>None\<close>.
\<close>

fun segment_idents :: "path \<Rightarrow> ident list" where
  "segment_idents (Path _ segs) = map (\<lambda>s. case s of Segment i _ \<Rightarrow> i) segs"

definition macro_flag :: "string \<Rightarrow> path option list \<Rightarrow> bool" where
  "macro_flag s args =
     (case find (\<lambda>b. b) (map (\<lambda>p. s \<in> set (segment_idents p)) (List.map_filter id args)) of
        None \<Rightarrow> False
      | Some b \<Rightarrow> b)"

lemmas syntax_defs [op_defs] =
  path_from_ident_str_def type_path_from_idents_def attr_from_ident_str_def is_ident_def

lemma get_ident_type_path [simp]: "get_ident (type_path_from_idents [i]) = Some i"
  by (simp add: op_defs)

lemma macro_flag_iff: "macro_flag s args \<longleftrightarrow> (\<exists>p. Some p \<in> set args \<and> s \<in> set (segment_idents p))"
proof -
  have "macro_flag s args \<longleftrightarrow> True \<in> set (map (\<lambda>p. s \<in> set (segment_idents p)) (List.map_filter id args))"
    by (auto simp: macro_flag_def find_None_iff find_Some_iff split: option.splits)
  also have "\<dots> \<longleftrightarrow> (\<exists>p. Some p \<in> set args \<and> s \<in> set (segment_idents p))"
    by (force simp: List.map_filter_def)
  finally show ?thesis .
qed

end
