(* ===== verification/Macro_Generate.thy ===== *)
theory Macro_Generate
  imports Macro_Syntax
begin

section \<open>What the macros generate
  (\<open>actix-send-macros/src/message.rs\<close>, \<open>actix-send-macros/src/lib.rs\<close>)\<close>

text \<open>
  \<open>handler_v2\<close> turns the methods of an \<open>impl\<close> block into an enum of all messages, an enum of all
  results, the conversions, and one \<open>Handler\<close> implementation. A panic of the macro, which stops the
  compilation, is \<open>None\<close>.
\<close>

subsection \<open>One method\<close>

record 'b handle_info =
  message_var_ident :: ident
  message_type_path :: path
  message_return_type :: "ty option"
  method_block :: "'b block"
  is_async :: bool

fun message_arg :: "fn_arg \<Rightarrow> (ident \<times> path) option" where
  "message_arg (Typed (PIdent mut i) (TyPath p)) = Some (i, p)"
| "message_arg (Typed _ (TyPath p)) = Some (''_msg'', p)"
| "message_arg _ = None"

fun find_map :: "('x \<Rightarrow> 'y option) \<Rightarrow> 'x list \<Rightarrow> 'y option" where
  "find_map f [] = None"
| "find_map f (x # xs) = (case f x of Some y \<Rightarrow> Some y | None \<Rightarrow> find_map f xs)"

definition handle_info_new :: "'b impl_method \<Rightarrow> 'b handle_info option" where
  "handle_info_new m =
     map_option
       (\<lambda>(i, p). \<lparr>message_var_ident = i, message_type_path = p, message_return_type = m_output m,
                  method_block = m_block m, is_async = m_async m\<rparr>)
       (find_map message_arg (m_inputs m))"

subsection \<open>The actor\<close>

record 'b actor_info =
  actor_ident :: ident
  message_enum_ident :: ident
  message_enum_type :: ty
  result_enum_ident :: ident
  message_enum :: item_enum
  result_enum :: item_enum
  gen_items :: "'b item list"

definition actor_info_new :: "ident \<Rightarrow> 'b actor_info" where
  "actor_info_new i =
     (let me = i @ ''Message''; re = i @ ''Result''
      in \<lparr>actor_ident = i, message_enum_ident = me,
          message_enum_type = TyPath (type_path_from_idents [me]), result_enum_ident = re,
          message_enum = \<lparr>enum_attrs = [], enum_ident = me, variants = []\<rparr>,
          result_enum = \<lparr>enum_attrs = [], enum_ident = re, variants = []\<rparr>,
          gen_items = []\<rparr>)"

definition result_type :: "'b handle_info \<Rightarrow> ty" where
  "result_type h = (case message_return_type h of None \<Rightarrow> TyTuple [] | Some t \<Rightarrow> t)"

text \<open>\<open>Result<T, ActixSendError>\<close>.\<close>

definition with_send_error :: "ty \<Rightarrow> ty" where
  "with_send_error t =
     TyPath (Path False [Segment ''Result''
       (AngleArgs [t, TyPath (type_path_from_idents [''ActixSendError''])])])"

definition result_variant_type :: "'b handle_info \<Rightarrow> ty" where
  "result_variant_type h =
     (if is_async h then result_type h else with_send_error (result_type h))"

fun enum_variants :: "'b handle_info list \<Rightarrow> 'b actor_info \<Rightarrow> 'b actor_info option" where
  "enum_variants [] a = Some a"
| "enum_variants (h # hs) a =
     (case get_ident (message_type_path h) of
        None \<Rightarrow> None
      | Some i \<Rightarrow>
          enum_variants hs
            (a\<lparr>message_enum := (message_enum a)
                  \<lparr>variants := variants (message_enum a) @ [(i, TyPath (message_type_path h))]\<rparr>,
               result_enum := (result_enum a)
                  \<lparr>variants := variants (result_enum a) @ [(i, result_variant_type h)]\<rparr>\<rparr>))"

definition plain_method :: "ident \<Rightarrow> fn_arg list \<Rightarrow> ty \<Rightarrow> 'b expr \<Rightarrow> 'b impl_method" where
  "plain_method i ins out e =
     \<lparr>m_attrs = [], m_pub = False, m_async = False, m_ident = i, m_inputs = ins,
      m_output = Some out, m_block = Stmts [SExpr e]\<rparr>"

text \<open>\<open>impl From<M> for ActorMessage { fn from(msg: M) -> ActorMessage { ActorMessage::M(msg) } }\<close>\<close>

definition from_impl :: "ident \<Rightarrow> ty \<Rightarrow> path \<Rightarrow> ident \<Rightarrow> 'b item" where
  "from_impl enum enum_type tp i =
     ImplItem \<lparr>impl_attrs = [],
       impl_trait = Some (Path False [Segment ''From'' (AngleArgs [TyPath tp])]),
       impl_self = enum_type,
       impl_items =
         [Method (plain_method ''from'' [Typed (PIdent False ''msg'') (TyPath tp)] enum_type
            (ECall (EPath (Path False [Segment enum NoArgs, Segment i NoArgs]))
                   [EPath (path_from_ident_str [''msg''])]))]\<rparr>"

fun from_trait :: "'b handle_info list \<Rightarrow> 'b actor_info \<Rightarrow> 'b actor_info option" where
  "from_trait [] a = Some a"
| "from_trait (h # hs) a =
     (case get_ident (message_type_path h) of
        None \<Rightarrow> None
      | Some i \<Rightarrow>
          from_trait hs
            (a\<lparr>gen_items := gen_items a
                 @ [from_impl (message_enum_ident a) (message_enum_type a) (message_type_path h) i]\<rparr>))"

text \<open>
  \<open>map\<close>'s two arms: the message's own variant, wrapped in \<open>Ok\<close> unless the handler is blocking, and
  \<open>_ => unreachable!()\<close>. The \<open>Ok(result)\<close> is built as a path with parenthesized arguments.
\<close>

definition map_arms :: "ident \<Rightarrow> ident \<Rightarrow> bool \<Rightarrow> (pat \<times> 'b expr) list" where
  "map_arms enum i async =
     [(PTupleStruct (Path False [Segment enum NoArgs, Segment i NoArgs]) [PIdent False ''result''],
       EPath (Path False
         [if async then Segment ''Ok'' (ParenArgs [TyPath (type_path_from_idents [''result''])])
          else Segment ''result'' NoArgs])),
      (PWild, EMacro (path_from_ident_str [''unreachable'']))]"

definition map_result_impl :: "ident \<Rightarrow> 'b handle_info \<Rightarrow> ident \<Rightarrow> 'b item" where
  "map_result_impl enum h i =
     (let enum_type = TyPath (type_path_from_idents [enum])
      in ImplItem \<lparr>impl_attrs = [],
           impl_trait = Some (Path False [Segment ''MapResult'' (AngleArgs [enum_type])]),
           impl_self = TyPath (message_type_path h),
           impl_items =
             [AssocType ''Output'' (result_type h),
              Method (plain_method ''map'' [Typed (PIdent False ''msg'') enum_type]
                (with_send_error (TyPath (type_path_from_idents [''Self'', ''Output''])))
                (EMatch (EPath (path_from_ident_str [''msg''])) (map_arms enum i (is_async h))))]\<rparr>)"

fun map_result_trait :: "'b handle_info list \<Rightarrow> 'b actor_info \<Rightarrow> 'b actor_info option" where
  "map_result_trait [] a = Some a"
| "map_result_trait (h # hs) a =
     (case get_ident (message_type_path h) of
        None \<Rightarrow> None
      | Some i \<Rightarrow>
          map_result_trait hs
            (a\<lparr>gen_items := gen_items a @ [map_result_impl (result_enum_ident a) h i]\<rparr>))"

text \<open>
  An arm of the generated \<open>handle\<close>: the user's block as an \<open>async move\<close> block or as a closure for
  \<open>actix_send_blocking\<close>, awaited inside the result's variant.
\<close>

definition handle_arm :: "ident \<Rightarrow> ident \<Rightarrow> 'b handle_info \<Rightarrow> ident \<Rightarrow> pat \<times> 'b expr" where
  "handle_arm menum renum h i =
     (PTupleStruct (Path False [Segment menum NoArgs, Segment i NoArgs])
        [PIdent False (message_var_ident h)],
      EBlock
        [SLet ''result''
           (if is_async h then EAsync (method_block h)
            else ECall (EPath (path_from_ident_str [''actix_send_blocking'']))
                   [EClosure (method_block h)]),
         SExpr (ECall (EPath (Path False [Segment renum NoArgs, Segment i NoArgs]))
                  [EAwait (EPath (path_from_ident_str [''result'']))])])"

fun handle_arms :: "ident \<Rightarrow> ident \<Rightarrow> 'b handle_info list \<Rightarrow> (pat \<times> 'b expr) list option" where
  "handle_arms menum renum [] = Some []"
| "handle_arms menum renum (h # hs) =
     (case get_ident (message_type_path h) of
        None \<Rightarrow> None
      | Some i \<Rightarrow> map_option (\<lambda>arms. handle_arm menum renum h i # arms) (handle_arms menum renum hs))"

definition handler_impl :: "'b actor_info \<Rightarrow> (pat \<times> 'b expr) list \<Rightarrow> bool \<Rightarrow> 'b item" where
  "handler_impl a arms no_send =
     ImplItem \<lparr>impl_attrs =
         (if no_send then [(attr_from_ident_str [''handler''])\<lparr>attr_tokens := ''(no_send)''\<rparr>]
          else [attr_from_ident_str [''handler'']]),
       impl_trait = Some (path_from_ident_str [''Handler'']),
       impl_self = TyPath (type_path_from_idents [actor_ident a]),
       impl_items =
         [Method \<lparr>m_attrs = [], m_pub = False, m_async = True, m_ident = ''handle'',
            m_inputs = [Receiver, Typed (PIdent False ''msg'') (message_enum_type a)],
            m_output = Some (TyPath (type_path_from_idents [result_enum_ident a])),
            m_block = Stmts [SExpr (EMatch (EPath (path_from_ident_str [''msg''])) arms)]\<rparr>]\<rparr>"

definition handler_trait :: "bool \<Rightarrow> 'b handle_info list \<Rightarrow> 'b actor_info \<Rightarrow> 'b actor_info option" where
  "handler_trait no_send hs a =
     map_option (\<lambda>arms. a\<lparr>gen_items := gen_items a @ [handler_impl a arms no_send]\<rparr>)
       (handle_arms (message_enum_ident a) (result_enum_ident a) hs)"

subsection \<open>The macro \<open>handler_v2\<close>\<close>

definition has_attr :: "string \<Rightarrow> 'b impl_method \<Rightarrow> bool" where
  "has_attr s m \<longleftrightarrow> is_ident (m_attrs m) s \<noteq> None"

text \<open>\<open>retain\<close> keeps the methods that are neither hook; each hook is the last method so marked.\<close>

fun split_hooks ::
  "'b impl_item list \<Rightarrow> 'b impl_method option \<Rightarrow> 'b impl_method option
     \<Rightarrow> 'b impl_method list \<times> 'b impl_method option \<times> 'b impl_method option" where
  "split_hooks [] on_start on_stop = ([], on_start, on_stop)"
| "split_hooks (Method m # items) on_start on_stop =
     (if has_attr ''on_start'' m then split_hooks items (Some m) on_stop
      else if has_attr ''on_stop'' m then split_hooks items on_start (Some m)
      else (let (ms, s1, s2) = split_hooks items on_start on_stop in (m # ms, s1, s2)))"
| "split_hooks (_ # items) on_start on_stop = split_hooks items on_start on_stop"

text \<open>A hook's method: empty by default, else the user's block under the attributes left over.\<close>

definition hook_method :: "string \<Rightarrow> ident \<Rightarrow> 'b impl_method option \<Rightarrow> 'b impl_method" where
  "hook_method marker name hook =
     (let m = \<lparr>m_attrs = [], m_pub = True, m_async = True, m_ident = name, m_inputs = [Receiver],
               m_output = None, m_block = Stmts []\<rparr>
      in case hook of
           None \<Rightarrow> m
         | Some u \<Rightarrow> m\<lparr>m_attrs := filter (\<lambda>a. get_ident (attr_path a) \<noteq> Some marker) (m_attrs u),
                        m_block := m_block u\<rparr>)"

fun map_all :: "('x \<Rightarrow> 'y option) \<Rightarrow> 'x list \<Rightarrow> 'y list option" where
  "map_all f [] = Some []"
| "map_all f (x # xs) =
     (case f x of None \<Rightarrow> None | Some y \<Rightarrow> map_option (\<lambda>ys. y # ys) (map_all f xs))"

fun self_ident :: "ty \<Rightarrow> ident option" where
  "self_ident (TyPath p) = get_ident p"
| "self_ident _ = None"

text \<open>The expansion: the hooks' \<open>impl\<close>, the two enums, and the generated items.\<close>

definition handler_v2 :: "path option list \<Rightarrow> 'b item_impl \<Rightarrow> 'b item list option" where
  "handler_v2 args imp =
     Option.bind (self_ident (impl_self imp)) (\<lambda>actor.
       (let no_send = macro_flag ''no_send'' args;
            (methods, on_start, on_stop) = split_hooks (impl_items imp) None None;
            on_start_stop =
              ImplItem \<lparr>impl_attrs = [], impl_trait = None, impl_self = impl_self imp,
                impl_items = [Method (hook_method ''on_start'' ''__on_start'' on_start),
                              Method (hook_method ''on_stop'' ''__on_stop'' on_stop)]\<rparr>
        in Option.bind (map_all handle_info_new methods) (\<lambda>info.
           Option.bind (enum_variants info (actor_info_new actor)) (\<lambda>a1.
           Option.bind (from_trait info a1) (\<lambda>a2.
           Option.bind (map_result_trait info a2) (\<lambda>a3.
           Option.bind (handler_trait no_send info a3) (\<lambda>a4.
             Some ([on_start_stop, EnumItem (message_enum a4), EnumItem (result_enum a4)]
                   @ gen_items a4))))))))"

subsection \<open>The macros \<open>actor\<close> and \<open>handler\<close>\<close>

text \<open>
  \<open>actor\<close> keeps the struct and implements \<open>Actor\<close> for it: its two associated types, and, except for a
  \<open>no_static\<close> actor, hooks that call \<open>__on_start\<close> and \<open>__on_stop\<close>, boxed as \<open>Send\<close> unless
  \<open>no_send\<close>. A \<open>no_static\<close> actor also gets a \<open>Handler\<close> that does nothing.
\<close>

record actor_expansion =
  ae_message :: ty
  ae_result :: ty
  ae_hooks :: "bool option"
  ae_dummy_handler :: "attribute option"

definition actor_macro :: "path option list \<Rightarrow> ident \<Rightarrow> actor_expansion" where
  "actor_macro args struct_ident =
     (let info = (actor_info_new struct_ident :: unit actor_info)
      in if macro_flag ''no_static'' args
         then \<lparr>ae_message = TyTuple [], ae_result = TyTuple [], ae_hooks = None,
               ae_dummy_handler =
                 Some (attr_from_ident_str [''actix_send'', ''prelude'', ''async_trait''])\<rparr>
         else \<lparr>ae_message = TyPath (type_path_from_idents [message_enum_ident info]),
               ae_result = TyPath (type_path_from_idents [result_enum_ident info]),
               ae_hooks = Some (\<not> macro_flag ''no_send'' args), ae_dummy_handler = None\<rparr>)"

definition handler_macro :: "path option list \<Rightarrow> 'b item_impl \<Rightarrow> 'b item_impl" where
  "handler_macro args imp =
     (let a = (if macro_flag ''no_send'' args
               then (attr_from_ident_str [''async_trait''])\<lparr>attr_tokens := ''(?Send)''\<rparr>
               else attr_from_ident_str [''async_trait''])
      in if a \<in> set (impl_attrs imp) then imp else imp\<lparr>impl_attrs := impl_attrs imp @ [a]\<rparr>)"

end
