(* ===== verification/Macro_Meaning.thy ===== *)
theory Macro_Meaning
  imports Macro_Generate Send_Error
begin

section \<open>What the generated code does\<close>

text \<open>
  A meaning for the fragment of Rust that \<open>handler_v2\<close> generates, and the theorem that the generated
  conversions and the generated handler together run the user's method. A value is the user's, a
  variant of a generated enum, a \<open>Result\<close>, a future that still has to be awaited (an \<open>async\<close> block or
  that of \<open>actix_send_blocking\<close>) or a closure, with the variables it captured.
\<close>

datatype ('v, 'b) val =
  VUser 'v
| VEnum ident ident "('v, 'b) val"
| VOk "('v, 'b) val"
| VErr actix_send_error
| VFuture "'b block" "(ident \<times> ('v, 'b) val) list"
| VBlocking "'b block" "(ident \<times> ('v, 'b) val) list"
| VClosure "'b block" "(ident \<times> ('v, 'b) val) list"

type_synonym ('v, 'b) env = "(ident \<times> ('v, 'b) val) list"

text \<open>
  The user's blocks are parameters: what an asynchronous one computes from its variables and \<open>self\<close>,
  what a blocking one computes, and what the runtime's \<open>spawn_blocking\<close> makes of that.
\<close>

record ('v, 'b, 's) user_code =
  run_async :: "'b \<Rightarrow> ('v, 'b) env \<Rightarrow> 's \<Rightarrow> 'v \<times> 's"
  run_blocking :: "'b \<Rightarrow> ('v, 'b) env \<Rightarrow> 'v"
  spawn_blocking :: "'v \<Rightarrow> 'v send_result"

text \<open>
  A path in an expression is a variable; \<open>Ok(x)\<close>, which the macro builds as a path with parenthesized
  arguments, prints as that call.
\<close>

fun eval_path :: "path \<Rightarrow> ('v, 'b) env \<Rightarrow> ('v, 'b) val option" where
  "eval_path (Path False [Segment i NoArgs]) env = map_of env i"
| "eval_path (Path False [Segment f (ParenArgs [TyPath p])]) env =
     (if f = ''Ok'' then map_option VOk (Option.bind (get_ident p) (map_of env)) else None)"
| "eval_path _ env = None"

fun variant_path :: "path \<Rightarrow> (ident \<times> ident) option" where
  "variant_path (Path False [Segment e NoArgs, Segment i NoArgs]) = Some (e, i)"
| "variant_path _ = None"

fun match_pat :: "pat \<Rightarrow> ('v, 'b) val \<Rightarrow> ('v, 'b) env option" where
  "match_pat (PIdent _ i) v = Some [(i, v)]"
| "match_pat PWild v = Some []"
| "match_pat (PTupleStruct p [q]) (VEnum e i v) =
     (if variant_path p = Some (e, i) then match_pat q v else None)"
| "match_pat _ _ = None"

definition await_val ::
  "('v, 'b, 's) user_code \<Rightarrow> ('v, 'b) val \<Rightarrow> 's \<Rightarrow> (('v, 'b) val \<times> 's) option" where
  "await_val U v s =
     (case v of
        VFuture (UserBlock b) env \<Rightarrow> (let (r, s') = run_async U b env s in Some (VUser r, s'))
      | VBlocking (UserBlock b) env \<Rightarrow>
          Some (case spawn_blocking U (run_blocking U b env) of
                  Inr r \<Rightarrow> VOk (VUser r) | Inl e \<Rightarrow> VErr e, s)
      | _ \<Rightarrow> None)"

text \<open>
  Calling a path with one argument: a variant's constructor, or \<open>actix_send_blocking\<close> of a closure.
\<close>

definition apply_path :: "path \<Rightarrow> ('v, 'b) val list \<Rightarrow> ('v, 'b) val option" where
  "apply_path p vs =
     (case vs of
        [v] \<Rightarrow>
          (case variant_path p of
             Some (e, i) \<Rightarrow> Some (VEnum e i v)
           | None \<Rightarrow>
               (case v of
                  VClosure b env \<Rightarrow>
                    if get_ident p = Some ''actix_send_blocking'' then Some (VBlocking b env) else None
                | _ \<Rightarrow> None))
      | _ \<Rightarrow> None)"

fun callee :: "'b expr \<Rightarrow> path option" where
  "callee (EPath p) = Some p"
| "callee _ = None"

text \<open>\<open>None\<close> is a panic, or code outside the fragment.\<close>

function eval ::
  "('v, 'b, 's) user_code \<Rightarrow> 'b expr \<Rightarrow> ('v, 'b) env \<Rightarrow> 's \<Rightarrow> (('v, 'b) val \<times> 's) option"
and eval_args ::
  "('v, 'b, 's) user_code \<Rightarrow> 'b expr list \<Rightarrow> ('v, 'b) env \<Rightarrow> 's \<Rightarrow> (('v, 'b) val list \<times> 's) option"
and eval_stmts ::
  "('v, 'b, 's) user_code \<Rightarrow> 'b stmt list \<Rightarrow> ('v, 'b) env \<Rightarrow> 's \<Rightarrow> (('v, 'b) val \<times> 's) option"
and eval_arms ::
  "('v, 'b, 's) user_code \<Rightarrow> (pat \<times> 'b expr) list \<Rightarrow> ('v, 'b) val \<Rightarrow> ('v, 'b) env \<Rightarrow> 's
     \<Rightarrow> (('v, 'b) val \<times> 's) option" where
  "eval U (EPath p) env s = map_option (\<lambda>v. (v, s)) (eval_path p env)"
| "eval U (ECall f es) env s =
     Option.bind (callee f) (\<lambda>p. Option.bind (eval_args U es env s)
       (\<lambda>(vs, s1). map_option (\<lambda>v. (v, s1)) (apply_path p vs)))"
| "eval U (EAsync b) env s = Some (VFuture b env, s)"
| "eval U (EClosure b) env s = Some (VClosure b env, s)"
| "eval U (EAwait e) env s = Option.bind (eval U e env s) (\<lambda>(f, s1). await_val U f s1)"
| "eval U (EMatch e arms) env s = Option.bind (eval U e env s) (\<lambda>(v, s1). eval_arms U arms v env s1)"
| "eval U (EMacro p) env s = None"
| "eval U (EBlock ss) env s = eval_stmts U ss env s"
| "eval_args U [] env s = Some ([], s)"
| "eval_args U (e # es) env s =
     Option.bind (eval U e env s)
       (\<lambda>(v, s1). map_option (\<lambda>(vs, s2). (v # vs, s2)) (eval_args U es env s1))"
| "eval_stmts U [] env s = None"
| "eval_stmts U (SExpr e # ss) env s = (if ss = [] then eval U e env s else None)"
| "eval_stmts U (SLet i e # ss) env s =
     Option.bind (eval U e env s) (\<lambda>(v, s1). eval_stmts U ss ((i, v) # env) s1)"
| "eval_arms U [] v env s = None"
| "eval_arms U ((p, e) # arms) v env s =
     (case match_pat p v of
        Some binds \<Rightarrow> eval U e (binds @ env) s
      | None \<Rightarrow> eval_arms U arms v env s)"
  by pat_completeness auto
termination
  by (relation "measure (case_sum
      (case_sum (\<lambda>(U, e, env, s). size e) (\<lambda>(U, es, env, s). size_list size es))
      (case_sum (\<lambda>(U, ss, env, s). size_list size ss)
                (\<lambda>(U, arms, v, env, s). size_list (size_prod (\<lambda>_. 0) size) arms)))")
    auto

subsection \<open>Calling the generated methods\<close>

definition the_impl :: "path \<Rightarrow> ty \<Rightarrow> 'b item \<Rightarrow> 'b item_impl option" where
  "the_impl tr self it =
     (case it of
        ImplItem i \<Rightarrow> if impl_trait i = Some tr \<and> impl_self i = self then Some i else None
      | _ \<Rightarrow> None)"

fun the_method :: "ident \<Rightarrow> 'b impl_item \<Rightarrow> 'b stmt list option" where
  "the_method n (Method m) =
     (if m_ident m = n then (case m_block m of Stmts ss \<Rightarrow> Some ss | UserBlock _ \<Rightarrow> None) else None)"
| "the_method n _ = None"

definition call ::
  "('v, 'b, 's) user_code \<Rightarrow> 'b item list \<Rightarrow> path \<Rightarrow> ty \<Rightarrow> ident \<Rightarrow> ('v, 'b) val \<Rightarrow> 's
     \<Rightarrow> (('v, 'b) val \<times> 's) option" where
  "call U items tr self n arg s =
     Option.bind (find_map (the_impl tr self) items)
       (\<lambda>imp. Option.bind (find_map (the_method n) (impl_items imp))
         (\<lambda>body. eval_stmts U body [(''msg'', arg)] s))"

text \<open>\<open>M::into()\<close>, the actor's \<open>handle\<close>, and \<open>M::map()\<close>, by the traits they belong to.\<close>

definition call_from where
  "call_from U items menum tp v s =
     call U items (Path False [Segment ''From'' (AngleArgs [TyPath tp])])
       (TyPath (type_path_from_idents [menum])) ''from'' v s"

definition call_handle where
  "call_handle U items actor v s =
     call U items (path_from_ident_str [''Handler'']) (TyPath (type_path_from_idents [actor]))
       ''handle'' v s"

definition call_map where
  "call_map U items renum tp v s =
     call U items
       (Path False [Segment ''MapResult'' (AngleArgs [TyPath (type_path_from_idents [renum])])])
       (TyPath tp) ''map'' v s"

subsection \<open>The shape of an expansion\<close>

abbreviation mident :: "'b handle_info \<Rightarrow> ident" where
  "mident h \<equiv> the (get_ident (message_type_path h))"

lemma enum_variants_shape:
  "\<forall>h \<in> set hs. get_ident (message_type_path h) \<noteq> None \<Longrightarrow>
     enum_variants hs a =
       Some (a\<lparr>message_enum := (message_enum a)
                \<lparr>variants := variants (message_enum a)
                   @ map (\<lambda>h. (mident h, TyPath (message_type_path h))) hs\<rparr>,
              result_enum := (result_enum a)
                \<lparr>variants := variants (result_enum a)
                   @ map (\<lambda>h. (mident h, result_variant_type h)) hs\<rparr>\<rparr>)"
  by (induction hs arbitrary: a) auto

lemma from_trait_shape:
  "\<forall>h \<in> set hs. get_ident (message_type_path h) \<noteq> None \<Longrightarrow>
     from_trait hs a = Some (a\<lparr>gen_items := gen_items a
       @ map (\<lambda>h. from_impl (message_enum_ident a) (message_enum_type a) (message_type_path h) (mident h)) hs\<rparr>)"
  by (induction hs arbitrary: a) auto

lemma map_result_trait_shape:
  "\<forall>h \<in> set hs. get_ident (message_type_path h) \<noteq> None \<Longrightarrow>
     map_result_trait hs a = Some (a\<lparr>gen_items := gen_items a
       @ map (\<lambda>h. map_result_impl (result_enum_ident a) h (mident h)) hs\<rparr>)"
  by (induction hs arbitrary: a) auto

lemma handle_arms_shape:
  "\<forall>h \<in> set hs. get_ident (message_type_path h) \<noteq> None \<Longrightarrow>
     handle_arms menum renum hs = Some (map (\<lambda>h. handle_arm menum renum h (mident h)) hs)"
  by (induction hs) auto

lemma enum_variants_None:
  "enum_variants hs a = None \<longleftrightarrow> (\<exists>h \<in> set hs. get_ident (message_type_path h) = None)"
  by (induction hs arbitrary: a) (auto split: option.splits)

definition info_of :: "'b item_impl \<Rightarrow> 'b handle_info list option" where
  "info_of imp = map_all handle_info_new (fst (split_hooks (impl_items imp) None None))"

lemma handler_v2_shape:
  assumes "self_ident (impl_self imp) = Some actor" "info_of imp = Some hs"
    and "\<forall>h \<in> set hs. get_ident (message_type_path h) \<noteq> None"
  shows "\<exists>hooks. impl_trait hooks = None \<and>
    handler_v2 args imp = Some (
      [ImplItem hooks,
       EnumItem \<lparr>enum_attrs = [], enum_ident = actor @ ''Message'',
         variants = map (\<lambda>h. (mident h, TyPath (message_type_path h))) hs\<rparr>,
       EnumItem \<lparr>enum_attrs = [], enum_ident = actor @ ''Result'',
         variants = map (\<lambda>h. (mident h, result_variant_type h)) hs\<rparr>] @
      map (\<lambda>h. from_impl (actor @ ''Message'') (TyPath (type_path_from_idents [actor @ ''Message'']))
                 (message_type_path h) (mident h)) hs @
      map (\<lambda>h. map_result_impl (actor @ ''Result'') h (mident h)) hs @
      [handler_impl (actor_info_new actor)
         (map (\<lambda>h. handle_arm (actor @ ''Message'') (actor @ ''Result'') h (mident h)) hs)
         (macro_flag ''no_send'' args)])"
proof -
  obtain ms s1 s2 where hooks: "split_hooks (impl_items imp) None None = (ms, s1, s2)"
    by (metis prod_cases3)
  with assms(2) have info: "map_all handle_info_new ms = Some hs" by (simp add: info_of_def)
  show ?thesis
    by (simp add: handler_v2_def assms(1) hooks info enum_variants_shape [OF assms(3)]
        from_trait_shape [OF assms(3)] map_result_trait_shape [OF assms(3)] handler_trait_def
        handle_arms_shape [OF assms(3)] actor_info_new_def Let_def handler_impl_def del: not_None_eq)
qed

subsection \<open>The expansion runs the user's method\<close>

lemma find_map_append:
  "find_map f (xs @ ys) = (case find_map f xs of None \<Rightarrow> find_map f ys | Some y \<Rightarrow> Some y)"
  by (induction xs) (auto split: option.splits)

lemma find_map_None: "find_map f xs = None \<longleftrightarrow> (\<forall>x \<in> set xs. f x = None)"
  by (induction xs) (auto split: option.splits)

text \<open>The one entry of a list for which the search succeeds.\<close>

lemma find_map_unique:
  assumes "x \<in> set xs" "f x = Some y" "\<forall>x' \<in> set xs. x' \<noteq> x \<longrightarrow> f x' = None"
  shows "find_map f xs = Some y"
  using assms by (induction xs) (auto split: option.splits)

lemma find_map_map: "find_map f (map g xs) = find_map (f \<circ> g) xs"
  by (induction xs) (auto split: option.splits)

lemma get_ident_SomeD: "get_ident p = Some i \<Longrightarrow> p = Path False [Segment i NoArgs]"
  by (cases p rule: get_ident.cases) auto

lemma mident_inj:
  "get_ident p = Some i \<Longrightarrow> get_ident q = Some j \<Longrightarrow> (p = q) = (i = j)"
  by (auto dest!: get_ident_SomeD)

text \<open>The matching of a message against the arms of the generated \<open>handle\<close>.\<close>

lemma eval_handle_arms:
  assumes "h \<in> set hs" "distinct (map mident hs)"
  shows "eval_arms U (map (\<lambda>h. handle_arm menum renum h (mident h)) hs) (VEnum menum (mident h) v) env s
       = eval U (snd (handle_arm menum renum h (mident h))) ((message_var_ident h, v) # env) s"
  using assms
  by (induction hs) (auto simp: handle_arm_def split: option.splits)

lemma eval_async_arm:
  assumes "is_async h" "method_block h = UserBlock b"
  shows "eval U (snd (handle_arm menum renum h i)) env s =
     Some (VEnum renum i (VUser (fst (run_async U b env s))), snd (run_async U b env s))"
  using assms
  by (simp add: handle_arm_def apply_path_def path_from_ident_str_def await_val_def split_def Let_def)

lemma eval_blocking_arm:
  assumes "\<not> is_async h" "method_block h = UserBlock b"
  shows "eval U (snd (handle_arm menum renum h i)) env s =
     Some (VEnum renum i (case spawn_blocking U (run_blocking U b env) of
             Inr r \<Rightarrow> VOk (VUser r) | Inl e \<Rightarrow> VErr e), s)"
  using assms
  by (simp add: handle_arm_def apply_path_def path_from_ident_str_def await_val_def)

lemma eval_map_arms:
  "eval_arms U (map_arms renum i async) (VEnum renum i v) env s = Some (if async then VOk v else v, s)"
  by (simp add: map_arms_def type_path_from_idents_def)

text \<open>
  An expansion of an \<open>impl\<close> block whose methods handle distinct messages, each named by an identifier.
\<close>

definition expands ::
  "path option list \<Rightarrow> 'b item_impl \<Rightarrow> ident \<Rightarrow> 'b handle_info list \<Rightarrow> 'b item list \<Rightarrow> bool" where
  "expands args imp actor hs items \<longleftrightarrow>
     self_ident (impl_self imp) = Some actor \<and> info_of imp = Some hs \<and>
     (\<forall>h \<in> set hs. get_ident (message_type_path h) \<noteq> None) \<and> distinct (map mident hs) \<and>
     handler_v2 args imp = Some items"

lemma same_message:
  "expands args imp actor hs items \<Longrightarrow> h \<in> set hs \<Longrightarrow> h' \<in> set hs
     \<Longrightarrow> message_type_path h' = message_type_path h \<Longrightarrow> h' = h"
  by (auto simp: expands_def distinct_map inj_on_def)

lemma items_shape:
  assumes "expands args imp actor hs items"
  shows "\<exists>hooks. impl_trait hooks = None \<and> items =
     [ImplItem hooks,
      EnumItem \<lparr>enum_attrs = [], enum_ident = actor @ ''Message'',
        variants = map (\<lambda>h. (mident h, TyPath (message_type_path h))) hs\<rparr>,
      EnumItem \<lparr>enum_attrs = [], enum_ident = actor @ ''Result'',
        variants = map (\<lambda>h. (mident h, result_variant_type h)) hs\<rparr>] @
     map (\<lambda>h. from_impl (actor @ ''Message'') (TyPath (type_path_from_idents [actor @ ''Message'']))
                (message_type_path h) (mident h)) hs @
     map (\<lambda>h. map_result_impl (actor @ ''Result'') h (mident h)) hs @
     [handler_impl (actor_info_new actor)
        (map (\<lambda>h. handle_arm (actor @ ''Message'') (actor @ ''Result'') h (mident h)) hs)
        (macro_flag ''no_send'' args)]"
  using handler_v2_shape [of imp actor hs args] assms unfolding expands_def by force

lemma call_from_eq:
  fixes items :: "'b item list"
  assumes ex: "expands args imp actor hs items" and "h \<in> set hs"
  shows "call_from U items (actor @ ''Message'') (message_type_path h) v s =
     Some (VEnum (actor @ ''Message'') (mident h) v, s)"
proof -
  let ?tr = "Path False [Segment ''From'' (AngleArgs [TyPath (message_type_path h)])]"
  let ?self = "TyPath (type_path_from_idents [actor @ ''Message''])"
  let ?f = "\<lambda>h. from_impl (actor @ ''Message'') ?self (message_type_path h) (mident h) :: 'b item"
  obtain hooks where hooks: "impl_trait hooks = None" and items: "items =
     [ImplItem hooks,
      EnumItem \<lparr>enum_attrs = [], enum_ident = actor @ ''Message'',
        variants = map (\<lambda>h. (mident h, TyPath (message_type_path h))) hs\<rparr>,
      EnumItem \<lparr>enum_attrs = [], enum_ident = actor @ ''Result'',
        variants = map (\<lambda>h. (mident h, result_variant_type h)) hs\<rparr>] @
     map ?f hs @ map (\<lambda>h. map_result_impl (actor @ ''Result'') h (mident h)) hs @
     [handler_impl (actor_info_new actor)
        (map (\<lambda>h. handle_arm (actor @ ''Message'') (actor @ ''Result'') h (mident h)) hs)
        (macro_flag ''no_send'' args)]"
    using items_shape [OF ex] by blast
  obtain i where i: "the_impl ?tr ?self (?f h) = Some i"
    and body: "find_map (the_method ''from'') (impl_items i) =
      Some [SExpr (ECall (EPath (Path False [Segment (actor @ ''Message'') NoArgs, Segment (mident h) NoArgs]))
                         [EPath (path_from_ident_str [''msg''])])]"
    by (auto simp: the_impl_def from_impl_def plain_method_def)
  have "find_map (the_impl ?tr ?self \<circ> ?f) hs = Some i"
    using assms(2) i same_message [OF ex assms(2)]
    by (intro find_map_unique [of h]) (auto simp: the_impl_def from_impl_def)
  then have "find_map (the_impl ?tr ?self) items = Some i"
    by (simp add: items find_map_append find_map_map the_impl_def hooks)
  then show ?thesis
    by (simp add: call_from_def call_def body apply_path_def path_from_ident_str_def)
qed

lemma call_map_eq:
  fixes items :: "'b item list"
  assumes ex: "expands args imp actor hs items" and "h \<in> set hs"
  shows "call_map U items (actor @ ''Result'') (message_type_path h) (VEnum (actor @ ''Result'') (mident h) v) s =
     Some (if is_async h then VOk v else v, s)"
proof -
  let ?tr = "Path False [Segment ''MapResult''
     (AngleArgs [TyPath (type_path_from_idents [actor @ ''Result''])])]"
  let ?self = "TyPath (message_type_path h)"
  let ?g = "\<lambda>h. map_result_impl (actor @ ''Result'') h (mident h) :: 'b item"
  obtain hooks fs h' where hooks: "impl_trait hooks = None" and items: "items =
     ImplItem hooks # fs @ map ?g hs @ [h']"
    and fs: "\<forall>it \<in> set fs. the_impl ?tr ?self it = None"
    using items_shape [OF ex] by (fastforce simp: the_impl_def from_impl_def)
  obtain i where i: "the_impl ?tr ?self (?g h) = Some i"
    and body: "find_map (the_method ''map'') (impl_items i) =
      Some [SExpr (EMatch (EPath (path_from_ident_str [''msg'']))
                          (map_arms (actor @ ''Result'') (mident h) (is_async h)))]"
    by (auto simp: the_impl_def map_result_impl_def plain_method_def Let_def)
  have "find_map (the_impl ?tr ?self \<circ> ?g) hs = Some i"
    using assms(2) i same_message [OF ex assms(2)]
    by (intro find_map_unique [of h]) (auto simp: the_impl_def map_result_impl_def Let_def)
  moreover have "find_map (the_impl ?tr ?self) fs = None" using fs by (simp add: find_map_None)
  ultimately have "find_map (the_impl ?tr ?self) items = Some i"
    by (simp add: items find_map_append find_map_map the_impl_def [of _ _ "ImplItem hooks"] hooks)
  then show ?thesis
    by (simp add: call_map_def call_def body path_from_ident_str_def eval_map_arms)
qed

lemma call_handle_eq:
  assumes ex: "expands args imp actor hs items" and "h \<in> set hs"
  shows "call_handle U items actor (VEnum (actor @ ''Message'') (mident h) v) s =
     eval U (snd (handle_arm (actor @ ''Message'') (actor @ ''Result'') h (mident h)))
       [(message_var_ident h, v), (''msg'', VEnum (actor @ ''Message'') (mident h) v)] s"
proof -
  let ?tr = "path_from_ident_str [''Handler'']" and ?self = "TyPath (type_path_from_idents [actor])"
  let ?arms = "map (\<lambda>h. handle_arm (actor @ ''Message'') (actor @ ''Result'') h (mident h)) hs"
  let ?h = "handler_impl (actor_info_new actor) ?arms (macro_flag ''no_send'' args)"
  obtain its where items: "items = its @ [?h]" and its: "\<forall>it \<in> set its. the_impl ?tr ?self it = None"
    using items_shape [OF ex]
    by (fastforce simp: the_impl_def from_impl_def map_result_impl_def Let_def path_from_ident_str_def)
  obtain i where i: "the_impl ?tr ?self ?h = Some i"
    and body: "find_map (the_method ''handle'') (impl_items i) =
      Some [SExpr (EMatch (EPath (path_from_ident_str [''msg''])) ?arms)]"
    by (auto simp: the_impl_def handler_impl_def actor_info_new_def Let_def)
  from its i have "find_map (the_impl ?tr ?self) items = Some i"
    by (simp add: items find_map_append find_map_None [THEN iffD2])
  moreover have "distinct (map mident hs)" using ex by (simp add: expands_def)
  ultimately show ?thesis
    by (simp add: call_handle_def call_def body path_from_ident_str_def eval_handle_arms [OF assms(2)])
qed

text \<open>
  The macro is correct for every asynchronous handler method of an actor: converting a message into
  the generated enum, handing it to the generated \<open>handle\<close> and mapping the result back runs exactly
  that method's body on the message and the actor, once, and gives \<open>Ok\<close> of its result; the
  \<open>unreachable!()\<close> arm is not reached.
\<close>

theorem macro_runs_async_method:
  assumes "expands args imp actor hs items" and "h \<in> set hs"
    and "is_async h" and "method_block h = UserBlock b"
    and "run_async U b [(message_var_ident h, v), (''msg'', VEnum (actor @ ''Message'') (mident h) v)] s
           = (r, s')"
  shows "\<exists>m res. call_from U items (actor @ ''Message'') (message_type_path h) v s = Some (m, s)
     \<and> call_handle U items actor m s = Some (res, s')
     \<and> call_map U items (actor @ ''Result'') (message_type_path h) res s' = Some (VOk (VUser r), s')"
  by (simp add: call_from_eq [OF assms(1,2)] call_handle_eq [OF assms(1,2)] call_map_eq [OF assms(1,2)]
      eval_async_arm [OF assms(3,4)] assms(3,5))

text \<open>
  For a method that is not \<open>async\<close> the body runs through \<open>actix_send_blocking\<close>, without the actor,
  and the caller gets what the runtime makes of it: \<open>Ok\<close> of the result or the runtime's error, not
  wrapped twice.
\<close>

theorem macro_runs_blocking_method:
  assumes "expands args imp actor hs items" and "h \<in> set hs"
    and "\<not> is_async h" and "method_block h = UserBlock b"
  shows "\<exists>m res. call_from U items (actor @ ''Message'') (message_type_path h) v s = Some (m, s)
     \<and> call_handle U items actor m s = Some (res, s)
     \<and> call_map U items (actor @ ''Result'') (message_type_path h) res s =
         Some (case spawn_blocking U (run_blocking U b [(message_var_ident h, v), (''msg'', m)]) of
                 Inr r \<Rightarrow> VOk (VUser r) | Inl e \<Rightarrow> VErr e, s)"
  by (simp add: call_from_eq [OF assms(1,2)] call_handle_eq [OF assms(1,2)] call_map_eq [OF assms(1,2)]
      eval_blocking_arm [OF assms(3,4)] assms(3))

subsection \<open>When the macro panics\<close>

lemma map_all_None: "map_all f xs = None \<longleftrightarrow> (\<exists>x \<in> set xs. f x = None)"
  by (induction xs) (auto split: option.splits)

lemma map_all_Some: "map_all f xs = Some ys \<Longrightarrow> set ys = {y. \<exists>x \<in> set xs. f x = Some y}"
  by (induction xs arbitrary: ys) (auto split: option.splits)

text \<open>
  \<open>handler_v2\<close> panics exactly when the implementing type is not a plain identifier, or some method
  that is not a hook has no argument with a path type, or its first such type is not a plain
  identifier.
\<close>

theorem handler_v2_panics_iff:
  "handler_v2 args imp = None \<longleftrightarrow>
     self_ident (impl_self imp) = None \<or>
     (\<exists>m \<in> set (fst (split_hooks (impl_items imp) None None)).
        case find_map message_arg (m_inputs m) of
          None \<Rightarrow> True
        | Some (var, path) \<Rightarrow> get_ident path = None)"
proof (cases "self_ident (impl_self imp)")
  case (Some actor)
  obtain ms s1 s2 where hooks: "split_hooks (impl_items imp) None None = (ms, s1, s2)"
    by (metis prod_cases3)
  show ?thesis
  proof (cases "info_of imp")
    case None
    with hooks have "\<exists>m \<in> set ms. find_map message_arg (m_inputs m) = None"
      by (auto simp: info_of_def map_all_None handle_info_new_def)
    with None Some hooks show ?thesis
      by (fastforce simp: handler_v2_def info_of_def Let_def)
  next
    case info: (Some hs)
    with hooks have hs: "set hs = {h. \<exists>m \<in> set ms. handle_info_new m = Some h}"
      and found: "\<forall>m \<in> set ms. \<exists>x. find_map message_arg (m_inputs m) = Some x"
      using map_all_None [of handle_info_new ms]
      by (auto simp: info_of_def map_all_Some handle_info_new_def)
    have same: "(\<exists>h. handle_info_new m = Some h \<and> get_ident (message_type_path h) = None) \<longleftrightarrow>
        (case find_map message_arg (m_inputs m) of None \<Rightarrow> True
           | Some (var, path) \<Rightarrow> get_ident path = None)" if "m \<in> set ms" for m
      using that found by (auto simp: handle_info_new_def)
    have "(\<exists>h \<in> set hs. get_ident (message_type_path h) = None) \<longleftrightarrow>
        (\<exists>m \<in> set ms. \<exists>h. handle_info_new m = Some h \<and> get_ident (message_type_path h) = None)"
      by (auto simp: hs)
    also have "\<dots> \<longleftrightarrow> (\<exists>m \<in> set ms. case find_map message_arg (m_inputs m) of None \<Rightarrow> True
           | Some (var, path) \<Rightarrow> get_ident path = None)"
      by (intro bex_cong refl same)
    finally have "(\<exists>h \<in> set hs. get_ident (message_type_path h) = None) \<longleftrightarrow>
        (\<exists>m \<in> set ms. case find_map message_arg (m_inputs m) of None \<Rightarrow> True
           | Some (var, path) \<Rightarrow> get_ident path = None)" .
    moreover have "handler_v2 args imp = None \<longleftrightarrow> (\<exists>h \<in> set hs. get_ident (message_type_path h) = None)"
    proof (cases "\<exists>h \<in> set hs. get_ident (message_type_path h) = None")
      case True
      then have "enum_variants hs (actor_info_new actor) = None" by (simp add: enum_variants_None)
      with True Some hooks info show ?thesis by (simp add: handler_v2_def info_of_def Let_def)
    next
      case False
      then show ?thesis using handler_v2_shape [OF Some info, of args] by auto
    qed
    ultimately show ?thesis using Some hooks by simp
  qed
qed (simp add: handler_v2_def)

text \<open>The same block with \<open>mut\<close> taken off every argument.\<close>

fun drop_mut_arg :: "fn_arg \<Rightarrow> fn_arg" where
  "drop_mut_arg (Typed (PIdent _ i) t) = Typed (PIdent False i) t"
| "drop_mut_arg a = a"

fun drop_mut_item :: "'b impl_item \<Rightarrow> 'b impl_item" where
  "drop_mut_item (Method m) = Method (m\<lparr>m_inputs := map drop_mut_arg (m_inputs m)\<rparr>)"
| "drop_mut_item it = it"

lemma message_arg_drop_mut: "message_arg (drop_mut_arg a) = message_arg a"
proof (cases a)
  case (Typed p t)
  then show ?thesis by (cases p; cases t) simp_all
qed simp

lemma handle_info_drop_mut:
  "handle_info_new (m\<lparr>m_inputs := map drop_mut_arg (m_inputs m)\<rparr>) = handle_info_new m"
proof -
  have "message_arg \<circ> drop_mut_arg = message_arg" by (simp add: fun_eq_iff message_arg_drop_mut)
  then show ?thesis by (simp add: handle_info_new_def find_map_map)
qed

text \<open>What survives of a hook: its attributes and its block.\<close>

definition same_hook :: "'b impl_method option \<Rightarrow> 'b impl_method option \<Rightarrow> bool" where
  "same_hook a b \<longleftrightarrow> map_option (\<lambda>m. (m_attrs m, m_block m)) a = map_option (\<lambda>m. (m_attrs m, m_block m)) b"

lemma same_hook_method: "same_hook a b \<Longrightarrow> hook_method marker name a = hook_method marker name b"
  by (cases a; cases b) (auto simp: same_hook_def hook_method_def Let_def)

lemma split_hooks_drop_mut:
  assumes "same_hook s1' s1" "same_hook s2' s2"
  shows "case (split_hooks (map drop_mut_item items) s1' s2', split_hooks items s1 s2) of
    ((ms', t1', t2'), (ms, t1, t2)) \<Rightarrow>
      ms' = map (\<lambda>m. m\<lparr>m_inputs := map drop_mut_arg (m_inputs m)\<rparr>) ms \<and> same_hook t1' t1 \<and> same_hook t2' t2"
  using assms
proof (induction items arbitrary: s1 s2 s1' s2')
  case (Cons it items)
  show ?case
  proof (cases it)
    case (Method m)
    let ?m = "m\<lparr>m_inputs := map drop_mut_arg (m_inputs m)\<rparr>"
    have "same_hook (Some ?m) (Some m)" by (simp add: same_hook_def)
    with Cons.IH [of "Some ?m" "Some m" s2' s2] Cons.IH [of s1' s1 "Some ?m" "Some m"]
      Cons.IH [of s1' s1 s2' s2] Cons.prems Method
    show ?thesis by (auto simp: has_attr_def split: prod.splits)
  qed (use Cons in auto)
qed simp

lemma map_all_map: "map_all f (map g xs) = map_all (f \<circ> g) xs"
  by (induction xs) (auto split: option.splits)

text \<open>
  \<open>handler_v2\<close> loses \<open>mut\<close>: the expansion is the same with and without it, and in it every message
  is bound immutably, so a method that takes \<open>mut msg: M\<close> and changes \<open>msg\<close> does not compile.
\<close>

theorem mut_is_lost:
  "handler_v2 args (imp\<lparr>impl_items := map drop_mut_item (impl_items imp)\<rparr>) = handler_v2 args imp
   \<and> fst (handle_arm menum renum h i) =
       PTupleStruct (Path False [Segment menum NoArgs, Segment i NoArgs])
         [PIdent False (message_var_ident h)]"
proof
  obtain ms s1 s2 where hooks: "split_hooks (impl_items imp) None None = (ms, s1, s2)"
    by (metis prod_cases3)
  obtain ms' s1' s2' where hooks':
      "split_hooks (map drop_mut_item (impl_items imp)) None None = (ms', s1', s2')"
    by (metis prod_cases3)
  have "same_hook None None" by (simp add: same_hook_def)
  from split_hooks_drop_mut [OF this this, of "impl_items imp"] hooks hooks'
  have ms': "ms' = map (\<lambda>m. m\<lparr>m_inputs := map drop_mut_arg (m_inputs m)\<rparr>) ms"
    and same: "same_hook s1' s1" "same_hook s2' s2" by auto
  have "map_all handle_info_new ms' = map_all handle_info_new ms"
    by (simp add: ms' map_all_map o_def handle_info_drop_mut)
  then show "handler_v2 args (imp\<lparr>impl_items := map drop_mut_item (impl_items imp)\<rparr>) = handler_v2 args imp"
    by (simp add: handler_v2_def hooks hooks' Let_def same_hook_method [OF same(1)]
        same_hook_method [OF same(2)])
qed (simp add: handle_arm_def)

subsection \<open>The theorems at work\<close>

text \<open>
  An actor with an asynchronous method for \<open>Add\<close>, which adds the message to the actor and answers with
  the sum, and a blocking one for \<open>Work\<close>, which doubles the message. A block is its number.
\<close>

definition demo_method :: "bool \<Rightarrow> ident \<Rightarrow> nat \<Rightarrow> nat impl_method" where
  "demo_method async msg b =
     \<lparr>m_attrs = [], m_pub = False, m_async = async, m_ident = ''run'',
      m_inputs = [Receiver, Typed (PIdent False ''m'') (TyPath (type_path_from_idents [msg]))],
      m_output = Some (TyOther ''u32''), m_block = UserBlock b\<rparr>"

definition demo_item_impl :: "nat item_impl" where
  "demo_item_impl =
     \<lparr>impl_attrs = [], impl_trait = None, impl_self = TyPath (type_path_from_idents [''Counter'']),
      impl_items = [Method (demo_method True ''Add'' 0), Method (demo_method False ''Work'' 1)]\<rparr>"

definition demo_info :: "bool \<Rightarrow> ident \<Rightarrow> nat \<Rightarrow> nat handle_info" where
  "demo_info async msg b =
     \<lparr>message_var_ident = ''m'', message_type_path = type_path_from_idents [msg],
      message_return_type = Some (TyOther ''u32''), method_block = UserBlock b, is_async = async\<rparr>"

definition demo_user :: "(nat, nat, nat) user_code" where
  "demo_user =
     \<lparr>run_async = (\<lambda>b env s. case map_of env ''m'' of Some (VUser n) \<Rightarrow> (s + n, s + n) | _ \<Rightarrow> (0, s)),
      run_blocking = (\<lambda>b env. case map_of env ''m'' of Some (VUser n) \<Rightarrow> 2 * n | _ \<Rightarrow> 0),
      spawn_blocking = Ok\<rparr>"

lemma demo_expands:
  "\<exists>items. expands [] demo_item_impl ''Counter'' [demo_info True ''Add'' 0, demo_info False ''Work'' 1] items"
proof -
  let ?hs = "[demo_info True ''Add'' 0, demo_info False ''Work'' 1]"
  have self: "self_ident (impl_self demo_item_impl) = Some ''Counter''" by (simp add: demo_item_impl_def)
  have info: "info_of demo_item_impl = Some ?hs"
    by (simp add: info_of_def demo_item_impl_def demo_method_def demo_info_def has_attr_def is_ident_def
        handle_info_new_def)
  have paths: "\<forall>h \<in> set ?hs. get_ident (message_type_path h) \<noteq> None" by (simp add: demo_info_def)
  from handler_v2_shape [OF self info paths, of "[]"] self info paths show ?thesis
    by (auto simp: expands_def demo_info_def)
qed

theorem macro_runs_async_method_witness:
  "\<exists>items m res. call_from demo_user items ''CounterMessage'' (type_path_from_idents [''Add'']) (VUser 5) 10
       = Some (m, 10)
     \<and> call_handle demo_user items ''Counter'' m 10 = Some (res, 15)
     \<and> call_map demo_user items ''CounterResult'' (type_path_from_idents [''Add'']) res 15
       = Some (VOk (VUser 15), 15)"
proof -
  let ?h = "demo_info True ''Add'' 0"
  obtain items where ex: "expands [] demo_item_impl ''Counter'' [?h, demo_info False ''Work'' 1] items"
    using demo_expands ..
  have "?h \<in> set [?h, demo_info False ''Work'' 1]" "is_async ?h" "method_block ?h = UserBlock 0"
    by (simp_all add: demo_info_def)
  moreover have "run_async demo_user 0 [(message_var_ident ?h, VUser 5),
      (''msg'', VEnum (''Counter'' @ ''Message'') (mident ?h) (VUser 5))] 10 = (15, 15)"
    by (simp add: demo_user_def demo_info_def)
  ultimately show ?thesis
    using macro_runs_async_method [OF ex, of ?h 0 demo_user "VUser 5" 10 15 15]
    by (auto simp: demo_info_def)
qed

theorem macro_runs_blocking_method_witness:
  "\<exists>items m res. call_from demo_user items ''CounterMessage'' (type_path_from_idents [''Work'']) (VUser 5) (10 :: nat)
       = Some (m, 10)
     \<and> call_handle demo_user items ''Counter'' m 10 = Some (res, 10)
     \<and> call_map demo_user items ''CounterResult'' (type_path_from_idents [''Work'']) res 10
       = Some (VOk (VUser 10), 10)"
proof -
  let ?h = "demo_info False ''Work'' 1"
  obtain items where ex: "expands [] demo_item_impl ''Counter'' [demo_info True ''Add'' 0, ?h] items"
    using demo_expands ..
  have "?h \<in> set [demo_info True ''Add'' 0, ?h]" "\<not> is_async ?h" "method_block ?h = UserBlock 1"
    by (simp_all add: demo_info_def)
  then show ?thesis
    using macro_runs_blocking_method [OF ex, of ?h 1 demo_user "VUser 5" 10]
    by (auto simp: demo_info_def demo_user_def)
qed

end
