(* ===== verification/Macro_Types.thy ===== *)
theory Macro_Types
  imports Macro_Meaning
begin

section \<open>The types of the generated code\<close>

text \<open>
  Rust's type checking for the fragment that the macros generate: the code must be accepted by the
  compiler, with the enums that stand in the same expansion. A type is one of the language, that of a
  future, or that of a closure without arguments. The types of the user's blocks are a parameter: a
  block and the variables in scope give its type.
\<close>

datatype vty = Ty ty | TFuture ty | TClosure ty

type_synonym tenv = "(ident \<times> vty) list"

subsection \<open>Enums and patterns\<close>

abbreviation enum_type :: "ident \<Rightarrow> ty" where
  "enum_type e \<equiv> TyPath (type_path_from_idents [e])"

fun enum_named :: "ident \<Rightarrow> 'b item \<Rightarrow> item_enum option" where
  "enum_named e (EnumItem m) = (if enum_ident m = e then Some m else None)"
| "enum_named e _ = None"

definition find_enum :: "'b item list \<Rightarrow> ident \<Rightarrow> item_enum option" where
  "find_enum items e = find_map (enum_named e) items"

definition variant_type :: "'b item list \<Rightarrow> ident \<Rightarrow> ident \<Rightarrow> ty option" where
  "variant_type items e i = Option.bind (find_enum items e) (\<lambda>m. map_of (variants m) i)"

fun pat_types :: "'b item list \<Rightarrow> pat \<Rightarrow> ty \<Rightarrow> tenv option" where
  "pat_types items (PIdent _ i) t = Some [(i, Ty t)]"
| "pat_types items PWild t = Some []"
| "pat_types items (PTupleStruct p [q]) t =
     (case variant_path p of
        Some (e, i) \<Rightarrow>
          (if t = enum_type e then Option.bind (variant_type items e i) (pat_types items q) else None)
      | None \<Rightarrow> None)"
| "pat_types items _ t = None"

text \<open>A match without \<open>_\<close> must have an arm for every variant; the arms here bind any content.\<close>

fun covers :: "pat \<Rightarrow> ident \<Rightarrow> ident \<Rightarrow> bool" where
  "covers PWild e i \<longleftrightarrow> True"
| "covers (PTupleStruct p [PIdent _ _]) e i \<longleftrightarrow> variant_path p = Some (e, i)"
| "covers _ e i \<longleftrightarrow> False"

fun exhaustive :: "'b item list \<Rightarrow> ty \<Rightarrow> pat list \<Rightarrow> bool" where
  "exhaustive items (TyPath (Path False [Segment e NoArgs])) ps \<longleftrightarrow>
     (case find_enum items e of
        Some m \<Rightarrow> (\<forall>(i, t) \<in> set (variants m). \<exists>p \<in> set ps. covers p e i)
      | None \<Rightarrow> False)"
| "exhaustive items _ ps \<longleftrightarrow> False"

subsection \<open>Expressions\<close>

fun path_type :: "path \<Rightarrow> tenv \<Rightarrow> vty option" where
  "path_type (Path False [Segment i NoArgs]) env = map_of env i"
| "path_type _ env = None"

text \<open>\<open>Ok(x)\<close> is a \<open>Result<T, E>\<close> for every \<open>E\<close>, so it is checked against a given type.\<close>

fun ok_path :: "path \<Rightarrow> ident option" where
  "ok_path (Path False [Segment f (ParenArgs [TyPath p])]) = (if f = ''Ok'' then get_ident p else None)"
| "ok_path _ = None"

fun ok_type :: "vty \<Rightarrow> ty option" where
  "ok_type (Ty (TyPath (Path False [Segment r (AngleArgs [t, e])]))) = (if r = ''Result'' then Some t else None)"
| "ok_type _ = None"

type_synonym 'b block_types = "'b \<Rightarrow> tenv \<Rightarrow> ty option"

fun block_type :: "'b block_types \<Rightarrow> 'b block \<Rightarrow> tenv \<Rightarrow> ty option" where
  "block_type B (UserBlock b) env = B b env"
| "block_type B (Stmts _) env = None"

definition blocking_future :: "vty \<Rightarrow> vty option" where
  "blocking_future t = (case t of TClosure r \<Rightarrow> Some (TFuture (with_send_error r)) | _ \<Rightarrow> None)"

definition awaited :: "vty \<Rightarrow> vty option" where
  "awaited t = (case t of TFuture r \<Rightarrow> Some (Ty r) | _ \<Rightarrow> None)"

text \<open>
  \<open>synth\<close> finds the type of an expression, \<open>check\<close> asks for a given one; \<open>unreachable!()\<close> has every
  type.
\<close>

function (sequential) synth :: "'b item list \<Rightarrow> 'b block_types \<Rightarrow> 'b expr \<Rightarrow> tenv \<Rightarrow> vty option"
and check :: "'b item list \<Rightarrow> 'b block_types \<Rightarrow> 'b expr \<Rightarrow> tenv \<Rightarrow> vty \<Rightarrow> bool"
and check_stmts :: "'b item list \<Rightarrow> 'b block_types \<Rightarrow> 'b stmt list \<Rightarrow> tenv \<Rightarrow> vty \<Rightarrow> bool"
and check_arms ::
  "'b item list \<Rightarrow> 'b block_types \<Rightarrow> (pat \<times> 'b expr) list \<Rightarrow> ty \<Rightarrow> tenv \<Rightarrow> vty \<Rightarrow> bool" where
  "synth D B (EPath p) env = path_type p env"
| "synth D B (EAsync b) env = map_option TFuture (block_type B b env)"
| "synth D B (EClosure b) env = map_option TClosure (block_type B b env)"
| "synth D B (EAwait e) env = Option.bind (synth D B e env) awaited"
| "synth D B (ECall (EPath p) [e]) env =
     (case variant_path p of
        Some (n, i) \<Rightarrow>
          (case variant_type D n i of
             Some t \<Rightarrow> if check D B e env (Ty t) then Some (Ty (enum_type n)) else None
           | None \<Rightarrow> None)
      | None \<Rightarrow>
          if get_ident p = Some ''actix_send_blocking'' then Option.bind (synth D B e env) blocking_future
          else None)"
| "synth D B _ env = None"
| "check D B (EPath p) env t \<longleftrightarrow>
     path_type p env = Some t \<or>
     (\<exists>i r. ok_path p = Some i \<and> ok_type t = Some r \<and> map_of env i = Some (Ty r))"
| "check D B (EMacro p) env t \<longleftrightarrow> get_ident p = Some ''unreachable''"
| "check D B (EMatch e arms) env t \<longleftrightarrow>
     (case synth D B e env of
        Some (Ty s) \<Rightarrow> exhaustive D s (map fst arms) \<and> check_arms D B arms s env t
      | _ \<Rightarrow> False)"
| "check D B (EBlock ss) env t \<longleftrightarrow> check_stmts D B ss env t"
| "check D B (EAsync b) env t \<longleftrightarrow> map_option TFuture (block_type B b env) = Some t"
| "check D B (EClosure b) env t \<longleftrightarrow> map_option TClosure (block_type B b env) = Some t"
| "check D B (EAwait e) env t \<longleftrightarrow> Option.bind (synth D B e env) awaited = Some t"
| "check D B (ECall (EPath p) [e]) env t \<longleftrightarrow>
     (case variant_path p of
        Some (n, i) \<Rightarrow>
          (case variant_type D n i of
             Some s \<Rightarrow> check D B e env (Ty s) \<and> t = Ty (enum_type n)
           | None \<Rightarrow> False)
      | None \<Rightarrow>
          get_ident p = Some ''actix_send_blocking'' \<and> Option.bind (synth D B e env) blocking_future = Some t)"
| "check D B (ECall f es) env t \<longleftrightarrow> False"
| "check_stmts D B [] env t \<longleftrightarrow> t = Ty (TyTuple [])"
| "check_stmts D B [SExpr e] env t \<longleftrightarrow> check D B e env t"
| "check_stmts D B (SExpr e # ss) env t \<longleftrightarrow> False"
| "check_stmts D B (SLet i e # ss) env t \<longleftrightarrow>
     (case synth D B e env of Some s \<Rightarrow> check_stmts D B ss ((i, s) # env) t | None \<Rightarrow> False)"
| "check_arms D B [] s env t \<longleftrightarrow> True"
| "check_arms D B ((p, e) # arms) s env t \<longleftrightarrow>
     (case pat_types D p s of Some binds \<Rightarrow> check D B e (binds @ env) t | None \<Rightarrow> False) \<and>
     check_arms D B arms s env t"
  by pat_completeness auto
termination
  by (relation "measure (case_sum
      (case_sum (\<lambda>(D, B, e, env). size e) (\<lambda>(D, B, e, env, t). size e))
      (case_sum (\<lambda>(D, B, ss, env, t). size_list size ss)
                (\<lambda>(D, B, arms, s, env, t). size_list (size_prod (\<lambda>_. 0) size) arms)))")
    auto

subsection \<open>Methods and items\<close>

text \<open>In a signature \<open>Self::Output\<close> stands for the implementation's associated type.\<close>

definition self_output :: ty where
  "self_output = TyPath (type_path_from_idents [''Self'', ''Output''])"

fun resolve :: "ty option \<Rightarrow> ty \<Rightarrow> ty" where
  "resolve out (TyPath (Path False [Segment r (AngleArgs [t, e])])) =
     TyPath (Path False [Segment r (AngleArgs [(case out of Some u \<Rightarrow> if t = self_output then u else t
                                                          | None \<Rightarrow> t), e])])"
| "resolve out t = t"

lemma resolve_enum [simp]: "resolve out (enum_type e) = enum_type e"
  by (simp add: type_path_from_idents_def)

fun assoc_output :: "'b impl_item \<Rightarrow> ty option" where
  "assoc_output (AssocType n t) = (if n = ''Output'' then Some t else None)"
| "assoc_output _ = None"

fun arg_env :: "fn_arg list \<Rightarrow> tenv" where
  "arg_env [] = []"
| "arg_env (Typed (PIdent _ i) t # args) = (i, Ty t) # arg_env args"
| "arg_env (_ # args) = arg_env args"

definition return_type :: "'b impl_method \<Rightarrow> ty" where
  "return_type m = (case m_output m of Some t \<Rightarrow> t | None \<Rightarrow> TyTuple [])"

text \<open>A generated body must have the type of its signature; a user's own body is the user's.\<close>

fun impl_item_types :: "'b item list \<Rightarrow> 'b block_types \<Rightarrow> ty option \<Rightarrow> 'b impl_item \<Rightarrow> bool" where
  "impl_item_types D B out (Method m) \<longleftrightarrow>
     (case m_block m of
        UserBlock _ \<Rightarrow> True
      | Stmts ss \<Rightarrow> check_stmts D B ss (arg_env (m_inputs m)) (Ty (resolve out (return_type m))))"
| "impl_item_types D B out _ \<longleftrightarrow> True"

fun item_types :: "'b item list \<Rightarrow> 'b block_types \<Rightarrow> 'b item \<Rightarrow> bool" where
  "item_types D B (ImplItem i) \<longleftrightarrow>
     (\<forall>it \<in> set (impl_items i). impl_item_types D B (find_map assoc_output (impl_items i)) it)"
| "item_types D B _ \<longleftrightarrow> True"

subsection \<open>The expansion type checks\<close>

lemma map_of_map_unique:
  "h \<in> set hs \<Longrightarrow> distinct (map f hs) \<Longrightarrow> map_of (map (\<lambda>h. (f h, g h)) hs) (f h) = Some (g h)"
  by (induction hs) (auto simp: image_iff)

lemma variant_types:
  assumes "expands args imp actor hs items" "h \<in> set hs"
  shows "variant_type items (actor @ ''Message'') (mident h) = Some (TyPath (message_type_path h))"
    and "variant_type items (actor @ ''Result'') (mident h) = Some (result_variant_type h)"
    and "find_enum items (actor @ ''Message'') =
      Some \<lparr>enum_attrs = [], enum_ident = actor @ ''Message'',
        variants = map (\<lambda>h. (mident h, TyPath (message_type_path h))) hs\<rparr>"
    and "find_enum items (actor @ ''Result'') =
      Some \<lparr>enum_attrs = [], enum_ident = actor @ ''Result'',
        variants = map (\<lambda>h. (mident h, result_variant_type h)) hs\<rparr>"
proof -
  have d: "distinct (map mident hs)" using assms(1) by (simp add: expands_def)
  obtain hooks rest where items: "items =
     [ImplItem hooks,
      EnumItem \<lparr>enum_attrs = [], enum_ident = actor @ ''Message'',
        variants = map (\<lambda>h. (mident h, TyPath (message_type_path h))) hs\<rparr>,
      EnumItem \<lparr>enum_attrs = [], enum_ident = actor @ ''Result'',
        variants = map (\<lambda>h. (mident h, result_variant_type h)) hs\<rparr>] @ rest"
    using items_shape [OF assms(1)] by blast
  then show "find_enum items (actor @ ''Message'') =
      Some \<lparr>enum_attrs = [], enum_ident = actor @ ''Message'',
        variants = map (\<lambda>h. (mident h, TyPath (message_type_path h))) hs\<rparr>"
    and "find_enum items (actor @ ''Result'') =
      Some \<lparr>enum_attrs = [], enum_ident = actor @ ''Result'',
        variants = map (\<lambda>h. (mident h, result_variant_type h)) hs\<rparr>"
    by (simp_all add: find_enum_def)
  then show "variant_type items (actor @ ''Message'') (mident h) = Some (TyPath (message_type_path h))"
    and "variant_type items (actor @ ''Result'') (mident h) = Some (result_variant_type h)"
    by (simp_all add: variant_type_def map_of_map_unique [OF assms(2) d])
qed

lemma named_path:
  "get_ident p \<noteq> None \<Longrightarrow> p = type_path_from_idents [the (get_ident p)]"
  by (auto dest!: get_ident_SomeD simp: type_path_from_idents_def)

lemma split_hooks_from:
  "split_hooks its s1 s2 = (ms, t1, t2) \<Longrightarrow>
     (\<forall>m. t1 = Some m \<longrightarrow> s1 = Some m \<or> Method m \<in> set its) \<and>
     (\<forall>m. t2 = Some m \<longrightarrow> s2 = Some m \<or> Method m \<in> set its)"
proof (induction its arbitrary: s1 s2 ms t1 t2)
  case (Cons it its)
  then show ?case
    by (cases it) (fastforce split: if_splits prod.splits)+
qed simp

text \<open>The hooks: empty, or the user's block.\<close>

lemma hooks_type:
  assumes "handler_v2 args imp = Some (it # rest)"
    and "\<forall>m. Method m \<in> set (impl_items imp) \<longrightarrow> (\<exists>b. m_block m = UserBlock b)"
  shows "item_types D B it"
proof -
  obtain ms s1 s2 where hooks: "split_hooks (impl_items imp) None None = (ms, s1, s2)"
    by (metis prod_cases3)
  have "impl_item_types D B None (Method (hook_method marker name s))" if "s = s1 \<or> s = s2" for marker name s
    using split_hooks_from [OF hooks] assms(2) that
    by (cases s) (auto simp: hook_method_def return_type_def Let_def)
  with assms(1) hooks show ?thesis
    by (auto simp: handler_v2_def bind_eq_Some_conv Let_def)
qed

lemma from_impl_types:
  assumes "expands args imp actor hs items" "h \<in> set hs"
  shows "item_types items B (from_impl (actor @ ''Message'') (enum_type (actor @ ''Message''))
           (message_type_path h) (mident h))"
  using variant_types(1) [OF assms]
  by (simp add: from_impl_def plain_method_def return_type_def path_from_ident_str_def type_path_from_idents_def)

lemma exhaustive_wild: "find_enum D e \<noteq> None \<Longrightarrow> PWild \<in> set ps \<Longrightarrow> exhaustive D (enum_type e) ps"
  by (force simp: type_path_from_idents_def)

lemma map_impl_types:
  assumes "expands args imp actor hs items" "h \<in> set hs"
  shows "item_types items B (map_result_impl (actor @ ''Result'') h (mident h))"
  using variant_types(2,4) [OF assms] exhaustive_wild [of items "actor @ ''Result''"]
  by (simp add: map_result_impl_def plain_method_def return_type_def with_send_error_def self_output_def
      path_from_ident_str_def map_arms_def result_variant_type_def type_path_from_idents_def Let_def)

lemma check_handle_arms:
  assumes ex: "expands args imp actor hs items" and "set hs' \<subseteq> set hs"
    and B: "\<forall>h \<in> set hs. block_type B (method_block h)
       [(message_var_ident h, Ty (TyPath (message_type_path h))), (''msg'', Ty (enum_type (actor @ ''Message'')))]
         = Some (result_type h)"
  shows "check_arms items B (map (\<lambda>h. handle_arm (actor @ ''Message'') (actor @ ''Result'') h (mident h)) hs')
     (enum_type (actor @ ''Message'')) [(''msg'', Ty (enum_type (actor @ ''Message'')))]
     (Ty (enum_type (actor @ ''Result'')))"
  using assms(2)
proof (induction hs')
  case (Cons h hs')
  then have h: "h \<in> set hs" by simp
  with B variant_types(1,2) [OF ex h] Cons show ?case
    by (simp add: handle_arm_def path_from_ident_str_def result_variant_type_def awaited_def
        blocking_future_def)
qed simp

lemma handler_impl_types:
  assumes ex: "expands args imp actor hs items"
    and B: "\<forall>h \<in> set hs. block_type B (method_block h)
       [(message_var_ident h, Ty (TyPath (message_type_path h))), (''msg'', Ty (enum_type (actor @ ''Message'')))]
         = Some (result_type h)"
  shows "item_types items B (handler_impl (actor_info_new actor)
     (map (\<lambda>h. handle_arm (actor @ ''Message'') (actor @ ''Result'') h (mident h)) hs) no_send)"
proof -
  let ?arms = "map (\<lambda>h. handle_arm (actor @ ''Message'') (actor @ ''Result'') h (mident h)) hs"
  have "find_enum items (actor @ ''Message'') =
      Some \<lparr>enum_attrs = [], enum_ident = actor @ ''Message'',
        variants = map (\<lambda>h. (mident h, TyPath (message_type_path h))) hs\<rparr>"
    using items_shape [OF ex] by (auto simp: find_enum_def)
  then have "exhaustive items (enum_type (actor @ ''Message'')) (map fst ?arms)"
    by (force simp: type_path_from_idents_def handle_arm_def)
  with check_handle_arms [OF ex order_refl B] show ?thesis
    by (simp add: handler_impl_def actor_info_new_def return_type_def path_from_ident_str_def Let_def)
qed

text \<open>
  C17. The generated code type checks. When every method's body has its declared result type where its message
  variable has the message's type, every implementation \<open>handler_v2\<close> generates is well typed against
  the two enums it generates: \<open>from\<close> builds the message enum, \<open>map\<close> turns the result enum into
  \<open>Result<Self::Output, ActixSendError>\<close> with \<open>Output\<close> the declared result type, and \<open>handle\<close> covers
  every message and builds the result enum, blocking methods included.
\<close>

theorem handler_v2_well_typed:
  assumes "expands args imp actor hs items"
    and "\<forall>m. Method m \<in> set (impl_items imp) \<longrightarrow> (\<exists>b. m_block m = UserBlock b)"
    and "\<forall>h \<in> set hs. block_type B (method_block h)
       [(message_var_ident h, Ty (TyPath (message_type_path h))), (''msg'', Ty (enum_type (actor @ ''Message'')))]
         = Some (result_type h)"
  shows "\<forall>it \<in> set items. item_types items B it"
proof -
  obtain hooks where items: "items =
     [ImplItem hooks,
      EnumItem \<lparr>enum_attrs = [], enum_ident = actor @ ''Message'',
        variants = map (\<lambda>h. (mident h, TyPath (message_type_path h))) hs\<rparr>,
      EnumItem \<lparr>enum_attrs = [], enum_ident = actor @ ''Result'',
        variants = map (\<lambda>h. (mident h, result_variant_type h)) hs\<rparr>] @
     map (\<lambda>h. from_impl (actor @ ''Message'') (enum_type (actor @ ''Message''))
                (message_type_path h) (mident h)) hs @
     map (\<lambda>h. map_result_impl (actor @ ''Result'') h (mident h)) hs @
     [handler_impl (actor_info_new actor)
        (map (\<lambda>h. handle_arm (actor @ ''Message'') (actor @ ''Result'') h (mident h)) hs)
        (macro_flag ''no_send'' args)]"
    using items_shape [OF assms(1)] by blast
  have "handler_v2 args imp = Some (ImplItem hooks # tl items)"
    using assms(1) by (simp add: items expands_def)
  from hooks_type [OF this assms(2)] have "item_types items B (ImplItem hooks)" .
  moreover have "\<forall>it \<in> set (tl items). item_types items B it"
    using from_impl_types [OF assms(1)] map_impl_types [OF assms(1)] handler_impl_types [OF assms(1,3)]
    by (subst items) auto
  ultimately show ?thesis by (subst items) (simp add: items)
qed

definition demo_types :: "nat block_types" where
  "demo_types b env = (case map_of env ''m'' of Some (Ty t) \<Rightarrow> Some (TyOther ''u32'') | _ \<Rightarrow> None)"

theorem handler_v2_well_typed_witness:
  "\<exists>items. handler_v2 [] demo_item_impl = Some items \<and> (\<forall>it \<in> set items. item_types items demo_types it)"
proof -
  obtain items where
    ex: "expands [] demo_item_impl ''Counter'' [demo_info True ''Add'' 0, demo_info False ''Work'' 1] items"
    using demo_expands ..
  have "\<forall>m. Method m \<in> set (impl_items demo_item_impl) \<longrightarrow> (\<exists>b. m_block m = UserBlock b)"
    by (auto simp: demo_item_impl_def demo_method_def)
  from handler_v2_well_typed [OF ex this, of demo_types]
  have "\<forall>it \<in> set items. item_types items demo_types it"
    by (simp add: demo_info_def demo_types_def result_type_def)
  with ex show ?thesis by (auto simp: expands_def)
qed

end
