(* ===== verification/Macro_Attr.thy ===== *)
theory Macro_Attr
  imports Prelude
begin

section \<open>The attribute of a message (\<open>actor_mod\<close> in \<open>actix-send-macros/src/lib.rs\<close>)\<close>

text \<open>
  \<open>actor_mod\<close> reads \<open>#[message(result = "T", blocking)]\<close> from the attribute's tokens printed as a
  string: the part behind the last equals sign without quotes and spaces, less its closing
  parenthesis; and if that contains \<open>blocking\<close>, less nine more characters. What is left is parsed as
  a type.
\<close>

definition message_attr :: "string \<Rightarrow> string \<times> bool" where
  "message_attr tokens =
     (let test = filter (\<lambda>c. c \<noteq> CHR 0x22 \<and> c \<noteq> CHR '' '') (last (split_on CHR ''='' tokens));
          test = str_pop test;
          is_blocking = str_contains ''blocking'' test;
          test = (if is_blocking then (str_pop ^^ 9) test else test)
      in (test, is_blocking))"

text \<open>How the tokens of such an attribute print, for a type's text.\<close>

definition quoted :: "string \<Rightarrow> string" where "quoted t = CHR 0x22 # t @ [CHR 0x22]"

definition message_tokens :: "string \<Rightarrow> bool \<Rightarrow> string" where
  "message_tokens t blocking =
     ''(result = '' @ quoted t @ (if blocking then '', blocking)'' else '')'')"

lemma last_piece:
  "CHR ''='' \<notin> set t \<Longrightarrow> split_on CHR ''='' (message_tokens t b) =
     [''(result '', '' '' @ quoted t @ (if b then '', blocking)'' else '')'')]"
  using split_on_append [of "CHR ''=''" "''(result ''"] split_on_single [of "CHR ''=''"]
  by (auto simp: message_tokens_def quoted_def)

lemma pop_append: "length s = n \<Longrightarrow> (str_pop ^^ n) (t @ s) = t"
proof (induction n arbitrary: s)
  case (Suc n)
  then obtain s' c where s: "s = s' @ [c]" by (metis length_0_conv nat.distinct(1) rev_exhaust)
  with Suc have IH: "(str_pop ^^ n) (t @ s') = t" by simp
  have "str_pop (t @ s) = t @ s'" by (simp add: s str_pop_def butlast_append)
  then show ?case by (simp add: IH funpow_Suc_right del: funpow.simps)
qed simp

lemma str_contains_append: "str_contains n s \<Longrightarrow> str_contains n (s @ t)" "str_contains n s \<Longrightarrow> str_contains n (t @ s)"
  by (auto simp: str_contains_iff) (metis append.assoc)+

text \<open>The text the macro keeps, before it looks for \<open>blocking\<close>.\<close>

abbreviation squeeze :: "string \<Rightarrow> string" where
  "squeeze t \<equiv> filter (\<lambda>c. c \<noteq> CHR 0x22 \<and> c \<noteq> CHR '' '') t"

lemma message_attr_plain:
  assumes "CHR ''='' \<notin> set t"
  shows "message_attr (message_tokens t False) =
     (if str_contains ''blocking'' (squeeze t) then ((str_pop ^^ 9) (squeeze t), True) else (squeeze t, False))"
  by (simp add: message_attr_def last_piece [OF assms] quoted_def str_pop_def butlast_append Let_def)

lemma message_attr_blocking:
  assumes "CHR ''='' \<notin> set t"
  shows "message_attr (message_tokens t True) = (squeeze t, True)"
proof -
  have "str_contains ''blocking'' (squeeze t @ '',blocking'')"
    by (rule str_contains_append(2)) (simp add: prefix_def)
  then show ?thesis
    using pop_append [of "'',blocking''" 9 "squeeze t"]
    by (simp add: message_attr_def last_piece [OF assms] quoted_def str_pop_def butlast_append Let_def)
qed

text \<open>
  The attribute is read back as it was written, type and flag, for every type whose text has no
  equals sign, quote or space and does not contain \<open>blocking\<close>.
\<close>

theorem message_attr_roundtrip:
  assumes "\<forall>c \<in> set t. c \<noteq> CHR ''='' \<and> c \<noteq> CHR 0x22 \<and> c \<noteq> CHR '' ''"
    and "\<not> str_contains ''blocking'' t"
  shows "message_attr (message_tokens t blocking) = (t, blocking)"
proof -
  have "CHR ''='' \<notin> set t" "squeeze t = t" using assms(1) by (auto simp: filter_id_conv)
  with assms(2) show ?thesis
    by (cases blocking) (simp_all add: message_attr_plain message_attr_blocking)
qed

theorem message_attr_roundtrip_witness:
  "message_attr (message_tokens ''Vec<u8>'' True) = (''Vec<u8>'', True)"
  by (rule message_attr_roundtrip) (simp_all add: prefix_def)

text \<open>
  Outside of that the attribute is misread: spaces inside the type are dropped, so \<open>dyn Trait\<close> becomes
  another type; and a result type whose name contains \<open>blocking\<close> makes the message a blocking one and
  loses its last nine characters.
\<close>

theorem message_attr_misread:
  assumes "CHR ''='' \<notin> set t"
  shows "message_attr (message_tokens t blocking) =
     (if blocking then (squeeze t, True)
      else if str_contains ''blocking'' (squeeze t)
      then (take (length (squeeze t) - 9) (squeeze t), True)
      else (squeeze t, False))"
proof -
  have "(str_pop ^^ n) s = take (length s - n) s" for n s
    by (induction n arbitrary: s) (simp_all add: str_pop_def butlast_conv_take)
  then show ?thesis using assms by (simp add: message_attr_plain message_attr_blocking)
qed

theorem message_attr_misread_witness:
  "message_attr (message_tokens ''dyn Any'' True) = (''dynAny'', True)
   \<and> message_attr (message_tokens ''Nonblocking'' False) = (''No'', True)"
  using message_attr_misread [of "''dyn Any''" True] message_attr_misread [of "''Nonblocking''" False]
  by (simp add: prefix_def)

end
