(* ===== verification/Macro_Mod.thy ===== *)
theory Macro_Mod
  imports Macro_Generate Macro_Attr
begin

section \<open>The macro \<open>actor_mod\<close> (\<open>actix-send-macros/src/lib.rs\<close>)\<close>

text \<open>
  \<open>actor_mod\<close> works on a whole module: it reads the messages from the \<open>#[message]\<close> attributes of the
  module's structs and type aliases, the actor from \<open>#[actor]\<close>, and the handlers from the \<open>impl\<close>
  blocks under \<open>#[handler]\<close>, and replaces those blocks by the two enums, the conversions and one
  \<open>Handler\<close> implementation. A panic of the macro is \<open>None\<close>. syn's parser of types is the parameter
  \<open>parse\<close>.
\<close>

subsection \<open>Reading the messages\<close>

record message_param =
  p_ident :: ident
  p_result :: ty
  p_blocking :: bool

record collected =
  params :: "message_param list"
  mod_attributes :: "attribute list"
  actor_ident_str :: ident

definition nothing_collected :: collected where
  "nothing_collected = \<lparr>params = [], mod_attributes = [], actor_ident_str = []\<rparr>"

text \<open>
  A struct or a type alias. Its attributes are taken off before it is asked for \<open>#[actor]\<close>: what is a
  message cannot be the actor.
\<close>

definition collect_message ::
  "(string \<Rightarrow> ty option) \<Rightarrow> item_decl \<Rightarrow> collected \<Rightarrow> (item_decl \<times> collected) option" where
  "collect_message parse d c =
     (case is_ident (decl_attrs d) ''message'' of
        None \<Rightarrow> Some (d, c)
      | Some a \<Rightarrow>
          (let (test, is_blocking) = message_attr (attr_tokens a)
           in map_option
                (\<lambda>t. (d\<lparr>decl_attrs := []\<rparr>,
                      c\<lparr>params := params c
                           @ [\<lparr>p_ident = decl_ident d, p_result = t, p_blocking = is_blocking\<rparr>],
                        mod_attributes := mod_attributes c @ decl_attrs d\<rparr>))
                (parse test)))"

definition collect_actor :: "item_decl \<Rightarrow> collected \<Rightarrow> collected" where
  "collect_actor d c =
     (if is_ident (decl_attrs d) ''actor'' \<noteq> None then c\<lparr>actor_ident_str := decl_ident d\<rparr> else c)"

definition collect_decl ::
  "(string \<Rightarrow> ty option) \<Rightarrow> item_decl \<Rightarrow> collected \<Rightarrow> (item_decl \<times> collected) option" where
  "collect_decl parse d c =
     map_option (\<lambda>(d, c). (d, collect_actor d c)) (collect_message parse d c)"

fun collect_item ::
  "(string \<Rightarrow> ty option) \<Rightarrow> 'b item \<Rightarrow> collected \<Rightarrow> ('b item \<times> collected) option" where
  "collect_item parse (StructItem d) c = map_option (\<lambda>(d, c). (StructItem d, c)) (collect_decl parse d c)"
| "collect_item parse (TypeItem d) c = map_option (\<lambda>(d, c). (TypeItem d, c)) (collect_decl parse d c)"
| "collect_item parse it c = Some (it, c)"

fun collect_items ::
  "(string \<Rightarrow> ty option) \<Rightarrow> 'b item list \<Rightarrow> collected \<Rightarrow> ('b item list \<times> collected) option" where
  "collect_items parse [] c = Some ([], c)"
| "collect_items parse (it # items) c =
     Option.bind (collect_item parse it c) (\<lambda>(it, c).
       map_option (\<lambda>(items, c). (it # items, c)) (collect_items parse items c))"

text \<open>The attributes of all messages, without \<open>#[message]\<close>, go to the message enum.\<close>

definition enum_attributes :: "attribute list \<Rightarrow> attribute list" where
  "enum_attributes attrs = filter (\<lambda>a. \<not> first_segment_is ''message'' (attr_path a)) attrs"

subsection \<open>The enums and conversions\<close>

definition mod_result_variant :: "message_param \<Rightarrow> ident \<times> ty" where
  "mod_result_variant p =
     (p_ident p,
      if p_blocking p
      then TyPath (Path False [Segment ''Result''
             (AngleArgs [p_result p, TyPath (type_path_from_idents [''ActixSendError''])])])
      else p_result p)"

text \<open>The function \<open>from_trait\<close>.\<close>

definition from_trait_item :: "path \<Rightarrow> ident \<Rightarrow> ident \<Rightarrow> ty \<Rightarrow> 'b item" where
  "from_trait_item source_type_path source_ident menum menum_type =
     ImplItem \<lparr>impl_attrs = [],
       impl_trait = Some (Path False [Segment ''From'' (AngleArgs [TyPath source_type_path])]),
       impl_self = menum_type,
       impl_items =
         [Method \<lparr>m_attrs = [], m_pub = False, m_async = False, m_ident = ''from'',
            m_inputs = [Typed (PIdent False ''msg'') (TyPath source_type_path)],
            m_output = Some (TyPath (type_path_from_idents [menum])),
            m_block = Stmts [SExpr
              (ECall (EPath (Path False [Segment menum NoArgs, Segment source_ident NoArgs]))
                     [EPath (path_from_ident_str [''msg''])])]\<rparr>]\<rparr>"

definition mod_map_arms :: "ident \<Rightarrow> message_param \<Rightarrow> (pat \<times> 'b expr) list" where
  "mod_map_arms renum p =
     [(PTupleStruct (Path False [Segment renum NoArgs, Segment (p_ident p) NoArgs])
         [PIdent False ''result''],
       EPath (Path False
         [if p_blocking p then Segment ''result'' NoArgs
          else Segment ''Ok'' (ParenArgs [TyPath (type_path_from_idents [''result''])])])),
      (PWild, EMacro (path_from_ident_str [''unreachable'']))]"

definition mod_map_method :: "ident \<Rightarrow> message_param \<Rightarrow> 'b impl_method" where
  "mod_map_method renum p =
     \<lparr>m_attrs = [], m_pub = False, m_async = False, m_ident = ''map'',
      m_inputs = [Typed (PIdent False ''msg'') (TyPath (type_path_from_idents [renum]))],
      m_output = Some (TyPath (Path False [Segment ''Result''
        (AngleArgs [TyPath (type_path_from_idents [''Self'', ''Output'']),
                    TyPath (type_path_from_idents [''ActixSendError''])])])),
      m_block = Stmts [SExpr (EMatch (EPath (path_from_ident_str [''msg'']))
                                     (mod_map_arms renum p))]\<rparr>"

definition map_result_path :: "ident \<Rightarrow> path" where
  "map_result_path renum =
     Path False [Segment ''MapResult'' (AngleArgs [TyPath (type_path_from_idents [renum])])]"

definition mod_map_impl :: "ident \<Rightarrow> message_param \<Rightarrow> 'b item" where
  "mod_map_impl renum p =
     ImplItem \<lparr>impl_attrs = [],
       impl_trait = Some (map_result_path renum),
       impl_self = TyPath (type_path_from_idents [p_ident p]),
       impl_items = [AssocType ''Output'' (p_result p), Method (mod_map_method renum p)]\<rparr>"

text \<open>The loop over the messages: a variant of each enum and two implementations for each.\<close>

fun message_loop ::
  "message_param list \<Rightarrow> item_enum \<Rightarrow> item_enum \<Rightarrow> 'b item list \<Rightarrow> item_enum \<times> item_enum \<times> 'b item list" where
  "message_loop [] me re items = (me, re, items)"
| "message_loop (p # ps) me re items =
     (let type_path = type_path_from_idents [p_ident p]
      in message_loop ps
           (me\<lparr>variants := variants me @ [(p_ident p, TyPath type_path)]\<rparr>)
           (re\<lparr>variants := variants re @ [mod_result_variant p]\<rparr>)
           (items @
            [from_trait_item type_path (p_ident p) (enum_ident me)
               (TyPath (type_path_from_idents [enum_ident me])),
             mod_map_impl (enum_ident re) p]))"

subsection \<open>The handlers\<close>

text \<open>The first item of an \<open>impl\<close> block under \<open>#[handler]\<close>, when it is a method.\<close>

fun handler_method :: "'b item \<Rightarrow> 'b impl_method option" where
  "handler_method (ImplItem i) =
     (if is_ident (impl_attrs i) ''handler'' = None then None
      else case impl_items i of Method m # _ \<Rightarrow> Some m | _ \<Rightarrow> None)"
| "handler_method _ = None"

text \<open>The name and the message of its second argument: the first segment of the argument's type.\<close>

fun second_arg :: "fn_arg list \<Rightarrow> (ident \<times> ident) option" where
  "second_arg (_ # Typed (PIdent mut v) (TyPath (Path c (Segment i _ # _))) # _) = Some (v, i)"
| "second_arg (_ # Typed _ (TyPath (Path c (Segment i _ # _))) # _) = Some (''_msg'', i)"
| "second_arg _ = None"

type_synonym 'b handle_method = "ident \<times> ident \<times> 'b block"

definition handle_method :: "'b impl_method \<Rightarrow> 'b handle_method option" where
  "handle_method m = map_option (\<lambda>(v, i). (v, i, m_block m)) (second_arg (m_inputs m))"

definition handle_methods :: "'b item list \<Rightarrow> 'b handle_method list option" where
  "handle_methods items = map_all handle_method (List.map_filter handler_method items)"

fun is_handler :: "'b item \<Rightarrow> bool" where
  "is_handler (ImplItem i) \<longleftrightarrow> is_ident (impl_attrs i) ''handler'' \<noteq> None"
| "is_handler _ \<longleftrightarrow> False"

definition without_handlers :: "'b item list \<Rightarrow> 'b item list" where
  "without_handlers items = filter (\<lambda>it. \<not> is_handler it) items"

subsection \<open>The generated handler\<close>

definition arm_ident :: "'b handle_method list \<Rightarrow> ident \<Rightarrow> ident option" where
  "arm_ident methods i = find_map (\<lambda>(v, j, _). if j = i then Some v else None) methods"

definition arm_stmts :: "'b handle_method list \<Rightarrow> ident \<Rightarrow> 'b block option" where
  "arm_stmts methods i = find_map (\<lambda>(_, j, stmts). if j = i then Some stmts else None) methods"

definition mod_stmt1 :: "bool \<Rightarrow> 'b block \<Rightarrow> 'b stmt" where
  "mod_stmt1 is_blocking stmts =
     SLet ''result''
       (if is_blocking
        then ECall (EPath (path_from_ident_str [''actix_send_blocking''])) [EClosure stmts]
        else EAsync stmts)"

definition mod_stmt2 :: "ident \<Rightarrow> ident \<Rightarrow> 'b stmt" where
  "mod_stmt2 renum i =
     SExpr (ECall (EPath (Path False [Segment renum NoArgs, Segment i NoArgs]))
       [EAwait (EPath (path_from_ident_str [''result'']))])"

definition arm_pattern :: "ident \<Rightarrow> ident \<Rightarrow> ident \<Rightarrow> pat" where
  "arm_pattern menum v i =
     PTupleStruct (Path False [Segment menum NoArgs, Segment i NoArgs]) [PIdent False v]"

definition mod_arm ::
  "ident \<Rightarrow> ident \<Rightarrow> 'b handle_method list \<Rightarrow> message_param \<Rightarrow> (pat \<times> 'b expr) option" where
  "mod_arm menum renum methods p =
     Option.bind (arm_ident methods (p_ident p)) (\<lambda>v.
       map_option
         (\<lambda>stmts.
           (arm_pattern menum v (p_ident p),
            EBlock [mod_stmt1 (p_blocking p) stmts, mod_stmt2 renum (p_ident p)]))
         (arm_stmts methods (p_ident p)))"

definition handle_inputs :: "ident \<Rightarrow> fn_arg list" where
  "handle_inputs menum =
     [Receiver, Typed (PIdent False ''msg'') (TyPath (type_path_from_idents [menum]))]"

definition mod_handle_impl :: "ident \<Rightarrow> ident \<Rightarrow> ident \<Rightarrow> (pat \<times> 'b expr) list \<Rightarrow> 'b item" where
  "mod_handle_impl actor menum renum arms =
     ImplItem \<lparr>impl_attrs = [attr_from_ident_str [''handler'']],
       impl_trait = Some (path_from_ident_str [''Handler'']),
       impl_self = TyPath (type_path_from_idents [actor]),
       impl_items =
         [Method \<lparr>m_attrs = [], m_pub = False, m_async = True, m_ident = ''handle'',
            m_inputs = handle_inputs menum,
            m_output = Some (TyPath (type_path_from_idents [renum])),
            m_block = Stmts [SExpr (EMatch (EPath (path_from_ident_str [''msg''])) arms)]\<rparr>]\<rparr>"

subsection \<open>The macro\<close>

text \<open>The two enums before the loop adds their variants.\<close>

definition mod_enums :: "collected \<Rightarrow> item_enum \<times> item_enum" where
  "mod_enums c =
     (\<lparr>enum_attrs = enum_attributes (mod_attributes c), enum_ident = actor_ident_str c @ ''Message'',
       variants = []\<rparr>,
      \<lparr>enum_attrs = [], enum_ident = actor_ident_str c @ ''Result'', variants = []\<rparr>)"

text \<open>\<open>Ident::new\<close> panics on the empty string, which the actor's name is when there is no actor.\<close>

definition ident_new :: "string \<Rightarrow> ident option" where
  "ident_new s = (if s = [] then None else Some s)"

text \<open>The hooks, always empty, stand behind the module.\<close>

definition dummy_hooks :: "ident \<Rightarrow> 'b item" where
  "dummy_hooks actor =
     ImplItem \<lparr>impl_attrs = [], impl_trait = None, impl_self = TyPath (type_path_from_idents [actor]),
       impl_items =
         map (\<lambda>name. Method \<lparr>m_attrs = [], m_pub = True, m_async = True, m_ident = name,
                               m_inputs = [Receiver], m_output = None, m_block = Stmts []\<rparr>)
             [''__on_start'', ''__on_stop'']\<rparr>"

record 'b mod_expansion =
  mod_items :: "'b item list"
  mod_hooks :: "'b item"

text \<open>The module's content is \<open>None\<close> for a module without a body.\<close>

definition actor_mod ::
  "(string \<Rightarrow> ty option) \<Rightarrow> 'b item list option \<Rightarrow> 'b mod_expansion option" where
  "actor_mod parse content =
     Option.bind content (\<lambda>items.
     Option.bind (collect_items parse items nothing_collected) (\<lambda>(items, c).
       (let menum = actor_ident_str c @ ''Message'';
            renum = actor_ident_str c @ ''Result'';
            (me0, re0) = mod_enums c;
            (me, re, items) = message_loop (params c) me0 re0 items;
            items = items @ [EnumItem me, EnumItem re]
        in Option.bind (handle_methods items) (\<lambda>methods.
           Option.bind (ident_new (actor_ident_str c)) (\<lambda>actor.
           Option.bind (map_all (mod_arm menum renum methods) (params c)) (\<lambda>arms.
             Some \<lparr>mod_items = without_handlers items
                     @ [mod_handle_impl actor menum renum arms],
                   mod_hooks = dummy_hooks actor\<rparr>))))))"

lemmas mod_defs [op_defs] =
  nothing_collected_def collect_message_def collect_actor_def collect_decl_def mod_result_variant_def
  from_trait_item_def mod_map_arms_def mod_map_method_def map_result_path_def mod_map_impl_def
  handle_method_def mod_stmt1_def mod_stmt2_def arm_pattern_def mod_arm_def handle_inputs_def
  mod_enums_def mod_handle_impl_def ident_new_def dummy_hooks_def

end
