(* ===== verification/Macro_Mod_Correct.thy ===== *)
theory Macro_Mod_Correct
  imports Macro_Mod Macro_Meaning "HOL-Library.Multiset"
begin

section \<open>\<open>actor_mod\<close> against \<open>handler_v2\<close>\<close>

text \<open>
  \<open>actor_mod\<close> and \<open>handler_v2\<close> are two independent pieces of code that should generate the same thing.
  Here a module is turned into the \<open>impl\<close> block that says the same to \<open>handler_v2\<close>, and the two
  expansions are compared; the meaning of the code \<open>actor_mod\<close> generates then follows from that of
  \<open>handler_v2\<close>.
\<close>

subsection \<open>The \<open>impl\<close> block of a module\<close>

definition mod_impl_method :: "'b handle_method list \<Rightarrow> message_param \<Rightarrow> 'b impl_method" where
  "mod_impl_method methods p =
     \<lparr>m_attrs = [], m_pub = False, m_async = \<not> p_blocking p, m_ident = ''handle'',
      m_inputs = [Receiver, Typed (PIdent False (the (arm_ident methods (p_ident p))))
                                  (TyPath (type_path_from_idents [p_ident p]))],
      m_output = Some (p_result p), m_block = the (arm_stmts methods (p_ident p))\<rparr>"

definition mod_as_impl :: "collected \<Rightarrow> 'b handle_method list \<Rightarrow> 'b item_impl" where
  "mod_as_impl c methods =
     \<lparr>impl_attrs = [], impl_trait = None, impl_self = TyPath (type_path_from_idents [actor_ident_str c]),
      impl_items = map (\<lambda>p. Method (mod_impl_method methods p)) (params c)\<rparr>"

definition mod_info :: "'b handle_method list \<Rightarrow> message_param \<Rightarrow> 'b handle_info" where
  "mod_info methods p =
     \<lparr>message_var_ident = the (arm_ident methods (p_ident p)),
      message_type_path = type_path_from_idents [p_ident p], message_return_type = Some (p_result p),
      method_block = the (arm_stmts methods (p_ident p)), is_async = \<not> p_blocking p\<rparr>"

lemma mod_info_simps [simp]:
  "message_type_path (mod_info methods p) = type_path_from_idents [p_ident p]"
  "is_async (mod_info methods p) \<longleftrightarrow> \<not> p_blocking p"
  by (simp_all add: mod_info_def)

lemma handle_info_new_mod: "handle_info_new (mod_impl_method methods p) = Some (mod_info methods p)"
  by (simp add: handle_info_new_def mod_impl_method_def mod_info_def)

lemma split_hooks_mod:
  "split_hooks (map (\<lambda>p. Method (mod_impl_method methods p)) ps) s1 s2 = (map (mod_impl_method methods) ps, s1, s2)"
  by (induction ps) (simp_all add: has_attr_def is_ident_def mod_impl_method_def)

lemma info_of_mod: "info_of (mod_as_impl c methods) = Some (map (mod_info methods) (params c))"
proof -
  have "map_all handle_info_new (map (mod_impl_method methods) ps) = Some (map (mod_info methods) ps)" for ps
    by (induction ps) (simp_all add: handle_info_new_mod)
  then show ?thesis by (simp add: info_of_def mod_as_impl_def split_hooks_mod)
qed

subsection \<open>The pieces of the two expansions agree\<close>

lemma from_trait_item_eq:
  "from_trait_item tp i menum (TyPath (type_path_from_idents [menum]))
     = from_impl menum (TyPath (type_path_from_idents [menum])) tp i"
  by (simp add: from_trait_item_def from_impl_def plain_method_def)

lemma mod_map_impl_eq: "mod_map_impl renum p = map_result_impl renum (mod_info methods p) (p_ident p)"
  by (simp add: mod_map_impl_def map_result_path_def map_result_impl_def mod_map_method_def mod_map_arms_def map_arms_def
      plain_method_def with_send_error_def result_type_def mod_info_def Let_def)

lemma mod_result_variant_eq:
  "mod_result_variant p = (p_ident p, result_variant_type (mod_info methods p))"
  by (simp add: mod_result_variant_def result_variant_type_def result_type_def with_send_error_def mod_info_def)

lemma mod_arm_eq:
  "mod_arm menum renum methods p =
     (if arm_ident methods (p_ident p) = None then None
      else Some (handle_arm menum renum (mod_info methods p) (p_ident p)))"
proof -
  have "arm_stmts methods i = None \<longleftrightarrow> arm_ident methods i = None" for i
    by (simp add: arm_stmts_def arm_ident_def find_map_None split_beta)
  then show ?thesis
    by (auto simp: mod_arm_def handle_arm_def mod_info_def mod_stmt1_def mod_stmt2_def arm_pattern_def)
qed

lemma mod_arms_Some:
  "map_all (mod_arm menum renum methods) ps = Some arms \<longleftrightarrow>
     (\<forall>p \<in> set ps. arm_ident methods (p_ident p) \<noteq> None) \<and>
     arms = map (\<lambda>p. handle_arm menum renum (mod_info methods p) (p_ident p)) ps"
  by (induction ps arbitrary: arms) (auto simp: mod_arm_eq split: option.splits)

lemma mod_handle_impl_eq:
  "mod_handle_impl actor (actor @ ''Message'') (actor @ ''Result'') arms
     = handler_impl (actor_info_new actor) arms False"
  by (simp add: handle_inputs_def mod_handle_impl_def handler_impl_def actor_info_new_def Let_def)

lemma dummy_hooks_eq:
  "dummy_hooks actor =
     ImplItem \<lparr>impl_attrs = [], impl_trait = None, impl_self = TyPath (type_path_from_idents [actor]),
       impl_items = [Method (hook_method ''on_start'' ''__on_start'' None),
                     Method (hook_method ''on_stop'' ''__on_stop'' None)]\<rparr>"
  by (simp add: dummy_hooks_def hook_method_def Let_def)

text \<open>The loop over the messages, in closed form.\<close>

definition mod_from :: "ident \<Rightarrow> message_param \<Rightarrow> 'b item" where
  "mod_from menum p =
     from_impl menum (TyPath (type_path_from_idents [menum])) (type_path_from_idents [p_ident p]) (p_ident p)"

lemma message_loop_eq:
  "message_loop ps me re items =
     (me\<lparr>variants := variants me @ map (\<lambda>p. (p_ident p, TyPath (type_path_from_idents [p_ident p]))) ps\<rparr>,
      re\<lparr>variants := variants re @ map mod_result_variant ps\<rparr>,
      items @ concat (map (\<lambda>p. [mod_from (enum_ident me) p, mod_map_impl (enum_ident re) p]) ps))"
  by (induction ps arbitrary: me re items) (simp_all add: from_trait_item_eq mod_from_def Let_def)

lemma generated_no_handler:
  "\<not> is_handler (mod_from menum p)" "\<not> is_handler (mod_map_impl renum p)"
  by (simp_all add: mod_from_def from_impl_def mod_map_impl_def is_ident_def)

lemma not_handler_method: "\<not> is_handler it \<Longrightarrow> handler_method it = None"
  by (cases it) simp_all

lemma handle_methods_append:
  "\<forall>it \<in> set gen. \<not> is_handler it \<Longrightarrow> handle_methods (items @ gen) = handle_methods items"
proof -
  assume "\<forall>it \<in> set gen. \<not> is_handler it"
  then have "List.map_filter handler_method gen = []"
    by (induction gen) (simp_all add: List.map_filter_simps not_handler_method)
  then show ?thesis by (simp add: handle_methods_def List.map_filter_def)
qed

lemma without_handlers_append:
  "\<forall>it \<in> set gen. \<not> is_handler it \<Longrightarrow> without_handlers (items @ gen) = without_handlers items @ gen"
  by (simp add: without_handlers_def filter_id_conv)

subsection \<open>What the macro reads from a module\<close>

fun decl_of :: "'b item \<Rightarrow> item_decl option" where
  "decl_of (StructItem d) = Some d"
| "decl_of (TypeItem d) = Some d"
| "decl_of _ = None"

definition is_message :: "item_decl \<Rightarrow> bool" where
  "is_message d \<longleftrightarrow> is_ident (decl_attrs d) ''message'' \<noteq> None"

definition message_decls :: "'b item list \<Rightarrow> item_decl list" where
  "message_decls items = filter is_message (List.map_filter decl_of items)"

definition actor_decls :: "'b item list \<Rightarrow> item_decl list" where
  "actor_decls items =
     filter (\<lambda>d. \<not> is_message d \<and> is_ident (decl_attrs d) ''actor'' \<noteq> None) (List.map_filter decl_of items)"

definition message_text :: "item_decl \<Rightarrow> string \<times> bool" where
  "message_text d = message_attr (attr_tokens (the (is_ident (decl_attrs d) ''message'')))"

definition the_param :: "(string \<Rightarrow> ty option) \<Rightarrow> item_decl \<Rightarrow> message_param" where
  "the_param parse d =
     \<lparr>p_ident = decl_ident d, p_result = the (parse (fst (message_text d))), p_blocking = snd (message_text d)\<rparr>"

definition strip_decl :: "item_decl \<Rightarrow> item_decl" where
  "strip_decl d = (if is_message d then d\<lparr>decl_attrs := []\<rparr> else d)"

fun strip_item :: "'b item \<Rightarrow> 'b item" where
  "strip_item (StructItem d) = StructItem (strip_decl d)"
| "strip_item (TypeItem d) = TypeItem (strip_decl d)"
| "strip_item it = it"

definition add_decls :: "(string \<Rightarrow> ty option) \<Rightarrow> 'b item list \<Rightarrow> collected \<Rightarrow> collected" where
  "add_decls parse items c =
     c\<lparr>params := params c @ map (the_param parse) (message_decls items),
       mod_attributes := mod_attributes c @ concat (map decl_attrs (message_decls items)),
       actor_ident_str := (if actor_decls items = [] then actor_ident_str c
                           else decl_ident (last (actor_decls items)))\<rparr>"

definition add_decl :: "(string \<Rightarrow> ty option) \<Rightarrow> item_decl \<Rightarrow> collected \<Rightarrow> collected" where
  "add_decl parse d c =
     (if is_message d
      then c\<lparr>params := params c @ [the_param parse d], mod_attributes := mod_attributes c @ decl_attrs d\<rparr>
      else if is_ident (decl_attrs d) ''actor'' \<noteq> None then c\<lparr>actor_ident_str := decl_ident d\<rparr>
      else c)"

definition types_parse :: "(string \<Rightarrow> ty option) \<Rightarrow> 'b item list \<Rightarrow> bool" where
  "types_parse parse items \<longleftrightarrow> (\<forall>d \<in> set (message_decls items). parse (fst (message_text d)) \<noteq> None)"

lemma decls_Nil [simp]: "message_decls [] = []" "actor_decls [] = []"
  by (simp_all add: message_decls_def actor_decls_def List.map_filter_simps)

lemma decls_Cons [simp]:
  "message_decls (it # items) =
     (case decl_of it of Some d \<Rightarrow> if is_message d then d # message_decls items else message_decls items
      | None \<Rightarrow> message_decls items)"
  "actor_decls (it # items) =
     (case decl_of it of
        Some d \<Rightarrow> if \<not> is_message d \<and> is_ident (decl_attrs d) ''actor'' \<noteq> None then d # actor_decls items
                  else actor_decls items
      | None \<Rightarrow> actor_decls items)"
  by (simp_all add: message_decls_def actor_decls_def List.map_filter_simps split: option.splits)

lemma collect_decl_eq:
  "collect_decl parse d c =
     (if is_message d \<and> parse (fst (message_text d)) = None then None
      else Some (strip_decl d, add_decl parse d c))"
  by (cases "is_ident (decl_attrs d) ''message''")
    (auto simp: collect_decl_def collect_message_def collect_actor_def strip_decl_def add_decl_def
      is_message_def message_text_def the_param_def is_ident_def split: prod.splits)

lemma collect_item_eq:
  "collect_item parse it c =
     (if types_parse parse [it] then Some (strip_item it, add_decls parse [it] c) else None)"
  by (cases it) (auto simp: collect_decl_eq types_parse_def add_decls_def add_decl_def)

lemma add_decls_Cons: "add_decls parse items (add_decls parse [it] c) = add_decls parse (it # items) c"
  by (auto simp: add_decls_def split: option.splits)

lemma collect_items_eq:
  "collect_items parse items c =
     (if types_parse parse items then Some (map strip_item items, add_decls parse items c) else None)"
proof (induction items arbitrary: c)
  case (Cons it items)
  have "types_parse parse (it # items) \<longleftrightarrow> types_parse parse [it] \<and> types_parse parse items"
    by (auto simp: types_parse_def split: option.splits)
  then show ?case by (simp add: collect_item_eq Cons.IH add_decls_Cons)
qed (simp add: types_parse_def add_decls_def)

lemma strip_handlers:
  fixes items :: "'a item list"
  shows "handle_methods (map strip_item items) = handle_methods items"
    and "without_handlers (map strip_item items) = map strip_item (without_handlers items)"
proof -
  have "handler_method (strip_item it) = handler_method it" "is_handler (strip_item it) = is_handler it"
    for it :: "'a item" by (cases it; simp)+
  then show "handle_methods (map strip_item items) = handle_methods items"
    "without_handlers (map strip_item items) = map strip_item (without_handlers items)"
    by (simp_all add: handle_methods_def without_handlers_def List.map_filter_def filter_map o_def)
qed

definition mod_collected :: "(string \<Rightarrow> ty option) \<Rightarrow> 'b item list \<Rightarrow> collected" where
  "mod_collected parse items = add_decls parse items nothing_collected"

lemma mod_collected_simps [simp]:
  "params (mod_collected parse items) = map (the_param parse) (message_decls items)"
  "mod_attributes (mod_collected parse items) = concat (map decl_attrs (message_decls items))"
  "actor_ident_str (mod_collected parse items) =
     (if actor_decls items = [] then [] else decl_ident (last (actor_decls items)))"
  by (simp_all add: mod_collected_def add_decls_def nothing_collected_def)

text \<open>The whole expansion, when the macro does not panic.\<close>

definition mod_tail :: "collected \<Rightarrow> 'b handle_method list \<Rightarrow> 'b item list" where
  "mod_tail c methods =
     [EnumItem \<lparr>enum_attrs = enum_attributes (mod_attributes c),
        enum_ident = actor_ident_str c @ ''Message'',
        variants = map (\<lambda>p. (p_ident p, TyPath (type_path_from_idents [p_ident p]))) (params c)\<rparr>,
      EnumItem \<lparr>enum_attrs = [], enum_ident = actor_ident_str c @ ''Result'',
        variants = map mod_result_variant (params c)\<rparr>,
      handler_impl (actor_info_new (actor_ident_str c))
        (map (\<lambda>p. handle_arm (actor_ident_str c @ ''Message'') (actor_ident_str c @ ''Result'')
                    (mod_info methods p) (p_ident p)) (params c)) False]"

definition mod_generated :: "collected \<Rightarrow> 'b handle_method list \<Rightarrow> 'b item list" where
  "mod_generated c methods =
     concat (map (\<lambda>p. [mod_from (actor_ident_str c @ ''Message'') p,
                       mod_map_impl (actor_ident_str c @ ''Result'') p]) (params c)) @
     mod_tail c methods"

lemma actor_mod_eq:
  fixes items :: "'b item list"
  shows "actor_mod parse (Some items) = Some e \<longleftrightarrow>
     (\<exists>methods. types_parse parse items \<and> handle_methods items = Some methods \<and>
        actor_ident_str (mod_collected parse items) \<noteq> [] \<and>
        (\<forall>d \<in> set (message_decls items). arm_ident methods (decl_ident d) \<noteq> None) \<and>
        e = \<lparr>mod_items = map strip_item (without_handlers items)
                           @ mod_generated (mod_collected parse items) methods,
             mod_hooks = dummy_hooks (actor_ident_str (mod_collected parse items))\<rparr>)"
proof (cases "types_parse parse items")
  case True
  define c where "c = mod_collected parse items"
  let ?gen = "concat (map (\<lambda>p. [mod_from (actor_ident_str c @ ''Message'') p,
                                mod_map_impl (actor_ident_str c @ ''Result'') p]) (params c))"
  have no: "\<forall>it \<in> set (?gen @ [EnumItem a, EnumItem b]). \<not> is_handler it" for a b
    by (auto simp: generated_no_handler)
  note app = handle_methods_append [OF no, of "map strip_item items"]
    without_handlers_append [OF no, of "map strip_item items"]
  have ps: "(\<forall>d \<in> set (message_decls items). \<exists>v. arm_ident methods (decl_ident d) = Some v) \<longleftrightarrow>
      (\<forall>p \<in> set (params c). \<exists>v. arm_ident methods (p_ident p) = Some v)" for methods :: "'b handle_method list"
    by (simp add: c_def the_param_def)
  have kept: "collect_items parse items nothing_collected = Some (map strip_item items, c)"
    using True by (simp add: collect_items_eq c_def mod_collected_def)
  show ?thesis
    unfolding c_def [symmetric]
    by (auto simp: actor_mod_def mod_enums_def kept message_loop_eq app [simplified] strip_handlers ident_new_def True
        bind_eq_Some_conv mod_arms_Some ps mod_handle_impl_eq mod_generated_def mod_tail_def Let_def simp del: map_map
        split: if_splits)
qed (simp add: actor_mod_def collect_items_eq)

subsection \<open>The equivalence\<close>

lemma handler_v2_mod:
  fixes methods :: "'b handle_method list" and c :: collected
  defines "a \<equiv> actor_ident_str c"
  shows "handler_v2 [] (mod_as_impl c methods) = Some
     ([dummy_hooks a,
       EnumItem \<lparr>enum_attrs = [], enum_ident = a @ ''Message'',
         variants = map (\<lambda>p. (p_ident p, TyPath (type_path_from_idents [p_ident p]))) (params c)\<rparr>,
       EnumItem \<lparr>enum_attrs = [], enum_ident = a @ ''Result'', variants = map mod_result_variant (params c)\<rparr>] @
      map (mod_from (a @ ''Message'')) (params c) @
      map (mod_map_impl (a @ ''Result'')) (params c) @
      [handler_impl (actor_info_new a)
        (map (\<lambda>p. handle_arm (a @ ''Message'') (a @ ''Result'') (mod_info methods p) (p_ident p)) (params c)) False])"
proof -
  let ?hs = "map (mod_info methods) (params c)"
  have named: "\<forall>h \<in> set ?hs. get_ident (message_type_path h) \<noteq> None" by simp
  have info: "map_all handle_info_new (fst (split_hooks (impl_items (mod_as_impl c methods)) None None)) = Some ?hs"
    using info_of_mod [of c methods] by (simp add: info_of_def)
  have maps: "map (\<lambda>p. map_result_impl r (mod_info methods p) (p_ident p)) ps = map (mod_map_impl r) ps" for r ps
    by (simp add: mod_map_impl_eq [of _ _ methods])
  show ?thesis
    using info
    by (simp add: handler_v2_def mod_as_impl_def split_hooks_mod enum_variants_shape [OF named]
        from_trait_shape [OF named] map_result_trait_shape [OF named] handler_trait_def
        handle_arms_shape [OF named] actor_info_new_def handler_impl_def dummy_hooks_eq
        mod_from_def mod_result_variant_eq [of _ methods] macro_flag_def List.map_filter_simps
        maps o_def Let_def a_def)
qed

lemma mset_interleave: "mset (concat (map (\<lambda>p. [f p, g p]) ps)) = mset (map f ps) + mset (map g ps)"
  by (induction ps) simp_all

text \<open>
  C4. The two macros agree. Whenever \<open>actor_mod\<close> does not panic, \<open>handler_v2\<close> does not panic on the \<open>impl\<close>
  block that says the same; the items \<open>actor_mod\<close> adds to the module are the items \<open>handler_v2\<close>
  generates, in another order, the message enum with the messages' attributes; and the hooks are the
  empty ones.
\<close>

theorem actor_mod_like_handler_v2:
  assumes "actor_mod parse (Some items) = Some e"
  shows "\<exists>methods menum renum gen.
     handle_methods items = Some methods \<and>
     handler_v2 [] (mod_as_impl (mod_collected parse items) methods)
       = Some (mod_hooks e # EnumItem menum # EnumItem renum # gen) \<and>
     mset (mod_items e) =
       mset (map strip_item (without_handlers items)) +
       mset (EnumItem (menum\<lparr>enum_attrs := enum_attributes (concat (map decl_attrs (message_decls items)))\<rparr>)
             # EnumItem renum # gen)"
proof -
  from assms obtain methods where methods: "handle_methods items = Some methods"
    and e: "e = \<lparr>mod_items = map strip_item (without_handlers items)
                     @ mod_generated (mod_collected parse items) methods,
                 mod_hooks = dummy_hooks (actor_ident_str (mod_collected parse items))\<rparr>"
    by (auto simp: actor_mod_eq)
  then show ?thesis
    by (intro exI conjI)
      (rule methods, simp add: handler_v2_mod del: mod_collected_simps,
       simp add: mod_generated_def mod_tail_def mset_interleave mod_collected_simps(2) del: mod_collected_simps(1,3))
qed

subsection \<open>The module runs the user's methods\<close>

text \<open>Rust's coherence rule: a module has at most one implementation of a trait for a type.\<close>

fun impl_key :: "'b item \<Rightarrow> (path \<times> ty) option" where
  "impl_key (ImplItem i) = map_option (\<lambda>t. (t, impl_self i)) (impl_trait i)"
| "impl_key _ = None"

definition coherent :: "'b item list \<Rightarrow> bool" where
  "coherent items \<longleftrightarrow> distinct (List.map_filter impl_key items)"

lemma the_impl_key: "the_impl tr self it = Some i \<longleftrightarrow> it = ImplItem i \<and> impl_key it = Some (tr, self)"
  by (cases it) (auto simp: the_impl_def)

lemma map_filter_append: "List.map_filter f (xs @ ys) = List.map_filter f xs @ List.map_filter f ys"
  by (simp add: List.map_filter_def)

lemma set_map_filter: "set (List.map_filter f xs) = {y. \<exists>x \<in> set xs. f x = Some y}"
  by (induction xs) (auto simp: List.map_filter_simps split: option.splits)

lemma find_coherent:
  assumes "coherent items" "it \<in> set items" "the_impl tr self it = Some i"
  shows "find_map (the_impl tr self) items = Some i"
  using assms
proof (induction items)
  case (Cons x items)
  have rest: "coherent items" using Cons.prems(1)
    by (auto simp: coherent_def List.map_filter_simps split: option.splits)
  show ?case
  proof (cases "the_impl tr self x")
    case None
    with Cons rest show ?thesis by auto
  next
    case (Some j)
    with Cons.prems have "it = x"
      by (fastforce simp: the_impl_key coherent_def List.map_filter_simps set_map_filter)
    with Cons.prems show ?thesis by simp
  qed
qed simp

lemma mset_map_filter: "mset xs = mset ys \<Longrightarrow> mset (List.map_filter f xs) = mset (List.map_filter f ys)"
  by (simp add: List.map_filter_def mset_filter)

lemma coherent_mset: "mset xs = mset ys \<Longrightarrow> coherent xs = coherent ys"
  unfolding coherent_def by (intro mset_eq_imp_distinct_iff mset_map_filter)

lemma find_map_SomeD: "find_map f xs = Some y \<Longrightarrow> \<exists>x \<in> set xs. f x = Some y"
  by (induction xs) (auto split: option.splits)

lemma call_transfer:
  assumes "coherent items" "\<forall>it \<in> set its. impl_key it \<noteq> None \<longrightarrow> it \<in> set items"
    and "call U its tr self n arg s = Some r"
  shows "call U items tr self n arg s = Some r"
proof -
  from assms(3) obtain imp where imp: "find_map (the_impl tr self) its = Some imp"
    by (auto simp: call_def bind_eq_Some_conv)
  then obtain it where "it \<in> set its" "the_impl tr self it = Some imp" by (auto dest: find_map_SomeD)
  with assms(1,2) have "find_map (the_impl tr self) items = Some imp"
    by (auto simp: the_impl_key intro!: find_coherent)
  with imp assms(3) show ?thesis by (simp add: call_def)
qed

lemma find_arm:
  assumes "find (\<lambda>(v, i, stmts). i = j) methods = Some (v, i, stmts)"
  shows "arm_ident methods j = Some v" "arm_stmts methods j = Some stmts"
  using assms by (induction methods) (auto simp: arm_ident_def arm_stmts_def split: if_splits)

lemma coherent_messages:
  fixes items :: "'b item list"
  assumes "mset items = mset (kept @ map (mod_from menum) ps @ rest)" "coherent items"
  shows "distinct (map p_ident ps)"
proof -
  have key: "impl_key (mod_from menum p :: 'b item) = Some
      (Path False [Segment ''From'' (AngleArgs [TyPath (Path False [Segment (p_ident p) NoArgs])])],
       TyPath (type_path_from_idents [menum]))" for p
    by (simp add: mod_from_def from_impl_def type_path_from_idents_def)
  have "List.map_filter impl_key (map (mod_from menum :: _ \<Rightarrow> 'b item) ps) =
      map (\<lambda>p. the (impl_key (mod_from menum p :: 'b item))) ps"
    by (induction ps) (simp_all add: List.map_filter_simps key)
  moreover have "coherent (kept @ map (mod_from menum) ps @ rest)"
    using assms coherent_mset by blast
  ultimately have "distinct (map (\<lambda>p. the (impl_key (mod_from menum p :: 'b item))) ps)"
    by (simp add: coherent_def map_filter_append)
  then show ?thesis by (simp add: distinct_map key inj_on_def)
qed

text \<open>The \<open>impl\<close> block the module says the same as, and what its implementations are in the module.\<close>

lemma mod_expands:
  assumes "actor_mod parse (Some items) = Some e" and "coherent (mod_items e)"
    and "d \<in> set (message_decls items)" and "handle_methods items = Some methods"
    and "find (\<lambda>(v, i, stmts). i = decl_ident d) methods = Some (var, i, UserBlock b)"
    and "actor = decl_ident (last (actor_decls items))"
  shows "\<exists>imp hs its h. expands [] imp actor hs its \<and> h \<in> set hs
     \<and> message_var_ident h = var \<and> method_block h = UserBlock b
     \<and> message_type_path h = type_path_from_idents [decl_ident d] \<and> (is_async h \<longleftrightarrow> \<not> snd (message_text d))
     \<and> (\<forall>it \<in> set its. impl_key it \<noteq> None \<longrightarrow> it \<in> set (mod_items e))"
proof -
  define c where "c = mod_collected parse items"
  define p where "p = the_param parse d"
  define h where "h = mod_info methods p"
  have p: "p \<in> set (params c)" "p_ident p = decl_ident d" "p_blocking p = snd (message_text d)"
    using assms(3) by (auto simp: p_def c_def the_param_def)
  have a: "actor_ident_str c = actor"
    and e: "mod_items e = map strip_item (without_handlers items) @ mod_generated c methods"
    using assms(1,4,6) by (auto simp: actor_mod_eq c_def split: if_splits)
  define its where "its = the (handler_v2 [] (mod_as_impl c methods))"
  note its = its_def [unfolded handler_v2_mod option.sel a]
  have "distinct (map p_ident (params c))"
    using assms(2)
    by (rule coherent_messages [rotated, where menum = "actor @ ''Message''" and
        kept = "map strip_item (without_handlers items)" and
        rest = "map (mod_map_impl (actor @ ''Result'')) (params c) @ mod_tail c methods"])
      (simp add: e mod_generated_def mset_interleave a)
  then have "distinct (map mident (map (mod_info methods) (params c)))" by (simp add: o_def)
  then have "expands [] (mod_as_impl c methods) actor (map (mod_info methods) (params c)) its"
    by (simp add: expands_def info_of_mod its_def handler_v2_mod del: map_map)
      (simp add: mod_as_impl_def a)
  moreover have "h \<in> set (map (mod_info methods) (params c))" using p by (simp add: h_def)
  moreover have "message_var_ident h = var" "method_block h = UserBlock b"
    "message_type_path h = type_path_from_idents [decl_ident d]" "is_async h \<longleftrightarrow> \<not> snd (message_text d)"
    using find_arm [OF assms(5)] p by (simp_all add: h_def mod_info_def)
  moreover have "\<forall>it \<in> set its. impl_key it \<noteq> None \<longrightarrow> it \<in> set (mod_items e)"
    by (auto simp: its e mod_generated_def mod_tail_def a dummy_hooks_def)
  ultimately show ?thesis by blast
qed

lemma mod_runs_method:
  assumes "actor_mod parse (Some items) = Some e" and "coherent (mod_items e)"
    and "d \<in> set (message_decls items)" and "handle_methods items = Some methods"
    and "find (\<lambda>(v, i, stmts). i = decl_ident d) methods = Some (var, i, UserBlock b)"
    and "actor = decl_ident (last (actor_decls items))"
    and "m = VEnum (actor @ ''Message'') (decl_ident d) v" and "env = [(var, v), (''msg'', m)]"
    and "(out, s') =
       (if snd (message_text d)
        then (case spawn_blocking U (run_blocking U b env) of Inr r \<Rightarrow> VOk (VUser r) | Inl err \<Rightarrow> VErr err, s)
        else (VOk (VUser (fst (run_async U b env s))), snd (run_async U b env s)))"
  shows "\<exists>res. call_from U (mod_items e) (actor @ ''Message'') (type_path_from_idents [decl_ident d]) v s
         = Some (m, s)
     \<and> call_handle U (mod_items e) actor m s = Some (res, s')
     \<and> call_map U (mod_items e) (actor @ ''Result'') (type_path_from_idents [decl_ident d]) res s'
         = Some (out, s')"
proof -
  from mod_expands [OF assms(1-6)] obtain imp hs its h where ex: "expands [] imp actor hs its" and h: "h \<in> set hs"
    and hs: "message_var_ident h = var" "method_block h = UserBlock b"
      "message_type_path h = type_path_from_idents [decl_ident d]" "is_async h \<longleftrightarrow> \<not> snd (message_text d)"
    and sub: "\<forall>it \<in> set its. impl_key it \<noteq> None \<longrightarrow> it \<in> set (mod_items e)" by blast
  have mi: "mident h = decl_ident d" by (simp add: hs(3))
  note tr = call_transfer [OF assms(2) sub]
  show ?thesis
  proof (cases "snd (message_text d)")
    case True
    with call_from_eq [OF ex h, of U v s] call_handle_eq [OF ex h, of U v s]
      call_map_eq [OF ex h, of U _ s] eval_blocking_arm [of h b U] assms(7,8,9) hs mi
    show ?thesis
      unfolding call_from_def call_handle_def call_map_def
      by (intro exI conjI tr) auto
  next
    case False
    with call_from_eq [OF ex h, of U v s] call_handle_eq [OF ex h, of U v s]
      call_map_eq [OF ex h, of U _ s'] eval_async_arm [of h b U] assms(7,8,9) hs mi
    show ?thesis
      unfolding call_from_def call_handle_def call_map_def
      by (intro exI conjI tr) auto
  qed
qed

text \<open>
  The code \<open>actor_mod\<close> generates runs the handlers. In a module that Rust's coherence rule accepts, a
  message converted, handled and mapped back runs exactly the body of the first handler whose second
  argument has its type: an asynchronous one on the actor, answering \<open>Ok\<close> of its result, and one
  whose message is marked \<open>blocking\<close> through \<open>actix_send_blocking\<close>.
\<close>

theorem actor_mod_runs_method:
  assumes "actor_mod parse (Some items) = Some e" and "coherent (mod_items e)"
    and "d \<in> set (message_decls items)" and "handle_methods items = Some methods"
    and "find (\<lambda>(v, i, stmts). i = decl_ident d) methods = Some (var, i, UserBlock b)"
    and "actor = decl_ident (last (actor_decls items))"
    and "m = VEnum (actor @ ''Message'') (decl_ident d) v" and "env = [(var, v), (''msg'', m)]"
    and "(out, s') =
       (if snd (message_text d)
        then (case spawn_blocking U (run_blocking U b env) of Inr r \<Rightarrow> VOk (VUser r) | Inl err \<Rightarrow> VErr err, s)
        else (VOk (VUser (fst (run_async U b env s))), snd (run_async U b env s)))"
  shows "\<exists>res. call_from U (mod_items e) (actor @ ''Message'') (type_path_from_idents [decl_ident d]) v s
         = Some (m, s)
     \<and> call_handle U (mod_items e) actor m s = Some (res, s')
     \<and> call_map U (mod_items e) (actor @ ''Result'') (type_path_from_idents [decl_ident d]) res s'
         = Some (out, s')"
  by (rule mod_runs_method [OF assms])

subsection \<open>Attributes and panics\<close>

text \<open>
  A message's attributes leave its struct. Every struct and alias under \<open>#[message]\<close> stays in the module
  with no attribute at all, and the message enum gets the attributes of all of them, the message
  attributes taken out: a \<open>#[derive(Clone)]\<close> on a message is lost there, and with two such messages
  the enum derives twice.
\<close>

theorem message_attributes_moved:
  assumes "actor_mod parse (Some items) = Some e"
  shows "\<exists>menum rest. mod_items e = map strip_item (without_handlers items) @ rest
     \<and> EnumItem menum \<in> set rest
     \<and> map fst (variants menum) = map decl_ident (message_decls items)
     \<and> enum_attrs menum =
         filter (\<lambda>a. \<not> first_segment_is ''message'' (attr_path a))
           (concat (map decl_attrs (message_decls items)))"
proof -
  define c where "c = mod_collected parse items"
  from assms obtain methods where e: "mod_items e = map strip_item (without_handlers items) @ mod_generated c methods"
    by (auto simp: actor_mod_eq c_def)
  have "map (fst \<circ> (\<lambda>p. (p_ident p, TyPath (type_path_from_idents [p_ident p])))) (params c)
      = map decl_ident (message_decls items)"
    by (simp add: c_def the_param_def o_def)
  then show ?thesis
    unfolding e by (auto simp: mod_generated_def mod_tail_def enum_attributes_def c_def the_param_def)
qed

lemma map_all_eq_None: "map_all f xs = None \<longleftrightarrow> (\<exists>x \<in> set xs. f x = None)"
  by (induction xs) (auto split: option.splits)

text \<open>
  C35. \<open>actor_mod\<close> panics exactly when the module has no body; when the text of a message's result, as it is
  cut out of the attribute, is not a type; when a handler's second argument is missing or does not have
  a path as its type; when nothing but messages is marked \<open>#[actor]\<close>; or when a message has no handler.
\<close>

theorem actor_mod_panics_iff:
  "actor_mod parse content = None \<longleftrightarrow>
     (case content of
        None \<Rightarrow> True
      | Some items \<Rightarrow>
          (\<exists>d \<in> set (message_decls items). parse (fst (message_text d)) = None) \<or>
          (\<exists>m \<in> set (List.map_filter handler_method items). second_arg (m_inputs m) = None) \<or>
          actor_decls items = [] \<or> decl_ident (last (actor_decls items)) = [] \<or>
          (\<exists>d \<in> set (message_decls items). \<not> (\<exists>m \<in> set (List.map_filter handler_method items).
             \<exists>var. second_arg (m_inputs m) = Some (var, decl_ident d))))"
proof (cases content)
  case (Some items)
  have types_parse: "types_parse parse items \<longleftrightarrow> \<not> (\<exists>d \<in> set (message_decls items). parse (fst (message_text d)) = None)"
    by (simp add: types_parse_def)
  have methods: "handle_methods items = None \<longleftrightarrow>
      (\<exists>m \<in> set (List.map_filter handler_method items). second_arg (m_inputs m) = None)"
    by (simp add: handle_methods_def map_all_eq_None handle_method_def)
  have arm: "arm_ident methods i = None \<longleftrightarrow>
      (\<forall>m \<in> set (List.map_filter handler_method items). \<forall>var. second_arg (m_inputs m) \<noteq> Some (var, i))"
    if "handle_methods items = Some methods" for methods i
    using map_all_Some [OF that [unfolded handle_methods_def]]
    by (fastforce simp: arm_ident_def find_map_None handle_method_def)
  have "actor_mod parse (Some items) = None \<longleftrightarrow> (\<forall>e. actor_mod parse (Some items) \<noteq> Some e)"
    by auto
  also have "\<dots> \<longleftrightarrow> \<not> types_parse parse items \<or> handle_methods items = None
      \<or> actor_decls items = [] \<or> decl_ident (last (actor_decls items)) = []
      \<or> (\<exists>methods. handle_methods items = Some methods \<and>
           (\<exists>d \<in> set (message_decls items). arm_ident methods (decl_ident d) = None))"
    unfolding actor_mod_eq by (auto split: if_splits)
  also have "\<dots> \<longleftrightarrow> \<not> types_parse parse items \<or> handle_methods items = None
      \<or> actor_decls items = [] \<or> decl_ident (last (actor_decls items)) = []
      \<or> (\<exists>d \<in> set (message_decls items). \<forall>m \<in> set (List.map_filter handler_method items).
             \<forall>var. second_arg (m_inputs m) \<noteq> Some (var, decl_ident d))"
    using arm by (cases "handle_methods items") auto
  finally show ?thesis by (simp add: Some types_parse methods)
qed (simp add: actor_mod_def)

subsection \<open>The theorems at work\<close>

text \<open>
  A module with an actor \<open>Counter\<close>, a message \<open>Add\<close> that derives \<open>Debug\<close>, an alias \<open>Work\<close> marked
  blocking, and their handlers. A block is its number; every text is a type.
\<close>

definition demo_decl :: "attribute list \<Rightarrow> ident \<Rightarrow> item_decl" where
  "demo_decl attrs i = \<lparr>decl_attrs = attrs, decl_ident = i, decl_rest = []\<rparr>"

definition demo_message :: "string \<Rightarrow> attribute" where
  "demo_message tokens = \<lparr>attr_path = path_from_ident_str [''message''], attr_tokens = tokens\<rparr>"

definition demo_derive :: attribute where
  "demo_derive = \<lparr>attr_path = path_from_ident_str [''derive''], attr_tokens = ''(Debug)''\<rparr>"

definition demo_handler :: "ident \<Rightarrow> nat \<Rightarrow> nat item" where
  "demo_handler msg b =
     ImplItem \<lparr>impl_attrs = [attr_from_ident_str [''handler'']],
       impl_trait = Some (path_from_ident_str [''Handler'']),
       impl_self = TyPath (type_path_from_idents [''Counter'']),
       impl_items = [Method (demo_method True msg b)]\<rparr>"

definition demo_module :: "nat item list" where
  "demo_module =
     [StructItem (demo_decl [attr_from_ident_str [''actor'']] ''Counter''),
      StructItem (demo_decl [demo_message ''(result = \"u32\")'', demo_derive] ''Add''),
      TypeItem (demo_decl [demo_message ''(result = \"u32\", blocking)''] ''Work''),
      demo_handler ''Work'' 1, demo_handler ''Add'' 0]"

definition demo_parse :: "string \<Rightarrow> ty option" where
  "demo_parse s = Some (TyOther s)"

definition demo_entries :: "nat handle_method list" where
  "demo_entries = [(''m'', ''Work'', UserBlock 1), (''m'', ''Add'', UserBlock 0)]"

lemma demo_texts:
  "message_attr ''(result = \"u32\")'' = (''u32'', False)"
  "message_attr ''(result = \"u32\", blocking)'' = (''u32'', True)"
  by code_simp+

lemma demo_reads:
  "message_decls demo_module =
     [demo_decl [demo_message ''(result = \"u32\")'', demo_derive] ''Add'',
      demo_decl [demo_message ''(result = \"u32\", blocking)''] ''Work'']"
  "actor_decls demo_module = [demo_decl [attr_from_ident_str [''actor'']] ''Counter'']"
  "handle_methods demo_module = Some demo_entries"
  by (simp_all add: demo_module_def demo_handler_def demo_method_def demo_decl_def demo_message_def
      demo_derive_def demo_entries_def is_message_def syntax_defs handle_methods_def handle_method_def
      List.map_filter_simps)

lemma demo_mod: "\<exists>e. actor_mod demo_parse (Some demo_module) = Some e"
  by (simp add: actor_mod_eq demo_reads types_parse_def demo_parse_def demo_entries_def arm_ident_def demo_decl_def)

theorem actor_mod_like_handler_v2_witness:
  "\<exists>e methods menum renum gen. actor_mod demo_parse (Some demo_module) = Some e
     \<and> handler_v2 [] (mod_as_impl (mod_collected demo_parse demo_module) methods)
         = Some (mod_hooks e # EnumItem menum # EnumItem renum # gen)
     \<and> mset (mod_items e) =
         mset (map strip_item (without_handlers demo_module)) +
         mset (EnumItem (menum\<lparr>enum_attrs := [demo_derive]\<rparr>) # EnumItem renum # gen)"
proof -
  have "enum_attributes (concat (map decl_attrs (message_decls demo_module))) = [demo_derive]"
    by (simp add: demo_reads demo_decl_def enum_attributes_def demo_message_def demo_derive_def syntax_defs)
  with actor_mod_like_handler_v2 [of demo_parse demo_module] demo_mod show ?thesis by fastforce
qed

theorem message_attributes_moved_witness:
  "\<exists>e menum. actor_mod demo_parse (Some demo_module) = Some e
     \<and> StructItem (demo_decl [] ''Add'') \<in> set (mod_items e)
     \<and> EnumItem menum \<in> set (mod_items e) \<and> enum_attrs menum = [demo_derive]"
proof -
  obtain e where e: "actor_mod demo_parse (Some demo_module) = Some e" using demo_mod ..
  have "StructItem (demo_decl [] ''Add'') \<in> set (map strip_item (without_handlers demo_module))"
    by (simp add: demo_module_def without_handlers_def strip_decl_def is_message_def demo_decl_def
        demo_message_def syntax_defs)
  with message_attributes_moved [OF e] e show ?thesis
    by (fastforce simp: demo_reads demo_decl_def demo_message_def demo_derive_def syntax_defs)
qed

lemma generated_keys:
  "List.map_filter impl_key (mod_generated c methods) =
     concat (map (\<lambda>p.
       [(Path False [Segment ''From'' (AngleArgs [TyPath (type_path_from_idents [p_ident p])])],
         TyPath (type_path_from_idents [actor_ident_str c @ ''Message''])),
        (Path False [Segment ''MapResult''
           (AngleArgs [TyPath (type_path_from_idents [actor_ident_str c @ ''Result''])])],
         TyPath (type_path_from_idents [p_ident p]))]) (params c)) @
     [(path_from_ident_str [''Handler''], TyPath (type_path_from_idents [actor_ident_str c]))]"
proof -
  have "List.map_filter impl_key (concat (map (\<lambda>p. [mod_from menum p, mod_map_impl renum p]) ps)) =
     concat (map (\<lambda>p.
       [(Path False [Segment ''From'' (AngleArgs [TyPath (type_path_from_idents [p_ident p])])],
         TyPath (type_path_from_idents [menum])),
        (Path False [Segment ''MapResult'' (AngleArgs [TyPath (type_path_from_idents [renum])])],
         TyPath (type_path_from_idents [p_ident p]))]) ps)" for menum renum ps
    by (induction ps) (simp_all add: List.map_filter_simps mod_from_def from_impl_def mod_map_impl_def map_result_path_def)
  then show ?thesis
    by (simp add: mod_generated_def mod_tail_def map_filter_append List.map_filter_simps handler_impl_def
        actor_info_new_def Let_def)
qed

lemma demo_coherent:
  assumes "actor_mod demo_parse (Some demo_module) = Some e"
  shows "coherent (mod_items e)"
proof -
  let ?c = "mod_collected demo_parse demo_module"
  from assms obtain methods where
    e: "mod_items e = map strip_item (without_handlers demo_module) @ mod_generated ?c methods"
    by (auto simp: actor_mod_eq)
  have "List.map_filter impl_key (map strip_item (without_handlers demo_module)) = []"
    by (simp add: demo_module_def without_handlers_def demo_handler_def is_ident_def attr_from_ident_str_def
        path_from_ident_str_def List.map_filter_simps)
  then show ?thesis
    by (simp add: coherent_def e map_filter_append generated_keys demo_reads the_param_def demo_decl_def
        type_path_from_idents_def path_from_ident_str_def)
qed

theorem actor_mod_runs_method_witness:
  "\<exists>e m res. actor_mod demo_parse (Some demo_module) = Some e
     \<and> call_from demo_user (mod_items e) ''CounterMessage'' (type_path_from_idents [''Add'']) (VUser 5) 10
         = Some (m, 10)
     \<and> call_handle demo_user (mod_items e) ''Counter'' m 10 = Some (res, 15)
     \<and> call_map demo_user (mod_items e) ''CounterResult'' (type_path_from_idents [''Add'']) res 15
         = Some (VOk (VUser 15), 15)"
proof -
  obtain e where e: "actor_mod demo_parse (Some demo_module) = Some e" using demo_mod ..
  let ?d = "demo_decl [demo_message ''(result = \"u32\")'', demo_derive] ''Add''"
  have mt: "message_text ?d = (''u32'', False)"
    by (simp add: message_text_def demo_decl_def demo_message_def syntax_defs demo_texts)
  let ?m = "VEnum (''Counter'' @ ''Message'') (decl_ident ?d) (VUser 5)"
  let ?env = "[(''m'', VUser 5), (''msg'', ?m)]"
  have d: "?d \<in> set (message_decls demo_module)" by (simp add: demo_reads)
  have f: "find (\<lambda>(v, i, stmts). i = decl_ident ?d) demo_entries = Some (''m'', ''Add'', UserBlock 0)"
    by (simp add: demo_entries_def demo_decl_def)
  have a: "''Counter'' = decl_ident (last (actor_decls demo_module))"
    by (simp add: demo_reads demo_decl_def)
  have "(VOk (VUser 15), 15) =
     (if snd (message_text ?d)
      then (case spawn_blocking demo_user (run_blocking demo_user 0 ?env) of
              Inr r \<Rightarrow> VOk (VUser r) | Inl err \<Rightarrow> VErr err, 10)
      else (VOk (VUser (fst (run_async demo_user 0 ?env 10))), snd (run_async demo_user 0 ?env 10)))"
    by (simp add: mt demo_user_def)
  from actor_mod_runs_method [OF e demo_coherent [OF e] d demo_reads(3) f a refl refl this] e
  show ?thesis by (auto simp: demo_decl_def)
qed

end
