(* ===== verification/Stream_System.thy ===== *)
theory Stream_System
  imports Actor_Streams Client_Programs
begin

section \<open>A stream and other callers over one actor (\<open>src/address.rs\<close>, \<open>src/stream.rs\<close>)\<close>

text \<open>
  \<open>Actor_Streams\<close> has the stream adaptor over any channel. Here the channel is that of an actor in its
  world, and other callers send to the same actor while the stream is polled.
\<close>

text \<open>
  The operations of the stream on the world of \<open>Actor_System\<close>. Polling the receiver of a oneshot channel
  finds the answer, or, once the actor has ended, that the sender was dropped.
\<close>

definition world_stream_env ::
  "(('a, 'm, 'r, 'f, 'ty, 'v) world, 'm, 'r, 'f) stream_env" where
  "world_stream_env =
     \<lparr>se_oneshot = (\<lambda>w. (w_next w, w\<lparr>w_next := Suc (w_next w)\<rparr>)),
      se_try_send = world_send,
      se_poll_rx = (\<lambda>tx w. case map_of (w_replies w) tx of
                       Some (ReplyResult r) \<Rightarrow> Ready (Inr r)
                     | Some _ \<Rightarrow> Ready (Inl ())
                     | None \<Rightarrow> if w_ended w then Ready (Inl ()) else Pending)\<rparr>"

lemma world_stream_env_simps [simp]:
  "se_oneshot world_stream_env w = (w_next w, w\<lparr>w_next := Suc (w_next w)\<rparr>)"
  "se_try_send world_stream_env m w = world_send m w"
  by (simp_all add: world_stream_env_def)

text \<open>\<open>send_stream\<close> and \<open>send_skip_stream\<close>: the stream, and the channel of the sender it holds.\<close>

definition address_send_stream :: "('ty, 'v, 'm) address \<Rightarrow> 's \<Rightarrow> 's actor_stream \<times> nat" where
  "address_send_stream self s = (actor_stream_new s, addr_tx self)"

definition address_send_skip_stream :: "('ty, 'v, 'm) address \<Rightarrow> 's \<Rightarrow> 's skip_stream \<times> nat" where
  "address_send_skip_stream self s = (skip_stream_new s, addr_tx self)"

subsection \<open>Polls, sends and turns in any order\<close>

text \<open>
  What a scheduler can do next: poll the stream, let the actor take what is queued, or let another
  caller's \<open>send\<close> put its message into the channel, whose receiver it polls later. A run gives what the
  stream yielded and the oneshot channels of the other callers.
\<close>

datatype 'm stream_move = PollStream | ActorTurn | CallerSend 'm

fun stream_play ::
  "('a, 'm, 'r, 'f, 'ty, 'v) actor_impl \<Rightarrow> ('s \<Rightarrow> 'i option poll \<times> 's) \<Rightarrow> ('i \<Rightarrow> 'm)
     \<Rightarrow> ('r \<Rightarrow> 'o send_result option) \<Rightarrow> 'm stream_move list \<Rightarrow> 's actor_stream
     \<Rightarrow> ('a, 'm, 'r, 'f, 'ty, 'v) world
     \<Rightarrow> 'o send_result option list \<times> oneshot list \<times> 's actor_stream
          \<times> ('a, 'm, 'r, 'f, 'ty, 'v) world" where
  "stream_play impl nxt into mapr [] s w = ([], [], s, w)"
| "stream_play impl nxt into mapr (PollStream # mvs) s w =
     (let (p, s1, w1) = actor_stream_poll_next world_stream_env nxt into mapr s w;
          (outs, txs, s2, w2) = stream_play impl nxt into mapr mvs s1 w1
      in ((case p of Ready (Some x) \<Rightarrow> [x] | _ \<Rightarrow> []) @ outs, txs, s2, w2))"
| "stream_play impl nxt into mapr (ActorTurn # mvs) s w = stream_play impl nxt into mapr mvs s (world_run impl w)"
| "stream_play impl nxt into mapr (CallerSend m # mvs) s w =
     (let (tx, w1) = se_oneshot world_stream_env w;
          (_, w2) = se_try_send world_stream_env (Instant (InstantStatic (Some tx) m)) w1;
          (outs, txs, s2, w3) = stream_play impl nxt into mapr mvs s w2
      in (outs, tx # txs, s2, w3))"

fun caller_messages :: "'m stream_move list \<Rightarrow> 'm list" where
  "caller_messages [] = []"
| "caller_messages (CallerSend m # mvs) = m # caller_messages mvs"
| "caller_messages (_ # mvs) = caller_messages mvs"

text \<open>
  The reference: one handler called on one message after the other. The messages are logged as the
  channel took them, each with whether it came from the stream.
\<close>

fun outcomes :: "('m \<Rightarrow> 'a \<Rightarrow> 'r \<times> 'a) \<Rightarrow> 'm list \<Rightarrow> 'a \<Rightarrow> 'r list \<times> 'a" where
  "outcomes h [] a = ([], a)"
| "outcomes h (m # ms) a = (let (r, a1) = h m a; (rs, a2) = outcomes h ms a1 in (r # rs, a2))"

definition positions :: "bool \<Rightarrow> (bool \<times> 'm) list \<Rightarrow> nat list" where
  "positions b log = filter (\<lambda>i. fst (log ! i) = b) [0..<length log]"

lemma outcomes_append:
  "outcomes h (xs @ ys) a =
     (let (rs, a1) = outcomes h xs a; (rs', a2) = outcomes h ys a1 in (rs @ rs', a2))"
  by (induction xs arbitrary: a) (simp_all add: Let_def split_def)

lemma length_outcomes [simp]: "length (fst (outcomes h ms a)) = length ms"
  by (induction ms arbitrary: a) (simp_all add: Let_def split_def)

lemma outcomes_take_Suc:
  assumes "n < length ms"
  shows "h (ms ! n) (snd (outcomes h (take n ms) a)) =
     (fst (outcomes h ms a) ! n, snd (outcomes h (take (Suc n) ms) a))"
proof -
  have "ms = take n ms @ ms ! n # drop (Suc n) ms" using assms by (rule id_take_nth_drop)
  then have "fst (outcomes h ms a) = fst (outcomes h (take n ms) a) @
      fst (outcomes h (ms ! n # drop (Suc n) ms) (snd (outcomes h (take n ms) a)))"
    by (metis (no_types, lifting) outcomes_append split_def fst_conv Let_def)
  then have "fst (outcomes h ms a) ! n = fst (h (ms ! n) (snd (outcomes h (take n ms) a)))"
    using assms by (simp add: nth_append Let_def split_def)
  then show ?thesis
    using assms by (simp add: take_Suc_conv_app_nth outcomes_append Let_def split_def prod_eq_iff)
qed

lemma outcomes_keep:
  "i < length ms \<Longrightarrow> fst (outcomes h (ms @ ms') a) ! i = fst (outcomes h ms a) ! i"
  by (simp add: outcomes_append Let_def split_def nth_append)

lemma positions_snoc [simp]:
  "positions b (log @ [x]) = positions b log @ (if fst x = b then [length log] else [])"
  by (auto simp: positions_def nth_append intro!: filter_cong)

lemma positions_other: "set ys \<subseteq> {\<not> b} \<times> UNIV \<Longrightarrow> positions b (xs @ ys) = positions b xs"
proof (induction ys rule: rev_induct)
  case (snoc y ys)
  then show ?case by (auto simp flip: append_assoc)
qed simp

lemma positions_filter: "map (\<lambda>i. snd (log ! i)) (positions b log) = map snd (filter (\<lambda>e. fst e = b) log)"
proof (induction log rule: rev_induct)
  case (snoc x xs)
  have "map (\<lambda>i. snd ((xs @ [x]) ! i)) (positions b xs) = map (\<lambda>i. snd (xs ! i)) (positions b xs)"
    by (auto simp: nth_append positions_def)
  with snoc show ?case by simp
qed (simp add: positions_def)

lemma positions_Nil [simp]: "positions b [] = []"
  by (simp add: positions_def)

lemma positions_less: "i \<in> set (positions b log) \<Longrightarrow> i < length log"
  by (simp add: positions_def)

subsection \<open>The log of the channel\<close>

text \<open>
  The world after the actor has handled the first \<open>n\<close> messages of the log: the rest are queued, and
  message \<open>i\<close> is answered on the oneshot channel \<open>i\<close>.
\<close>

definition world_log ::
  "('a, 'm, 'r, 'f, 'ty, 'v) actor_impl \<Rightarrow> 'a \<Rightarrow> 'm list \<Rightarrow> nat \<Rightarrow> ('a, 'm, 'r, 'f, 'ty, 'v) world \<Rightarrow> bool" where
  "world_log impl a ms n w \<longleftrightarrow>
     n \<le> length ms \<and> \<not> w_ended w \<and> w_next w = length ms \<and>
     w_queue w = map (\<lambda>i. Instant (InstantStatic (Some i) (ms ! i))) [n..<length ms] \<and>
     w_replies w = map (\<lambda>i. (i, ReplyResult (fst (outcomes (impl_handle impl) ms a) ! i))) [0..<n] \<and>
     the_actor w = snd (outcomes (impl_handle impl) (take n ms) a)"

lemma world_log_start: "world_log impl (impl_on_start impl a) [] 0 (world_start impl cfg a)"
  by (simp add: world_log_def world_start_def context_start_def context_new_def split_def)

lemma recv_loop_log:
  assumes "n \<le> length ms" and "actor c = snd (outcomes (impl_handle impl) (take n ms) a)"
  shows "recv_loop impl open_rx (map (\<lambda>i. Some (Instant (InstantStatic (Some i) (ms ! i)))) [n..<length ms]) sh c =
     (Blocked, [], sh, c\<lparr>actor := snd (outcomes (impl_handle impl) ms a)\<rparr>,
      map (\<lambda>i. OneshotSend i (ReplyResult (fst (outcomes (impl_handle impl) ms a) ! i))) [n..<length ms])"
  using assms
proof (induction "length ms - n" arbitrary: n c)
  case (Suc k)
  then have n: "n < length ms" by simp
  note out = outcomes_take_Suc [OF n, of "impl_handle impl" a]
  from Suc.hyps(2) have "k = length ms - Suc n" by simp
  from Suc.hyps(1) [OF this, of "c\<lparr>actor := snd (outcomes (impl_handle impl) (take (Suc n) ms) a)\<rparr>"] n out Suc.prems(2)
  show ?case by (simp add: upt_conv_Cons)
qed simp

lemma replies_map_send [simp]: "replies (map (\<lambda>i. OneshotSend (f i) (g i)) xs) = map (\<lambda>i. (f i, g i)) xs"
  by (induction xs) simp_all

lemma world_log_turn:
  assumes "world_log impl a ms n w"
  shows "world_log impl a ms (length ms) (world_run impl w)"
proof -
  from assms have n: "n \<le> length ms" by (simp add: world_log_def)
  then have "[0..<n] @ [n..<length ms] = [0..<length ms]" by (metis le0 le_Suc_ex upt_add_eq_append)
  then have keys: "map f [0..<n] @ map f [n..<length ms] = map f [0..<length ms]" for f :: "nat \<Rightarrow> 'z"
    by (metis map_append)
  show ?thesis
    using assms recv_loop_log [OF n, of "w_actor w" impl a "\<lambda>_. True" "w_shared w"]
    by (simp add: world_log_def world_run_def Let_def comp_def keys)
qed

abbreviation log_sent :: "'m \<Rightarrow> ('a, 'm, 'r, 'f, 'ty, 'v) world \<Rightarrow> ('a, 'm, 'r, 'f, 'ty, 'v) world" where
  "log_sent m w \<equiv> w\<lparr>w_next := Suc (w_next w), w_queue := w_queue w @ [Instant (InstantStatic (Some (w_next w)) m)]\<rparr>"

lemma world_log_send:
  assumes "world_log impl a ms n w"
  shows "world_send (Instant (InstantStatic (Some (w_next w)) m)) (w\<lparr>w_next := Suc (w_next w)\<rparr>) = (Ok (), log_sent m w)"
    and "world_log impl a (ms @ [m]) n (log_sent m w)"
  using assms by (auto simp: world_log_def world_send_def outcomes_keep nth_append)

lemma map_of_upt: "map_of (map (\<lambda>i. (i, g i)) [0..<n]) i = (if i < n then Some (g i) else None)"
  by (simp add: map_of_map_restrict)

lemma world_log_rx:
  "world_log impl a ms n w \<Longrightarrow> se_poll_rx world_stream_env i w =
     (if i < n then Ready (Inr (fst (outcomes (impl_handle impl) ms a) ! i)) else Pending)"
  by (simp add: world_stream_env_def world_log_def map_of_upt)

lemma stream_send_log:
  assumes "world_log impl a ms n w"
  shows "stream_send world_stream_env mapr m w = (Pending, Some (length ms), log_sent m w)"
proof -
  have "n \<le> length ms" "w_next w = length ms" using assms by (simp_all add: world_log_def)
  then show ?thesis
    using world_log_send [OF assms, of m] world_log_rx [OF world_log_send(2) [OF assms, of m], of "length ms"]
    by (simp add: stream_send_def Let_def)
qed

text \<open>
  What the stream has done, against the log: it sent the first items of its source, in order, and
  yielded the outcomes of all of them but the one it may be waiting for.
\<close>

definition stream_log ::
  "('a, 'm, 'r, 'f, 'ty, 'v) actor_impl \<Rightarrow> 'a \<Rightarrow> ('i \<Rightarrow> 'm) \<Rightarrow> ('r \<Rightarrow> 'o send_result option) \<Rightarrow> 'i list
     \<Rightarrow> (bool \<times> 'm) list \<Rightarrow> 'o send_result option list \<Rightarrow> 'i poll list actor_stream \<Rightarrow> bool" where
  "stream_log impl a into mapr items log outs s \<longleftrightarrow>
     map (\<lambda>i. snd (log ! i)) (positions True log) = map into (take (length (positions True log)) items) \<and>
     script_items (stream s) = drop (length (positions True log)) items \<and>
     outs = map (\<lambda>i. mapr (fst (outcomes (impl_handle impl) (map snd log) a) ! i))
              (take (length outs) (positions True log)) \<and>
     (case as_state s of
        NextItem \<Rightarrow> length (positions True log) = length outs
      | LastItem tx \<Rightarrow> length (positions True log) = Suc (length outs) \<and> tx = last (positions True log))"

lemma stream_log_new: "stream_log impl a into mapr (script_items ps) [] [] (actor_stream_new ps)"
  by (simp add: stream_log_def actor_stream_new_def)

lemma log_nth_keep:
  "map (\<lambda>i. snd ((log @ ys) ! i)) (positions b log) = map (\<lambda>i. snd (log ! i)) (positions b log)"
  by (auto simp: nth_append dest: positions_less)

lemma outs_keep:
  "map (\<lambda>i. mapr (fst (outcomes h (map snd (log @ ys)) a) ! i)) (take k (positions b log)) =
   map (\<lambda>i. mapr (fst (outcomes h (map snd log) a) ! i)) (take k (positions b log))"
  by (auto simp: outcomes_keep dest!: in_set_takeD positions_less)

lemma stream_log_other:
  "stream_log impl a into mapr items log outs s \<Longrightarrow> stream_log impl a into mapr items (log @ [(False, m)]) outs s"
  unfolding stream_log_def by (simp only: positions_snoc fst_conv if_False append_Nil2 log_nth_keep outs_keep simp_thms)

text \<open>The stream yields the result it waited for, or sends its next item.\<close>

lemma stream_log_yield:
  assumes s: "stream_log impl a into mapr items log outs s" and wait: "as_state s = LastItem tx"
  shows "stream_log impl a into mapr items log
     (outs @ [mapr (fst (outcomes (impl_handle impl) (map snd log) a) ! tx)]) (s\<lparr>as_state := NextItem\<rparr>)"
proof -
  let ?sent = "positions True log" and ?f = "\<lambda>i. mapr (fst (outcomes (impl_handle impl) (map snd log) a) ! i)"
  have len: "length ?sent = Suc (length outs)" and tx: "tx = last ?sent"
    and outs: "outs = map ?f (take (length outs) ?sent)"
    using s wait by (simp_all add: stream_log_def)
  from len have "?sent \<noteq> []" by auto
  then have "map ?f ?sent = map ?f (butlast ?sent @ [last ?sent])" by simp
  also have "\<dots> = map ?f (take (length outs) ?sent) @ [?f tx]" by (simp add: butlast_conv_take len tx)
  also have "\<dots> = outs @ [?f tx]" by (simp only: outs [symmetric])
  finally show ?thesis using s len by (simp add: stream_log_def wait)
qed

lemma stream_log_take:
  assumes s: "stream_log impl a into mapr items log outs s"
    and next_item: "as_state s = NextItem" "stream s = Ready x # ps"
  shows "stream_log impl a into mapr items (log @ [(True, into x)]) outs
     (s\<lparr>stream := ps, as_state := LastItem (length log)\<rparr>)"
proof -
  let ?sent = "positions True log"
  have drop: "drop (length ?sent) items = x # script_items ps" and len: "length ?sent = length outs"
    and items: "map (\<lambda>i. snd (log ! i)) ?sent = map into (take (length ?sent) items)"
    using s next_item by (simp_all add: stream_log_def)
  have outs: "outs = map (\<lambda>i. mapr (fst (outcomes (impl_handle impl) (map snd log) a) ! i)) (take (length outs) ?sent)"
    using s by (simp only: stream_log_def)
  have snoc: "positions True (log @ [(True, into x)]) = ?sent @ [length log]" by simp
  have "map (\<lambda>i. snd ((log @ [(True, into x)]) ! i)) (?sent @ [length log]) =
      map into (take (Suc (length ?sent)) items)"
    using log_nth_keep [of log "[(True, into x)]" True] items by (simp add: take_drop_Cons(1) [OF drop])
  moreover have "take (length outs) (?sent @ [length log]) = take (length outs) ?sent" by (simp add: len)
  then have "outs = map (\<lambda>i. mapr (fst (outcomes (impl_handle impl) (map snd (log @ [(True, into x)])) a) ! i))
      (take (length outs) (?sent @ [length log]))"
    by (simp only: outs_keep outs [symmetric])
  moreover have "script_items ps = drop (Suc (length ?sent)) items" by (rule take_drop_Cons(2) [OF drop, symmetric])
  moreover have "stream (s\<lparr>stream := ps, as_state := LastItem (length log)\<rparr>) = ps"
    "as_state (s\<lparr>stream := ps, as_state := LastItem (length log)\<rparr>) = LastItem (length log)" by simp_all
  ultimately show ?thesis
    unfolding stream_log_def snoc
    by (simp only: length_append_singleton last_snoc len stream_state.case simp_thms)
qed

text \<open>One poll of the stream: what it adds to the log, and what it yields.\<close>

lemma stream_log_poll:
  assumes w: "world_log impl a (map snd log) n w" and s: "stream_log impl a into mapr items log outs s"
    and poll: "actor_stream_poll_next world_stream_env script_next into mapr s w = (p, s', w')"
  shows "\<exists>new. set new \<subseteq> {True} \<times> UNIV \<and> world_log impl a (map snd (log @ new)) n w' \<and>
     stream_log impl a into mapr items (log @ new) (outs @ (case p of Ready (Some x) \<Rightarrow> [x] | _ \<Rightarrow> [])) s'"
proof (cases "as_state s")
  case (LastItem tx)
  show ?thesis
    using poll LastItem w s stream_log_yield [OF s LastItem]
    by (cases "tx < n")
      (auto intro!: exI [of _ "[]"] simp: actor_stream_poll_next_def reply_item_def world_log_rx [OF w])
next
  case NextItem
  show ?thesis
  proof (cases "\<exists>x ps. stream s = Ready x # ps")
    case False
    then consider "stream s = []" | ps where "stream s = Pending # ps" by (metis poll.exhaust list.exhaust)
    then show ?thesis
      using s poll NextItem w
      by cases (auto intro!: exI [of _ "[]"] simp: stream_log_def actor_stream_poll_next_def)
  next
    case True
    then obtain x ps where next_item: "stream s = Ready x # ps" by blast
    have "p = Pending" "w' = log_sent (into x) w" "s' = s\<lparr>stream := ps, as_state := LastItem (length log)\<rparr>"
      using poll NextItem next_item stream_send_log [OF w, of mapr "into x"]
      by (simp_all add: actor_stream_poll_next_def)
    with world_log_send(2) [OF w, of "into x"] stream_log_take [OF s NextItem next_item] show ?thesis
      by (intro exI [of _ "[(True, into x)]"]) simp
  qed
qed

subsection \<open>A run\<close>

text \<open>What a run adds: the log grows by the stream's items and the callers' messages.\<close>

lemma stream_play_log:
  assumes "world_log impl a (map snd log) n w" and "stream_log impl a into mapr items log outs s"
    and "stream_play impl script_next into mapr mvs s w = (outs', txs, s', w')"
  shows "\<exists>new n'. world_log impl a (map snd (log @ new)) n' w' \<and>
     stream_log impl a into mapr items (log @ new) (outs @ outs') s' \<and>
     positions False (log @ new) = positions False log @ txs \<and>
     map snd (filter (\<lambda>e. \<not> fst e) new) = caller_messages mvs"
  using assms
proof (induction mvs arbitrary: log n outs outs' txs s w)
  case (Cons mv mvs)
  show ?case
  proof (cases mv)
    case PollStream
    obtain p s1 w1 where poll: "actor_stream_poll_next world_stream_env script_next into mapr s w = (p, s1, w1)"
      by (metis prod_cases3)
    from stream_log_poll [OF Cons.prems(1,2) poll] obtain new where
      new: "set new \<subseteq> {True} \<times> UNIV" "world_log impl a (map snd (log @ new)) n w1"
        "stream_log impl a into mapr items (log @ new) (outs @ (case p of Ready (Some x) \<Rightarrow> [x] | _ \<Rightarrow> [])) s1"
      by blast
    from Cons.prems(3) PollStream poll obtain outs2 where
      rest: "stream_play impl script_next into mapr mvs s1 w1 = (outs2, txs, s', w')"
      and outs': "outs' = (case p of Ready (Some x) \<Rightarrow> [x] | _ \<Rightarrow> []) @ outs2"
      by (auto simp: Let_def split: prod.splits)
    from Cons.IH [OF new(2,3) rest] obtain new2 n' where
      IH: "world_log impl a (map snd ((log @ new) @ new2)) n' w'"
        "stream_log impl a into mapr items ((log @ new) @ new2) ((outs @ (case p of Ready (Some x) \<Rightarrow> [x] | _ \<Rightarrow> [])) @ outs2) s'"
        "positions False ((log @ new) @ new2) = positions False (log @ new) @ txs"
        "map snd (filter (\<lambda>e. \<not> fst e) new2) = caller_messages mvs"
      by blast
    have "positions False (log @ new) = positions False log" using positions_other [of new False log] new(1) by simp
    moreover have "filter (\<lambda>e. \<not> fst e) new = []" using new(1) by (auto simp: filter_empty_conv)
    ultimately show ?thesis
      using IH PollStream outs' by (intro exI [of _ "new @ new2"] exI [of _ n']) simp
  next
    case ActorTurn
    then have "stream_play impl script_next into mapr mvs s (world_run impl w) = (outs', txs, s', w')"
      using Cons.prems(3) by simp
    from Cons.IH [OF world_log_turn [OF Cons.prems(1)] Cons.prems(2) this] ActorTurn show ?thesis by simp
  next
    case (CallerSend m)
    have next_free: "w_next w = length log" using Cons.prems(1) by (simp add: world_log_def)
    from Cons.prems(3) CallerSend world_log_send(1) [OF Cons.prems(1), of m] next_free obtain txs2 where
      rest: "stream_play impl script_next into mapr mvs s (log_sent m w) = (outs', txs2, s', w')"
      and txs: "txs = length log # txs2"
      by (auto simp: Let_def split: prod.splits)
    have "world_log impl a (map snd (log @ [(False, m)])) n (log_sent m w)"
      using world_log_send(2) [OF Cons.prems(1), of m] by simp
    from Cons.IH [OF this stream_log_other [OF Cons.prems(2)] rest] obtain new n' where
      "world_log impl a (map snd ((log @ [(False, m)]) @ new)) n' w'"
      "stream_log impl a into mapr items ((log @ [(False, m)]) @ new) (outs @ outs') s'"
      "positions False ((log @ [(False, m)]) @ new) = positions False (log @ [(False, m)]) @ txs2"
      "map snd (filter (\<lambda>e. \<not> fst e) new) = caller_messages mvs" by blast
    then show ?thesis
      using CallerSend txs by (intro exI [of _ "(False, m) # new"] exI [of _ n']) simp
  qed
qed (auto intro!: exI [of _ "[]"])

text \<open>
  C18. A stream sent through an actor while others send to it: nobody's results are crossed. However
  polls, sends and the actor's turns follow each other, there is one order of all messages in which
  the stream's are its first items and the other callers' are theirs, each in the order they were
  sent; the stream yields, in order, what the handler makes of its items at their places in that order,
  and is waiting for at most one more; and every other caller finds on its oneshot channel nothing but
  the outcome of its own message, which is there once the queue is empty.
\<close>

theorem stream_among_callers:
  assumes "stream_play impl script_next into mapr mvs (actor_stream_new ps) (world_start impl cfg a) = (outs, txs, s', w')"
  shows "\<exists>log. let ms = map snd log; rs = fst (outcomes (impl_handle impl) ms (impl_on_start impl a));
                   own = positions True log in
     map (\<lambda>i. ms ! i) own = map into (take (length own) (script_items ps))
     \<and> outs = map (\<lambda>i. mapr (rs ! i)) (take (length outs) own)
     \<and> length own \<in> {length outs, Suc (length outs)}
     \<and> txs = positions False log \<and> map (\<lambda>i. ms ! i) txs = caller_messages mvs
     \<and> (\<forall>tx \<in> set txs. se_poll_rx world_stream_env tx w' = Ready (Inr (rs ! tx))
           \<or> w_queue w' \<noteq> [] \<and> se_poll_rx world_stream_env tx w' = Pending)"
proof -
  let ?a = "impl_on_start impl a"
  have "world_log impl ?a (map snd []) 0 (world_start impl cfg a)" using world_log_start by simp
  from stream_play_log [OF this stream_log_new assms] obtain log n where
    w: "world_log impl ?a (map snd log) n w'"
    and s: "stream_log impl ?a into mapr (script_items ps) log outs s'"
    and pos: "positions False log = txs" "map snd (filter (\<lambda>e. \<not> fst e) log) = caller_messages mvs"
    by auto
  have nth: "map (\<lambda>i. map snd log ! i) (positions b log) = map (\<lambda>i. snd (log ! i)) (positions b log)" for b
    by (auto dest: positions_less)
  have "map (\<lambda>i. snd (log ! i)) (positions False log) = caller_messages mvs"
    using positions_filter [of log False] pos(2) by simp
  moreover have "se_poll_rx world_stream_env tx w' = Ready (Inr (fst (outcomes (impl_handle impl) (map snd log) ?a) ! tx))
      \<or> w_queue w' \<noteq> [] \<and> se_poll_rx world_stream_env tx w' = Pending" if "tx \<in> set txs" for tx
    using that pos(1) w world_log_rx [OF w, of tx] by (auto simp: world_log_def dest: positions_less)
  moreover have "length (positions True log) \<in> {length outs, Suc (length outs)}"
    using s by (auto simp: stream_log_def split: stream_state.splits)
  ultimately show ?thesis
    using s pos(1) unfolding stream_log_def Let_def by (intro exI [of _ log]) (auto simp: nth)
qed

subsection \<open>Streams that end, and streams that are not lists\<close>

lemma stream_play_append:
  "stream_play impl nxt into mapr (xs @ ys) s w =
     (let (outs, txs, s1, w1) = stream_play impl nxt into mapr xs s w;
          (outs', txs', s2, w2) = stream_play impl nxt into mapr ys s1 w1
      in (outs @ outs', txs @ txs', s2, w2))"
proof (induction xs arbitrary: s w)
  case (Cons x xs)
  then show ?case by (cases x) (simp_all add: Let_def split_def)
qed simp

text \<open>
  A round: the stream is polled, other callers send, the actor takes its turn, and the stream is polled
  again.
\<close>

definition stream_round :: "'m list \<Rightarrow> 'm stream_move list" where
  "stream_round ms = PollStream # map CallerSend ms @ [ActorTurn, PollStream]"

lemma callers_play:
  assumes "world_log impl a ms n w"
  shows "\<exists>txs w'. stream_play impl nxt into mapr (map CallerSend ks) s w = ([], txs, s, w')
     \<and> world_log impl a (ms @ ks) n w'"
  using assms
proof (induction ks arbitrary: ms w)
  case (Cons k ks)
  from Cons.IH [OF world_log_send(2) [OF Cons.prems, of k]] world_log_send(1) [OF Cons.prems, of k] show ?case
    by auto
qed simp

lemma round_yields:
  assumes w: "world_log impl a ms n w" and s: "as_state s = NextItem" "stream s = Ready x # ps"
  shows "\<exists>y txs w' ms'. stream_play impl script_next into mapr (stream_round ks) s w
       = ([y], txs, s\<lparr>stream := ps\<rparr>, w') \<and> world_log impl a ms' (length ms') w'"
proof -
  let ?s = "s\<lparr>stream := ps, as_state := LastItem (length ms)\<rparr>"
  have poll: "actor_stream_poll_next world_stream_env script_next into mapr s w = (Pending, ?s, log_sent (into x) w)"
    using s stream_send_log [OF w, of mapr "into x"] by (simp add: actor_stream_poll_next_def)
  obtain txs w2 where callers: "stream_play impl script_next into mapr (map CallerSend ks) ?s (log_sent (into x) w)
      = ([], txs, ?s, w2)" and w2: "world_log impl a ((ms @ [into x]) @ ks) n w2"
    using callers_play [OF world_log_send(2) [OF w]] by blast
  note w3 = world_log_turn [OF w2]
  have "se_poll_rx world_stream_env (length ms) (world_run impl w2) =
      Ready (Inr (fst (outcomes (impl_handle impl) ((ms @ [into x]) @ ks) a) ! length ms))"
    using world_log_rx [OF w3, of "length ms"] by simp
  then have "actor_stream_poll_next world_stream_env script_next into mapr ?s (world_run impl w2) =
      (Ready (Some (mapr (fst (outcomes (impl_handle impl) ((ms @ [into x]) @ ks) a) ! length ms))),
       s\<lparr>stream := ps\<rparr>, world_run impl w2)"
    using s by (simp add: actor_stream_poll_next_def reply_item_def)
  with poll callers have "stream_play impl script_next into mapr (stream_round ks) s w =
      ([mapr (fst (outcomes (impl_handle impl) ((ms @ [into x]) @ ks) a) ! length ms)], txs,
       s\<lparr>stream := ps\<rparr>, world_run impl w2)"
    by (simp add: stream_round_def stream_play_append)
  with w3 show ?thesis by blast
qed

lemma rounds_yield_all:
  assumes "world_log impl a ms (length ms) w" and "as_state s = NextItem" and "stream s = map Ready xs"
    and "length kss = length xs"
    and "stream_play impl script_next into mapr (concat (map stream_round kss)) s w = (outs, txs, s', w')"
  shows "length outs = length xs \<and> w_queue w' = []"
  using assms
proof (induction kss arbitrary: xs s w ms outs txs)
  case (Cons ks kss)
  then obtain x ys where xs: "xs = x # ys" "length kss = length ys" by (cases xs) auto
  with Cons.prems have "stream s = Ready x # map Ready ys" by simp
  from round_yields [OF Cons.prems(1,2) this] obtain y txs1 w1 ms1 where
    "stream_play impl script_next into mapr (stream_round ks) s w = ([y], txs1, s\<lparr>stream := map Ready ys\<rparr>, w1)"
    and w1: "world_log impl a ms1 (length ms1) w1" by blast
  with Cons.prems(5) obtain outs2 txs2 where "outs = y # outs2"
    "stream_play impl script_next into mapr (concat (map stream_round kss)) (s\<lparr>stream := map Ready ys\<rparr>) w1
       = (outs2, txs2, s', w')"
    by (auto simp: stream_play_append Let_def split: prod.splits)
  with Cons.IH [OF w1 _ _ xs(2), of "s\<lparr>stream := map Ready ys\<rparr>"] Cons.prems(2) xs show ?case by simp
qed (simp add: world_log_def)

text \<open>A source with a state of its own is one that follows a script, if each of its polls is.\<close>

definition map_stream :: "('s \<Rightarrow> 't) \<Rightarrow> 's actor_stream \<Rightarrow> 't actor_stream" where
  "map_stream f s = \<lparr>stream = f (stream s), as_state = as_state s\<rparr>"

lemma poll_next_map:
  assumes "\<And>s. nxt' (f s) = map_prod id f (nxt s)"
  shows "actor_stream_poll_next E nxt' into mapr (map_stream f s) w =
     map_prod id (map_prod (map_stream f) id) (actor_stream_poll_next E nxt into mapr s w)"
  by (auto simp: actor_stream_poll_next_def map_stream_def assms split: stream_state.split prod.split poll.split option.split)

lemma stream_play_map:
  assumes "\<And>s. nxt' (f s) = map_prod id f (nxt s)"
  shows "stream_play impl nxt' into mapr mvs (map_stream f s) w =
     map_prod id (map_prod id (map_prod (map_stream f) id)) (stream_play impl nxt into mapr mvs s w)"
proof (induction mvs arbitrary: s w)
  case (Cons mv mvs)
  then show ?case
    by (cases mv) (simp_all add: poll_next_map [of nxt' f nxt, OF assms] Let_def split_def)
qed simp

subsection \<open>The theorem at work\<close>

text \<open>An actor that sums what it gets: the stream's item comes first, the other caller's message second.\<close>

theorem stream_among_callers_witness:
  "\<exists>outs txs s' w'. stream_play demo_impl script_next id (\<lambda>r. Some (Ok r))
       [PollStream, CallerSend 4, ActorTurn, PollStream] (actor_stream_new [Ready 3]) (world_start demo_impl config_default 0)
       = (outs, txs, s', w')
     \<and> outs = [Some (Ok 4)] \<and> txs = [1]
     \<and> (\<exists>log. txs = positions False log \<and> map (\<lambda>i. map snd log ! i) txs = [4 :: nat])"
proof -
  obtain outs txs s' w' where run: "stream_play demo_impl script_next id (\<lambda>r. Some (Ok r))
       [PollStream, CallerSend 4, ActorTurn, PollStream] (actor_stream_new [Ready 3]) (world_start demo_impl config_default 0)
       = (outs, txs, s', w')" by (metis prod_cases4)
  then have outs: "outs = [Some (Ok 4)]" "txs = [1]"
    by (auto simp: actor_stream_new_def actor_stream_poll_next_def stream_send_def world_stream_env_def world_send_def
        world_run_def world_start_def context_start_def context_new_def demo_impl_def reply_item_def Let_def split_def)
  from stream_among_callers [OF run] have "\<exists>log. txs = positions False log
      \<and> map (\<lambda>i. map snd log ! i) txs = caller_messages [PollStream, CallerSend 4, ActorTurn, PollStream :: nat stream_move]"
    unfolding Let_def by blast
  with run outs show ?thesis by simp
qed

end
