(* ===== verification/Subscribe_System.thy ===== *)
theory Subscribe_System
  imports Client_Programs
begin

section \<open>Subscribers and their actors (\<open>src/subscribe.rs\<close>, \<open>src/address.rs\<close>)\<close>

text \<open>
  \<open>Actor_Address\<close> has what \<open>send_subscribe\<close> returns. Here the subscribers' channels lead to actors: for
  each channel the world of its actor and whether an address or a task still holds a sender, without
  which the weak sender of a subscriber cannot be upgraded. A subscriber uses two of an address's
  operations; the others are any.
\<close>

type_synonym ('a, 'm, 'r, 'f, 'ty, 'v) family = "nat \<Rightarrow> ('a, 'm, 'r, 'f, 'ty, 'v) world \<times> bool"

definition family_send ::
  "nat \<Rightarrow> ('m, 'f) context_message \<Rightarrow> ('a, 'm, 'r, 'f, 'ty, 'v) family
     \<Rightarrow> unit send_result \<times> ('a, 'm, 'r, 'f, 'ty, 'v) family" where
  "family_send ch m F = (let (r, w) = world_send m (fst (F ch)) in (r, F(ch := (w, snd (F ch)))))"

definition family_env ::
  "(('a, 'm, 'r, 'f, 'ty, 'v) family, 'm, 'r, 'f, 'ty, 'v) address_env
     \<Rightarrow> (('a, 'm, 'r, 'f, 'ty, 'v) family, 'm, 'r, 'f, 'ty, 'v) address_env" where
  "family_env E =
     E\<lparr>env_timeout_send := (\<lambda>ch m dur F. map_prod Inr id (family_send ch m F)),
       env_upgrade := (\<lambda>ch F. snd (F ch))\<rparr>"

definition accepts :: "('a, 'm, 'r, 'f, 'ty, 'v) family \<Rightarrow> nat \<Rightarrow> bool" where
  "accepts F ch \<longleftrightarrow> snd (F ch) \<and> \<not> w_ended (fst (F ch))"

text \<open>
  What \<open>FuturesUnordered\<close> does with futures that complete when they are polled, as a send into an
  unbounded channel does: it runs each of them once, in some order.
\<close>

definition join_runs :: "(('w, 'x) fut list \<Rightarrow> 'w \<Rightarrow> 'x list \<times> 'w) \<Rightarrow> bool" where
  "join_runs join \<longleftrightarrow> (\<forall>fs w. \<exists>gs. mset gs = mset fs \<and> join fs w = join_in_order gs w)"

text \<open>Messages put into the queues of the actors that take them.\<close>

definition enqueue_all ::
  "(nat \<Rightarrow> ('m, 'f) context_message list) \<Rightarrow> ('a, 'm, 'r, 'f, 'ty, 'v) family \<Rightarrow> ('a, 'm, 'r, 'f, 'ty, 'v) family" where
  "enqueue_all ms F =
     (\<lambda>ch. if accepts F ch then (fst (F ch)\<lparr>w_queue := w_queue (fst (F ch)) @ ms ch\<rparr>, snd (F ch)) else F ch)"

definition sub_message :: "'v \<Rightarrow> ('ty, 'v, 'm) subscriber \<Rightarrow> ('m, 'f) context_message" where
  "sub_message msg sub = Instant (InstantStatic None (sub_into sub msg))"

abbreviation sub_result :: "('a, 'm, 'r, 'f, 'ty, 'v) family \<Rightarrow> ('ty, 'v, 'm) subscriber \<Rightarrow> unit send_result" where
  "sub_result F sub \<equiv> (if accepts F (sub_sender sub) then Ok () else Err Closed)"

lemma queue_same [simp]: "w\<lparr>w_queue := w_queue w\<rparr> = w"
  by (cases w) simp

lemma enqueue_all_simps:
  "accepts (enqueue_all ms F) ch = accepts F ch"
  "enqueue_all (\<lambda>_. []) F = F"
  "enqueue_all ms' (enqueue_all ms F) = enqueue_all (\<lambda>ch. ms ch @ ms' ch) F"
  by (auto simp: enqueue_all_def accepts_def fun_eq_iff prod_eq_iff)

lemma subscriber_send_family:
  "subscriber_send (family_env E) sub (any_pack ty msg) dur F =
     (if sub_type sub = ty
      then (Some (sub_result F sub), enqueue_all (\<lambda>ch. if ch = sub_sender sub then [sub_message msg sub] else []) F)
      else (None, F))"
  by (auto simp: subscriber_send_def subscriber_send_inner_def family_env_def family_send_def world_send_def
      any_pack_def any_unpack_def accepts_def enqueue_all_def sub_message_def Let_def fun_eq_iff prod_eq_iff)

lemma subscribers_in_order:
  "join_in_order (map (\<lambda>sub. subscriber_send (family_env E) sub (any_pack ty msg) dur) subs) F =
     (map (\<lambda>sub. if sub_type sub = ty then Some (sub_result F sub) else None) subs,
      enqueue_all (\<lambda>ch. map (sub_message msg) (filter (\<lambda>sub. sub_type sub = ty \<and> sub_sender sub = ch) subs)) F)"
proof (induction subs arbitrary: F)
  case (Cons sub subs)
  show ?case
  proof (cases "sub_type sub = ty")
    case True
    then show ?thesis
      using Cons.IH by (simp add: subscriber_send_family enqueue_all_simps Let_def split_def)
        (rule arg_cong2 [of _ _ _ _ enqueue_all]; auto)
  next
    case False
    then show ?thesis using Cons.IH by (simp add: subscriber_send_family Let_def split_def)
  qed
qed (simp add: enqueue_all_simps)

lemma mset_map_reorder:
  assumes "mset gs = mset (map f xs)"
  shows "\<exists>ys. mset ys = mset xs \<and> gs = map f ys"
proof -
  have "list_all2 (\<lambda>g x. g = f x) (map f xs) xs" by (simp add: list_all2_conv_all_nth)
  from list_all2_reorder_left_invariance [OF this assms] obtain ys
    where "list_all2 (\<lambda>g x. g = f x) gs ys" "mset ys = mset xs" by auto
  then show ?thesis by (intro exI [of _ ys]) (auto simp: list_all2_conv_all_nth intro: nth_equalityI)
qed

lemma map_filter_results: "List.map_filter id (map (\<lambda>x. if P x then Some (f x) else None) xs) = map f (filter P xs)"
  by (induction xs) (simp_all add: List.map_filter_simps)

text \<open>
  C19. \<open>send_subscribe\<close> reaches exactly the subscribers of the message's type: they get the message, each
  converted for its actor, in the order their results are collected; a subscriber whose actor takes
  messages gives \<open>Ok\<close> and has it in its queue, behind what was there; one whose last sender is gone or
  whose actor has ended gives \<open>Closed\<close>, and every other actor and queue is left alone.
\<close>

theorem subscribe_delivers:
  assumes "join_runs join" and "addr_subs self = Some subs"
    and "address_send_subscribe (family_env E) join ty self msg F = (rs, F')"
  shows "\<exists>reached. mset reached = mset (filter (\<lambda>sub. sub_type sub = ty) subs)
     \<and> rs = map (sub_result F) reached
     \<and> F' = enqueue_all (\<lambda>ch. map (sub_message msg) (filter (\<lambda>sub. sub_sender sub = ch) reached)) F"
proof -
  let ?fs = "map (\<lambda>sub. subscriber_send (family_env E) sub (any_pack ty msg) (timeout (addr_config self))) subs"
  from assms(1) obtain gs where gs: "mset gs = mset ?fs" "join ?fs F = join_in_order gs F"
    unfolding join_runs_def by blast
  from mset_map_reorder [OF gs(1)] obtain subs' where subs': "mset subs' = mset subs"
    and "gs = map (\<lambda>sub. subscriber_send (family_env E) sub (any_pack ty msg) (timeout (addr_config self))) subs'"
    by blast
  with gs(2) have run: "join ?fs F =
     (map (\<lambda>sub. if sub_type sub = ty then Some (sub_result F sub) else None) subs',
      enqueue_all (\<lambda>ch. map (sub_message msg) (filter (\<lambda>sub. sub_type sub = ty \<and> sub_sender sub = ch) subs')) F)"
    by (simp add: subscribers_in_order)
  have "filter (\<lambda>sub. sub_sender sub = ch) (filter (\<lambda>sub. sub_type sub = ty) subs') =
      filter (\<lambda>sub. sub_type sub = ty \<and> sub_sender sub = ch) subs'" for ch
    by (induction subs') simp_all
  then have "rs = map (sub_result F) (filter (\<lambda>sub. sub_type sub = ty) subs')"
    "F' = enqueue_all (\<lambda>ch. map (sub_message msg) (filter (\<lambda>sub. sub_sender sub = ch) (filter (\<lambda>sub. sub_type sub = ty) subs'))) F"
    using assms(2,3) run by (simp_all add: address_send_subscribe_def map_filter_results)
  moreover have "mset (filter (\<lambda>sub. sub_type sub = ty) subs') = mset (filter (\<lambda>sub. sub_type sub = ty) subs)"
    by (simp add: subs' mset_filter)
  ultimately show ?thesis by blast
qed

lemma send_subscribe_in_order:
  "addr_subs self = Some subs \<Longrightarrow> address_send_subscribe (family_env E) join_in_order ty self msg F =
     (map (sub_result F) (filter (\<lambda>sub. sub_type sub = ty) subs),
      enqueue_all (\<lambda>ch. map (sub_message msg) (filter (\<lambda>sub. sub_type sub = ty \<and> sub_sender sub = ch) subs)) F)"
  by (simp add: address_send_subscribe_def subscribers_in_order map_filter_results)

lemma join_in_order_runs: "join_runs join_in_order"
  unfolding join_runs_def by blast

end
