(* ===== verification/Macro_System.thy ===== *)
theory Macro_System
  imports Macro_Meaning Client_Programs
begin

section \<open>Actors written with \<open>handler_v2\<close>, behind an address\<close>

text \<open>
  The two halves of the library together. What the macro generates is the \<open>Handler\<close> implementation an
  actor's context runs and the conversions an address applies to a message and to its result; here the
  former is the meaning of the generated code and the latter the operations of an address.
\<close>

definition generated_impl ::
  "('v, 'b, 's) user_code \<Rightarrow> 'b item list \<Rightarrow> ident \<Rightarrow> ('f \<Rightarrow> 's \<Rightarrow> ('ty \<times> 'x) \<times> 'f \<times> 's)
     \<Rightarrow> ('s \<Rightarrow> 's) \<Rightarrow> ('s \<Rightarrow> 's) \<Rightarrow> ('s, ('v, 'b) val, ('v, 'b) val, 'f, 'ty, 'x) actor_impl" where
  "generated_impl U items nm clos start stop =
     \<lparr>impl_handle = (\<lambda>m s. the (call_handle U items nm m s)), impl_call = clos,
      impl_on_start = start, impl_on_stop = stop\<rparr>"

text \<open>
  The conversions of a message type. They have no access to an actor; \<open>s0\<close> is any.
\<close>

definition generated_into ::
  "('v, 'b, 's) user_code \<Rightarrow> 'b item list \<Rightarrow> ident \<Rightarrow> path \<Rightarrow> 's \<Rightarrow> 'v \<Rightarrow> ('v, 'b) val" where
  "generated_into U items nm tp s0 v = fst (the (call_from U items (nm @ ''Message'') tp (VUser v) s0))"

definition generated_map ::
  "('v, 'b, 's) user_code \<Rightarrow> 'b item list \<Rightarrow> ident \<Rightarrow> path \<Rightarrow> 's \<Rightarrow> ('v, 'b) val
     \<Rightarrow> ('v, 'b) val send_result option" where
  "generated_map U items nm tp s0 r =
     (case call_map U items (nm @ ''Result'') tp r s0 of
        Some (VOk v, _) \<Rightarrow> Some (Ok v)
      | Some (VErr e, _) \<Rightarrow> Some (Err e)
      | _ \<Rightarrow> None)"

lemma generated_impl_simps [simp]:
  "impl_handle (generated_impl U items nm clos start stop) = (\<lambda>m s. the (call_handle U items nm m s))"
  "impl_call (generated_impl U items nm clos start stop) = clos"
  "impl_on_start (generated_impl U items nm clos start stop) = start"
  "impl_on_stop (generated_impl U items nm clos start stop) = stop"
  by (simp_all add: generated_impl_def)

text \<open>What the user's method makes of the message, and of the actor.\<close>

definition method_outcome ::
  "('v, 'b, 's) user_code \<Rightarrow> 'b handle_info \<Rightarrow> 'b \<Rightarrow> ('v, 'b) env \<Rightarrow> 's \<Rightarrow> ('v, 'b) val send_result \<times> 's" where
  "method_outcome U h b env s =
     (if is_async h then (let (r, s') = run_async U b env s in (Ok (VUser r), s'))
      else (map_sum id VUser (spawn_blocking U (run_blocking U b env)), s))"

lemma generated_method:
  fixes U :: "('v, 'b, 's) user_code" and clos :: "'f \<Rightarrow> 's \<Rightarrow> ('ty \<times> 'x) \<times> 'f \<times> 's"
  assumes ex: "expands args imp nm hs items" and h: "h \<in> set hs" and b: "method_block h = UserBlock b"
    and "method_outcome U h b [(message_var_ident h, VUser v),
           (''msg'', VEnum (nm @ ''Message'') (mident h) (VUser v))] s = (res, s')"
  shows "\<exists>r. impl_handle (generated_impl U items nm clos start stop)
            (generated_into U items nm (message_type_path h) s0 v) s = (r, s')
      \<and> generated_map U items nm (message_type_path h) s0 r = Some res"
proof -
  let ?env = "[(message_var_ident h, VUser v), (''msg'', VEnum (nm @ ''Message'') (mident h) (VUser v))]"
  have into: "generated_into U items nm (message_type_path h) s0 v =
      VEnum (nm @ ''Message'') (mident h) (VUser v)"
    by (simp add: generated_into_def call_from_eq [OF ex h])
  show ?thesis
  proof (cases "is_async h")
    case True
    with assms(4) show ?thesis
      by (auto simp: into call_handle_eq [OF ex h] eval_async_arm [OF True b] generated_map_def
          call_map_eq [OF ex h] method_outcome_def split_def Let_def)
  next
    case False
    then show ?thesis
      using assms(4)
      by (cases "spawn_blocking U (run_blocking U b ?env)")
        (auto simp: into call_handle_eq [OF ex h] eval_blocking_arm [OF False b] generated_map_def
          call_map_eq [OF ex h] method_outcome_def)
  qed
qed

text \<open>
  C3. From the user's methods to the caller's result. For an actor whose \<open>impl\<close> block \<open>handler_v2\<close>
  expands, \<open>send\<close> of a message gives what the user's method for that type computes from the message
  and the actor's state after everything queued before, and leaves the actor in the state the
  method leaves; a blocking method leaves it alone and can only add the runtime's error. The
  \<open>unreachable!()\<close> of the generated conversions is never reached.
\<close>

theorem send_runs_method:
  assumes "expands args imp nm hs items" and "h \<in> set hs" and "method_block h = UserBlock b"
    and "I = generated_impl U items nm clos start stop" and "world_ok w" and "gets_to I w sh1 c1 es"
    and "method_outcome U h b [(message_var_ident h, VUser v),
           (''msg'', VEnum (nm @ ''Message'') (mident h) (VUser v))] (actor c1) = (res, s')"
  shows "\<exists>w'. address_send (world_env I) (generated_into U items nm (message_type_path h) s0)
             (generated_map U items nm (message_type_path h) s0) self v w = (Some res, w')
     \<and> actor (w_actor w') = s' \<and> w_queue w' = [] \<and> \<not> w_ended w' \<and> world_ok w'"
proof -
  from generated_method [OF assms(1-3,7), of clos start stop s0] assms(4) obtain r where
    "impl_handle I (generated_into U items nm (message_type_path h) s0 v) (actor c1) = (r, s')"
    and r: "generated_map U items nm (message_type_path h) s0 r = Some res" by auto
  from send_replies [where into = "generated_into U items nm (message_type_path h) s0", OF assms(5,6) this(1),
      of "generated_map U items nm (message_type_path h) s0" self] r
  show ?thesis by auto
qed

text \<open>The same when the actor waits, for programs that send one message after the other.\<close>

lemma generated_send_idle:
  assumes "expands args imp nm hs items" and "h \<in> set hs" and "method_block h = UserBlock b" and "idle w"
    and "method_outcome U h b [(message_var_ident h, VUser v),
           (''msg'', VEnum (nm @ ''Message'') (mident h) (VUser v))] (the_actor w) = (res, s')"
  shows "\<exists>w'. address_send (world_env (generated_impl U items nm clos start stop))
             (generated_into U items nm (message_type_path h) s0)
             (generated_map U items nm (message_type_path h) s0) self v w = (Some res, w')
     \<and> the_actor w' = s' \<and> idle w' \<and> w_shared w' = w_shared w"
proof -
  let ?I = "generated_impl U items nm clos start stop"
  from generated_method [OF assms(1-3,5), of clos start stop s0] obtain r where
    r: "impl_handle ?I (generated_into U items nm (message_type_path h) s0 v) (the_actor w) = (r, s')"
      "generated_map U items nm (message_type_path h) s0 r = Some res" by auto
  from send_idle [where into = "generated_into U items nm (message_type_path h) s0", OF assms(4) r(1),
      of "generated_map U items nm (message_type_path h) s0" self] r(2)
  show ?thesis by auto
qed

end
