(* ===== verification/Mod_System.thy ===== *)
theory Mod_System
  imports Macro_Mod_Correct Macro_System
begin

section \<open>Actors written with \<open>actor_mod\<close>, behind an address\<close>

text \<open>
  What \<open>actor_mod\<close> makes of a module, run behind an address: the counterpart of \<open>Macro_System\<close> for the
  macro over a whole module.
\<close>

text \<open>What a handler makes of the message and of the actor; the attribute says how it runs.\<close>

definition handler_outcome ::
  "('v, 'b, 's) user_code \<Rightarrow> bool \<Rightarrow> 'b \<Rightarrow> ('v, 'b) env \<Rightarrow> 's \<Rightarrow> ('v, 'b) val send_result \<times> 's" where
  "handler_outcome U blocking b env s =
     (if blocking then (map_sum id VUser (spawn_blocking U (run_blocking U b env)), s)
      else (let (r, s') = run_async U b env s in (Ok (VUser r), s')))"

text \<open>A message of the module and the handler that is found for it.\<close>

definition handled_by :: "'b item list \<Rightarrow> item_decl \<Rightarrow> ident \<Rightarrow> 'b \<Rightarrow> bool" where
  "handled_by items d var b \<longleftrightarrow>
     d \<in> set (message_decls items) \<and>
     (\<exists>methods i. handle_methods items = Some methods \<and>
        find (\<lambda>(v, i, stmts). i = decl_ident d) methods = Some (var, i, UserBlock b))"

lemma mod_generated_method:
  fixes U :: "('v, 'b, 's) user_code" and clos :: "'f \<Rightarrow> 's \<Rightarrow> ('ty \<times> 'x) \<times> 'f \<times> 's"
  assumes e: "actor_mod parse (Some items) = Some e" and coh: "coherent (mod_items e)"
    and h: "handled_by items d var b" and nm: "nm = decl_ident (last (actor_decls items))"
    and out: "handler_outcome U (snd (message_text d)) b
           [(var, VUser v), (''msg'', VEnum (nm @ ''Message'') (decl_ident d) (VUser v))] s = (res, s')"
  shows "\<exists>r. impl_handle (generated_impl U (mod_items e) nm clos start stop)
            (generated_into U (mod_items e) nm (type_path_from_idents [decl_ident d]) s0 v) s = (r, s')
      \<and> generated_map U (mod_items e) nm (type_path_from_idents [decl_ident d]) s0 r = Some res"
proof -
  let ?m = "VEnum (nm @ ''Message'') (decl_ident d) (VUser v)"
  obtain methods i where d: "d \<in> set (message_decls items)" and methods: "handle_methods items = Some methods"
    and f: "find (\<lambda>(v, i, stmts). i = decl_ident d) methods = Some (var, i, UserBlock b)"
    using h by (auto simp: handled_by_def)
  from mod_expands [OF e coh d methods f nm] obtain imp hs its h where
    ex: "expands [] imp nm hs its" and h: "h \<in> set hs"
    and hs: "message_var_ident h = var" "method_block h = UserBlock b"
      "message_type_path h = type_path_from_idents [decl_ident d]" "is_async h \<longleftrightarrow> \<not> snd (message_text d)"
    and sub: "\<forall>it \<in> set its. impl_key it \<noteq> None \<longrightarrow> it \<in> set (mod_items e)" by blast
  have mi: "mident h = decl_ident d" by (simp add: hs(3))
  note tr = call_transfer [OF coh sub]
  have "method_outcome U h b [(message_var_ident h, VUser v),
      (''msg'', VEnum (nm @ ''Message'') (mident h) (VUser v))] s = (res, s')"
    using out by (simp add: hs mi method_outcome_def handler_outcome_def split_def Let_def split: if_splits)
  from generated_method [OF ex h hs(2) this, of clos start stop s0] obtain r where
    r: "impl_handle (generated_impl U its nm clos start stop) (generated_into U its nm (message_type_path h) s0 v) s = (r, s')"
    and m: "generated_map U its nm (message_type_path h) s0 r = Some res" by blast
  have into: "call_from U its (nm @ ''Message'') (message_type_path h) (VUser v) s0 = Some (?m, s0)"
    using call_from_eq [OF ex h] by (simp add: mi)
  have "call_handle U its nm ?m s \<noteq> None"
    using call_handle_eq [OF ex h, of U "VUser v" s] eval_async_arm [of h b U] eval_blocking_arm [of h b U] hs(2)
    by (cases "is_async h") (simp_all add: mi)
  with r into have "call_handle U its nm ?m s = Some (r, s')" by (auto simp: generated_into_def)
  moreover obtain x where x: "call_map U its (nm @ ''Result'') (message_type_path h) r s0 = Some x"
    using m by (cases "call_map U its (nm @ ''Result'') (message_type_path h) r s0") (simp_all add: generated_map_def)
  ultimately have "call_from U (mod_items e) (nm @ ''Message'') (message_type_path h) (VUser v) s0 = Some (?m, s0)"
    "call_handle U (mod_items e) nm ?m s = Some (r, s')"
    "call_map U (mod_items e) (nm @ ''Result'') (message_type_path h) r s0 = Some x"
    using into unfolding call_from_def call_handle_def call_map_def by (blast intro: tr)+
  with m x show ?thesis by (simp add: generated_into_def generated_map_def hs(3) [symmetric])
qed

text \<open>
  C5. From the handlers of a module to the caller's result. For an actor whose module \<open>actor_mod\<close> expands,
  and whose expansion is coherent, \<open>send\<close> of a message gives what the handler written for its type
  computes from the message and the actor's state after everything queued before, and leaves the actor
  as the handler does; one marked \<open>blocking\<close> leaves it alone and can only add the runtime's error.
\<close>

theorem send_runs_handler:
  assumes "actor_mod parse (Some items) = Some e" and "coherent (mod_items e)"
    and "handled_by items d var b" and "nm = decl_ident (last (actor_decls items))"
    and "I = generated_impl U (mod_items e) nm clos start stop" and "world_ok w" and "gets_to I w sh1 c1 es"
    and "handler_outcome U (snd (message_text d)) b
           [(var, VUser v), (''msg'', VEnum (nm @ ''Message'') (decl_ident d) (VUser v))] (actor c1) = (res, s')"
  shows "\<exists>w'. address_send (world_env I) (generated_into U (mod_items e) nm (type_path_from_idents [decl_ident d]) s0)
             (generated_map U (mod_items e) nm (type_path_from_idents [decl_ident d]) s0) self v w = (Some res, w')
     \<and> actor (w_actor w') = s' \<and> w_queue w' = [] \<and> \<not> w_ended w' \<and> world_ok w'"
proof -
  from mod_generated_method [OF assms(1-4,8), of clos start stop s0] assms(5) obtain r where
    "impl_handle I (generated_into U (mod_items e) nm (type_path_from_idents [decl_ident d]) s0 v) (actor c1) = (r, s')"
    and r: "generated_map U (mod_items e) nm (type_path_from_idents [decl_ident d]) s0 r = Some res" by auto
  from send_replies [where into = "generated_into U (mod_items e) nm (type_path_from_idents [decl_ident d]) s0",
      OF assms(6,7) this(1), of "generated_map U (mod_items e) nm (type_path_from_idents [decl_ident d]) s0" self] r
  show ?thesis by auto
qed

text \<open>The same when the actor waits.\<close>

lemma mod_send_idle:
  assumes "actor_mod parse (Some items) = Some e" and "coherent (mod_items e)"
    and "handled_by items d var b" and "nm = decl_ident (last (actor_decls items))" and "idle w"
    and "handler_outcome U (snd (message_text d)) b
           [(var, VUser v), (''msg'', VEnum (nm @ ''Message'') (decl_ident d) (VUser v))] (the_actor w) = (res, s')"
  shows "\<exists>w'. address_send (world_env (generated_impl U (mod_items e) nm clos start stop))
             (generated_into U (mod_items e) nm (type_path_from_idents [decl_ident d]) s0)
             (generated_map U (mod_items e) nm (type_path_from_idents [decl_ident d]) s0) self v w = (Some res, w')
     \<and> the_actor w' = s' \<and> idle w' \<and> w_shared w' = w_shared w"
proof -
  from mod_generated_method [OF assms(1-4,6), of clos start stop s0] obtain r where
    r: "impl_handle (generated_impl U (mod_items e) nm clos start stop)
          (generated_into U (mod_items e) nm (type_path_from_idents [decl_ident d]) s0 v) (the_actor w) = (r, s')"
      "generated_map U (mod_items e) nm (type_path_from_idents [decl_ident d]) s0 r = Some res" by auto
  from send_idle [where into = "generated_into U (mod_items e) nm (type_path_from_idents [decl_ident d]) s0",
      OF assms(5) r(1), of "generated_map U (mod_items e) nm (type_path_from_idents [decl_ident d]) s0" self] r(2)
  show ?thesis by auto
qed

end
