(* ===== verification/Hook_System.thy ===== *)
theory Hook_System
  imports Macro_System
begin

section \<open>The hooks of a generated actor (\<open>actix-send-macros/src/lib.rs\<close>)\<close>

text \<open>
  \<open>actor\<close> makes an actor's \<open>on_start\<close> and \<open>on_stop\<close> call \<open>__on_start\<close> and \<open>__on_stop\<close>, and \<open>handler_v2\<close>
  generates these two from the methods marked \<open>#[on_start]\<close> and \<open>#[on_stop]\<close>. This theory gives the calls a
  meaning and says which code of the user runs when an actor starts and stops.
\<close>

subsection \<open>Calling an inherent method\<close>

definition inherent_impl :: "ty \<Rightarrow> 'b item \<Rightarrow> 'b item_impl option" where
  "inherent_impl self it =
     (case it of
        ImplItem i \<Rightarrow> if impl_trait i = None \<and> impl_self i = self then Some i else None
      | _ \<Rightarrow> None)"

fun method_named :: "ident \<Rightarrow> 'b impl_item \<Rightarrow> 'b impl_method option" where
  "method_named n (Method m) = (if m_ident m = n then Some m else None)"
| "method_named n _ = None"

text \<open>A method without arguments and result: what it does to \<open>self\<close>. \<open>None\<close> is a method that is missing.\<close>

definition run_unit_block :: "('v, 'b, 's) user_code \<Rightarrow> 'b block \<Rightarrow> 's \<Rightarrow> 's option" where
  "run_unit_block U blk s =
     (case blk of
        UserBlock b \<Rightarrow> Some (snd (run_async U b [] s))
      | Stmts ss \<Rightarrow> if ss = [] then Some s else None)"

definition call_inherent ::
  "('v, 'b, 's) user_code \<Rightarrow> 'b item list \<Rightarrow> ident \<Rightarrow> ident \<Rightarrow> 's \<Rightarrow> 's option" where
  "call_inherent U items nm n s =
     Option.bind (find_map (inherent_impl (TyPath (type_path_from_idents [nm]))) items)
       (\<lambda>imp. Option.bind (find_map (method_named n) (impl_items imp))
         (\<lambda>m. run_unit_block U (m_block m) s))"

text \<open>
  What \<open>Actor::on_start\<close> and \<open>Actor::on_stop\<close> do after \<open>actor\<close>: a \<open>no_static\<close> actor has the defaults of
  the trait.
\<close>

definition actor_on_start ::
  "('v, 'b, 's) user_code \<Rightarrow> actor_expansion \<Rightarrow> 'b item list \<Rightarrow> ident \<Rightarrow> 's \<Rightarrow> 's option" where
  "actor_on_start U ae items nm s =
     (if ae_hooks ae = None then Some (default_on_start s) else call_inherent U items nm ''__on_start'' s)"

definition actor_on_stop ::
  "('v, 'b, 's) user_code \<Rightarrow> actor_expansion \<Rightarrow> 'b item list \<Rightarrow> ident \<Rightarrow> 's \<Rightarrow> 's option" where
  "actor_on_stop U ae items nm s =
     (if ae_hooks ae = None then Some (default_on_stop s) else call_inherent U items nm ''__on_stop'' s)"

definition hooked_impl ::
  "('v, 'b, 's) user_code \<Rightarrow> actor_expansion \<Rightarrow> 'b item list \<Rightarrow> ident \<Rightarrow> ('f \<Rightarrow> 's \<Rightarrow> ('ty \<times> 'x) \<times> 'f \<times> 's)
     \<Rightarrow> ('s, ('v, 'b) val, ('v, 'b) val, 'f, 'ty, 'x) actor_impl" where
  "hooked_impl U ae items nm clos =
     generated_impl U items nm clos
       (\<lambda>s. the (actor_on_start U ae items nm s)) (\<lambda>s. the (actor_on_stop U ae items nm s))"

subsection \<open>Which method becomes a hook\<close>

definition methods_of :: "'b impl_item list \<Rightarrow> 'b impl_method list" where
  "methods_of items = List.map_filter (\<lambda>it. case it of Method m \<Rightarrow> Some m | _ \<Rightarrow> None) items"

definition start_hook :: "'b item_impl \<Rightarrow> 'b impl_method option" where
  "start_hook imp = find (has_attr ''on_start'') (rev (methods_of (impl_items imp)))"

definition stop_hook :: "'b item_impl \<Rightarrow> 'b impl_method option" where
  "stop_hook imp = find (\<lambda>m. has_attr ''on_stop'' m \<and> \<not> has_attr ''on_start'' m) (rev (methods_of (impl_items imp)))"

text \<open>What a hook does: the user's block, or nothing when no method is marked.\<close>

definition hook_effect :: "('v, 'b, 's) user_code \<Rightarrow> 'b impl_method option \<Rightarrow> 's \<Rightarrow> 's" where
  "hook_effect U hook s =
     (case hook of None \<Rightarrow> s | Some m \<Rightarrow> (case m_block m of UserBlock b \<Rightarrow> snd (run_async U b [] s) | _ \<Rightarrow> s))"

lemma methods_of_simps [simp]:
  "methods_of [] = []" "methods_of (Method m # items) = m # methods_of items"
  "(\<And>m. it \<noteq> Method m) \<Longrightarrow> methods_of (it # items) = methods_of items"
  by (simp_all add: methods_of_def List.map_filter_simps split: impl_item.split)

lemma split_hooks_last:
  "snd (split_hooks items s1 s2) =
     (case find (has_attr ''on_start'') (rev (methods_of items)) of Some m \<Rightarrow> Some m | None \<Rightarrow> s1,
      case find (\<lambda>m. has_attr ''on_stop'' m \<and> \<not> has_attr ''on_start'' m) (rev (methods_of items)) of
        Some m \<Rightarrow> Some m | None \<Rightarrow> s2)"
proof (induction items s1 s2 rule: split_hooks.induct)
  case (2 m items s1 s2)
  have snoc: "find P (xs @ [m]) = (case find P xs of Some y \<Rightarrow> Some y | None \<Rightarrow> if P m then Some m else None)" for P xs
    by (induction xs) simp_all
  show ?case
    using 2 by (auto simp: snoc split_def split: option.split)
qed simp_all

subsection \<open>The hooks run\<close>

lemma handler_v2_hooks:
  assumes "handler_v2 args imp = Some items"
  shows "\<exists>rest. items = ImplItem \<lparr>impl_attrs = [], impl_trait = None, impl_self = impl_self imp,
       impl_items = [Method (hook_method ''on_start'' ''__on_start'' (start_hook imp)),
                     Method (hook_method ''on_stop'' ''__on_stop'' (stop_hook imp))]\<rparr> # rest"
  using assms split_hooks_last [of "impl_items imp" None None]
  by (auto simp: handler_v2_def start_hook_def stop_hook_def Let_def split_def bind_eq_Some_conv split: option.splits)

lemma self_ident_path: "self_ident t = Some nm \<Longrightarrow> t = TyPath (type_path_from_idents [nm])"
  by (cases t) (auto simp: type_path_from_idents_def dest: get_ident_SomeD)

lemma run_hook_method:
  assumes "\<forall>m. hook = Some m \<longrightarrow> (\<exists>b. m_block m = UserBlock b)"
  shows "run_unit_block U (m_block (hook_method marker name hook)) s = Some (hook_effect U hook s)"
  using assms by (cases hook) (auto simp: hook_method_def run_unit_block_def hook_effect_def Let_def)

lemma hook_names [simp]: "m_ident (hook_method marker name hook) = name"
  by (cases hook) (simp_all add: hook_method_def Let_def)

lemma find_in_set: "find P xs = Some x \<Longrightarrow> x \<in> set xs"
  by (induction xs) (auto split: if_splits)

lemma call_hooks:
  assumes "handler_v2 args imp = Some items" and "self_ident (impl_self imp) = Some nm"
    and "\<forall>m \<in> set (methods_of (impl_items imp)). \<exists>b. m_block m = UserBlock b"
  shows "call_inherent U items nm ''__on_start'' s = Some (hook_effect U (start_hook imp) s)"
    and "call_inherent U items nm ''__on_stop'' s = Some (hook_effect U (stop_hook imp) s)"
proof -
  obtain rest where items: "items = ImplItem \<lparr>impl_attrs = [], impl_trait = None, impl_self = impl_self imp,
       impl_items = [Method (hook_method ''on_start'' ''__on_start'' (start_hook imp)),
                     Method (hook_method ''on_stop'' ''__on_stop'' (stop_hook imp))]\<rparr> # rest"
    using handler_v2_hooks [OF assms(1)] by blast
  have blocks: "\<forall>m. start_hook imp = Some m \<longrightarrow> (\<exists>b. m_block m = UserBlock b)"
    "\<forall>m. stop_hook imp = Some m \<longrightarrow> (\<exists>b. m_block m = UserBlock b)"
    unfolding start_hook_def stop_hook_def using assms(3) by (auto dest!: find_in_set)
  note self = self_ident_path [OF assms(2)]
  show "call_inherent U items nm ''__on_start'' s = Some (hook_effect U (start_hook imp) s)"
    by (simp add: call_inherent_def items inherent_impl_def self run_hook_method [OF blocks(1)])
  show "call_inherent U items nm ''__on_stop'' s = Some (hook_effect U (stop_hook imp) s)"
    by (simp add: call_inherent_def items inherent_impl_def self run_hook_method [OF blocks(2)])
qed

lemma hooked_impl_simps [simp]:
  "impl_handle (hooked_impl U ae items nm clos) = (\<lambda>m s. the (call_handle U items nm m s))"
  "impl_call (hooked_impl U ae items nm clos) = clos"
  "impl_on_start (hooked_impl U ae items nm clos) = (\<lambda>s. the (actor_on_start U ae items nm s))"
  "impl_on_stop (hooked_impl U ae items nm clos) = (\<lambda>s. the (actor_on_stop U ae items nm s))"
  by (simp_all add: hooked_impl_def)

text \<open>
  C22. The life of a generated actor, hooks included: an actor under \<open>actor\<close> and \<open>handler_v2\<close> starts with
  what the last method marked \<open>on_start\<close> makes of it, and when its task ends for good it is left as the
  last method marked \<open>on_stop\<close> makes of it, each running just once; a hook that is not there changes
  nothing, and a restart runs no \<open>on_stop\<close>.
\<close>

theorem hooks_run:
  assumes "handler_v2 args imp = Some items" and "self_ident (impl_self imp) = Some nm"
    and "\<forall>m \<in> set (methods_of (impl_items imp)). \<exists>b. m_block m = UserBlock b"
    and "\<not> macro_flag ''no_static'' args'"
  shows "let I = hooked_impl U (actor_macro args' nm) items nm clos in
     actor (snd (context_start I sh c)) = hook_effect U (start_hook imp) (actor c) \<and>
     (\<forall>again sh' c'. context_exit I sh c = (again, sh', c') \<longrightarrow>
        actor c' = (if again then actor c else hook_effect U (stop_hook imp) (actor c)))"
proof -
  have "ae_hooks (actor_macro args' nm) \<noteq> None" using assms(4) by (simp add: actor_macro_def Let_def)
  then show ?thesis
    by (auto simp: actor_on_start_def actor_on_stop_def call_hooks [OF assms(1-3)] context_exit_def Let_def split_def
        split: if_splits)
qed

end
