(* ===== verification/Shared_Actors.thy ===== *)
theory Shared_Actors
  imports Actor_Set_Serve
begin

section \<open>Actors that share memory (\<open>examples/broadcast.rs\<close>, \<open>examples/concurrency.rs\<close>)\<close>

text \<open>
  The builder function can give every actor of an address a pointer to the same memory, an \<open>Arc\<close> of an
  atomic. Such an actor is a pair of the memory and what is its own; when one of them has run, all of
  them see the memory it left. A handler is one step, as one is whose only access is a single atomic
  operation.
\<close>

definition set_memory :: "'g \<Rightarrow> ('g \<times> 'a, 'm, 'f) member \<Rightarrow> ('g \<times> 'a, 'm, 'f) member" where
  "set_memory g mb = mb\<lparr>mb_ctx := (mb_ctx mb)\<lparr>actor := (g, snd (actor (mb_ctx mb)))\<rparr>\<rparr>"

definition spread :: "nat \<Rightarrow> ('g \<times> 'a, 'm, 'f, 'wk) pool \<Rightarrow> ('g \<times> 'a, 'm, 'f, 'wk) pool" where
  "spread i s = s\<lparr>members := map (set_memory (fst (actor (mb_ctx (members s ! i))))) (members s)\<rparr>"

fun acting :: "('m, 'r, 'f, 'ty, 'v, 'wk) event \<Rightarrow> nat option" where
  "acting (Started i) = Some i"
| "acting (Handled i _ _ _) = Some i"
| "acting (PanickedOn i _) = Some i"
| "acting (Left i _) = Some i"
| "acting _ = None"

definition shared_step ::
  "('g \<times> 'a, 'm, 'r, 'f, 'ty, 'v) actor_impl \<Rightarrow> (oneshot \<Rightarrow> bool) \<Rightarrow> ('g \<times> 'a, 'm, 'f, 'wk) pool
     \<Rightarrow> ('m, 'r, 'f, 'ty, 'v, 'wk) event \<Rightarrow> ('g \<times> 'a, 'm, 'f, 'wk) pool \<Rightarrow> bool" where
  "shared_step impl open_rx s l s' \<longleftrightarrow>
     (\<exists>s1. pool_step impl open_rx s l s1 \<and> s' = (case acting l of Some i \<Rightarrow> spread i s1 | None \<Rightarrow> s1))"

lemma set_memory_simps [simp]:
  "mb_phase (set_memory g mb) = mb_phase mb" "mb_own (set_memory g mb) = mb_own mb"
  "actor (mb_ctx (set_memory g mb)) = (g, snd (actor (mb_ctx mb)))"
  by (simp_all add: set_memory_def)

lemma spread_simps [simp]:
  "length (members (spread i s)) = length (members s)" "pl_queue (spread i s) = pl_queue s"
  "j < length (members s) \<Longrightarrow>
     members (spread i s) ! j = set_memory (fst (actor (mb_ctx (members s ! i)))) (members s ! j)"
  by (simp_all add: spread_def)

lemma all_static_spread [simp]: "all_static (spread i s) = all_static s"
  by (auto simp: all_static_def spread_def static_member_def)

lemma queues_ok_spread [simp]: "queues_ok n tr (spread i s) = queues_ok n tr s"
  by (auto simp: queues_ok_def)

interpretation shared_queueing: trace_invariant "shared_step impl open_rx" "queues_ok n" for impl open_rx n
  by unfold_locales (auto simp: shared_step_def dest: queues_ok_step split: option.splits)

subsection \<open>They are one sequential server\<close>

text \<open>
  The reference handles one message after the other, whichever actor it is for: its state is the memory
  and what each actor has of its own.
\<close>

definition shared_handle ::
  "('g \<times> 'a, 'm, 'r, 'f, 'ty, 'v) actor_impl \<Rightarrow> nat \<times> 'm \<Rightarrow> 'g \<times> 'a list \<Rightarrow> 'r \<times> 'g \<times> 'a list" where
  "shared_handle impl x s =
     (case x of (i, m) \<Rightarrow> case s of (g, ps) \<Rightarrow>
        (case impl_handle impl m (g, ps ! i) of (r, g', p') \<Rightarrow> (r, g', ps[i := p'])))"

fun all_effects ::
  "('m, 'r, 'f, 'ty, 'v, 'wk) event list \<Rightarrow> ('m, 'r, 'f, 'ty, 'v, 'wk) ctx_effect list" where
  "all_effects [] = []"
| "all_effects (Handled _ _ _ es # tr) = es @ all_effects tr"
| "all_effects (_ # tr) = all_effects tr"

lemma all_effects_append [simp]: "all_effects (tr @ tr') = all_effects tr @ all_effects tr'"
  by (induction tr rule: all_effects.induct) simp_all

definition msgs_of :: "nat \<Rightarrow> (oneshot option \<times> nat \<times> 'm) list \<Rightarrow> ('m, 'f) context_message list" where
  "msgs_of i ms = map (\<lambda>(tx, j, m). static_msg (tx, m)) (filter (\<lambda>(tx, j, m). j = i) ms)"

definition serial_ok ::
  "('g \<times> 'a, 'm, 'r, 'f, 'ty, 'v) actor_impl \<Rightarrow> 'g \<Rightarrow> 'a list
     \<Rightarrow> ('m, 'r, 'f, 'ty, 'v, 'wk) event list \<Rightarrow> ('g \<times> 'a, 'm, 'f, 'wk) pool \<Rightarrow> bool" where
  "serial_ok impl g ps tr s \<longleftrightarrow>
     (list_all static_event tr \<longrightarrow> impl_on_start impl = id \<longrightarrow>
        all_static s \<and>
        (\<exists>ms rs g' ps'. serve (shared_handle impl) ms (g, ps) = (rs, g', ps')
           \<and> map (actor \<circ> mb_ctx) (members s) = map (Pair g') ps'
           \<and> all_effects tr = replies_to rs
           \<and> (\<forall>(tx, i, m) \<in> set ms. i < length ps) \<and> length ps' = length ps
           \<and> (\<forall>i. handled i tr = msgs_of i ms)))"

abbreviation actors :: "('b, 'm, 'f, 'wk) pool \<Rightarrow> 'b list" where
  "actors s \<equiv> map (actor \<circ> mb_ctx) (members s)"

lemma actors_put: "map (actor \<circ> mb_ctx) ((members s)[i := mb]) = (actors s)[i := actor (mb_ctx mb)]"
  by (simp add: map_update)

lemma actors_keep:
  "i < length (members s) \<Longrightarrow> mb_ctx mb = mb_ctx (members s ! i) \<Longrightarrow>
     map (actor \<circ> mb_ctx) ((members s)[i := mb]) = actors s"
  by (simp add: map_update list_update_same_conv)

lemma actors_spread:
  "i < length (members s) \<Longrightarrow> actors s = (map (Pair g) ps)[i := (g', p)] \<Longrightarrow>
     actors (spread i s) = map (Pair g') (ps[i := p])"
proof -
  assume i: "i < length (members s)" and a: "actors s = (map (Pair g) ps)[i := (g', p)]"
  have len: "length ps = length (members s)" using arg_cong [OF a, of length] by simp
  have each: "actor (mb_ctx (members s ! j)) = (if j = i then (g', p) else (g, ps ! j))"
    if "j < length (members s)" for j
    using that len arg_cong [OF a, of "\<lambda>xs. xs ! j"] by (simp add: nth_list_update)
  have "fst (actor (mb_ctx (members s ! i))) = g'" using each [OF i] by simp
  then show ?thesis
    using each len by (intro nth_equalityI) (simp_all add: spread_def nth_list_update)
qed

lemma actors_nth: "actors s = map (Pair g) ps \<Longrightarrow> i < length (members s) \<Longrightarrow> actor (mb_ctx (members s ! i)) = (g, ps ! i)"
  by (metis comp_apply length_map nth_map)

lemma serial_ok_step:
  assumes "shared_step impl open_rx s l s'" "serial_ok impl g ps tr s"
  shows "serial_ok impl g ps (tr @ [l]) s'"
proof (cases "list_all static_event (tr @ [l]) \<and> impl_on_start impl = id")
  case True
  with assms(2) obtain ms rs g' ps' where st: "all_static s" "static_event l" and start: "impl_on_start impl = id"
    and run: "serve (shared_handle impl) ms (g, ps) = (rs, g', ps')" and acts: "actors s = map (Pair g') ps'"
    and eff: "all_effects tr = replies_to rs" and idx: "\<forall>(tx, i, m) \<in> set ms. i < length ps"
    and len: "length ps' = length ps" and hd: "\<And>i. handled i tr = msgs_of i ms"
    by (auto simp: serial_ok_def)
  from assms(1) obtain s1 where step: "pool_step impl open_rx s l s1"
    and s': "s' = (case acting l of Some i \<Rightarrow> spread i s1 | None \<Rightarrow> s1)" by (auto simp: shared_step_def)
  have st': "all_static s'" using all_static_step [OF step st] by (simp add: s' split: option.split)
  have here: "actor (mb_ctx (members s ! i)) = (g', ps' ! i)" if "i < length (members s)" for i
    by (rule actors_nth [OF acts that])
  have n: "length (members s) = length ps'" using arg_cong [OF acts, of length] by simp
  have same: "serial_ok impl g ps (tr @ [l]) s'"
    if "actors s' = map (Pair g') ps'" "\<And>i. handled i [l] = []" "all_effects [l] = []"
    using that run st' eff idx len hd unfolding serial_ok_def by (intro impI conjI exI [of _ ms] exI [of _ rs]) auto
  show ?thesis
    using step
  proof (cases rule: pool_step.cases)
    case (PHandle i m sh brk c es)
    from handling_static [OF st(1) PHandle(3)] have "is_static m" .
    moreover have "actor (mb_ctx (members s ! i)) = (g', ps' ! i)" using PHandle(3) here by simp
    note handle_static [of m impl open_rx "pl_shared s" "mb_ctx (members s ! i)", unfolded this]
    ultimately obtain tx x
      where m: "m = static_msg (tx, x)"
        and "handle_msg impl open_rx m (pl_shared s) (mb_ctx (members s ! i)) =
          (pl_shared s, Some (False, (mb_ctx (members s ! i))\<lparr>actor := snd (impl_handle impl x (g', ps' ! i))\<rparr>,
             case tx of Some t \<Rightarrow> [OneshotSend t (ReplyResult (fst (impl_handle impl x (g', ps' ! i))))] | None \<Rightarrow> []))"
      by blast
    with PHandle(4) have c: "actor c = snd (impl_handle impl x (g', ps' ! i))"
      and es: "es = (case tx of Some t \<Rightarrow> [OneshotSend t (ReplyResult (fst (impl_handle impl x (g', ps' ! i))))] | None \<Rightarrow> [])"
      by simp_all
    obtain r g2 p2 where h: "impl_handle impl x (g', ps' ! i) = (r, g2, p2)" by (metis prod_cases3)
    have i: "i < length ps'" using PHandle(3) n by simp
    have "actors s1 = (map (Pair g') ps')[i := (g2, p2)]" using PHandle(2) acts c h by (simp add: actors_put)
    from actors_spread [OF _ this] have "actors s' = map (Pair g2) (ps'[i := p2])"
      using PHandle(1,2) i n s' by simp
    moreover have "serve (shared_handle impl) (ms @ [(tx, i, x)]) (g, ps) =
        (rs @ (case tx of Some t \<Rightarrow> [(t, r)] | None \<Rightarrow> []), g2, ps'[i := p2])"
      by (simp add: serve_snoc run shared_handle_def h split: option.split)
    moreover have "all_effects (tr @ [l]) = replies_to (rs @ (case tx of Some t \<Rightarrow> [(t, r)] | None \<Rightarrow> []))"
      using PHandle(1) eff by (simp add: es h replies_to_def split: option.split)
    moreover have "handled j (tr @ [l]) = msgs_of j (ms @ [(tx, i, x)])" for j
      using PHandle(1) hd by (simp add: m msgs_of_def)
    ultimately show ?thesis
      using st' idx len i unfolding serial_ok_def by (intro impI conjI exI) (assumption | auto)+
  next
    case (PPanic i m sh)
    with handle_static_goes_on(2) [OF handling_static [OF st(1) PPanic(3)] PPanic(4)] show ?thesis by simp
  next
    case (PLeave i again sh c)
    with member_static [OF st(1), of i] show ?thesis by (simp add: static_member_def)
  next
    case (PStart i sh c)
    then have "actor c = (g', ps' ! i)" using start here by (auto simp: context_start_def split_def)
    then have "actors s1 = (map (Pair g') ps')[i := (g', ps' ! i)]" using PStart(2) acts by (simp add: actors_put)
    from actors_spread [OF _ this] have "actors s' = map (Pair g') ps'" using PStart(1-3) s' by simp
    with PStart(1) show ?thesis by (intro same) auto
  qed ((rule same; use st acts s' in \<open>force simp: actors_keep\<close>)+)
qed (auto simp: serial_ok_def)

interpretation serial: trace_invariant "shared_step impl open_rx" "serial_ok impl g ps" for impl open_rx g ps
  by unfold_locales (rule serial_ok_step)

lemma serial_ok_new:
  "map (actor \<circ> fst) ctxs = map (Pair g) ps \<Longrightarrow> serial_ok impl g ps [] (pool_new ctxs st)"
  by (auto simp: serial_ok_def pool_new_def all_static_def static_member_def split_beta msgs_of_def replies_to_def
      o_def intro!: exI [of _ "[]"])


end
