(* ===== verification/Example_Handlers.thy ===== *)
theory Example_Handlers
  imports Macro_System
begin

section \<open>The examples \<open>handler_v2.rs\<close> and \<open>no_macro.rs\<close>\<close>

subsection \<open>\<open>examples/handler_v2.rs\<close>\<close>

text \<open>
  The \<open>impl\<close> block under \<open>#[handler_v2]\<close>, its method bodies numbered, and what the bodies return.
\<close>

datatype v2_value = V2Message | V2Unit | V2U8 "8 word" | V2U16 "16 word"

definition v2_method :: "bool \<Rightarrow> ident \<Rightarrow> pat \<Rightarrow> ident \<Rightarrow> ty option \<Rightarrow> nat \<Rightarrow> nat impl_method" where
  "v2_method async name p msg out b =
     \<lparr>m_attrs = [], m_pub = False, m_async = async, m_ident = name,
      m_inputs = [Receiver, Typed p (TyPath (type_path_from_idents [msg]))],
      m_output = out, m_block = UserBlock b\<rparr>"

definition v2_impl :: "nat item_impl" where
  "v2_impl =
     \<lparr>impl_attrs = [], impl_trait = None, impl_self = TyPath (type_path_from_idents [''MyActor'']),
      impl_items =
        [Method (v2_method True ''handle_msg1'' (PIdent False ''_msg1'') ''Message1'' None 1),
         Method (v2_method True ''ra_ri_ru_rei_ro'' PWild ''Message2'' (Some (TyPath (type_path_from_idents [''u8'']))) 2),
         Method (v2_method False ''handle_blocking'' PWild ''Message3'' (Some (TyPath (type_path_from_idents [''u16'']))) 3)]\<rparr>"

text \<open>The closure of a blocking method ends without a panic here; the runtime is tokio.\<close>

definition v2_code :: "(v2_value, nat, unit) user_code" where
  "v2_code =
     \<lparr>run_async = (\<lambda>b env s. (if b = 1 then V2Unit else V2U8 8, s)),
      run_blocking = (\<lambda>b env. V2U16 16),
      spawn_blocking = (\<lambda>v. the (runtime_spawn_blocking TokioRuntime (Inr v)))\<rparr>"

text \<open>What the macro makes of the block, and \<open>main\<close>: the three sends and what they return.\<close>

definition v2_items :: "nat item list" where "v2_items = the (handler_v2 [] v2_impl)"

type_synonym v2_world = "(unit, (v2_value, nat) val, (v2_value, nat) val, unit, unit, unit) world"

definition v2_actor :: "(unit, (v2_value, nat) val, (v2_value, nat) val, unit, unit, unit) actor_impl" where
  "v2_actor = generated_impl v2_code v2_items ''MyActor'' (\<lambda>f s. (((), ()), f, s)) id id"

definition v2_send ::
  "(unit, unit, (v2_value, nat) val) address \<Rightarrow> ident \<Rightarrow> v2_world
     \<Rightarrow> (v2_value, nat) val send_result option \<times> v2_world" where
  "v2_send self msg w =
     address_send (world_env v2_actor)
       (generated_into v2_code v2_items ''MyActor'' (type_path_from_idents [msg]) ())
       (generated_map v2_code v2_items ''MyActor'' (type_path_from_idents [msg]) ()) self V2Message w"

definition v2_main :: "(v2_value, nat) val send_result option list" where
  "v2_main =
     (let address = address_new 0 [] (actor_state_new config_default :: unit actor_state);
          w = world_start v2_actor config_default ();
          (res1, w1) = v2_send address ''Message1'' w;
          (res2, w2) = v2_send address ''Message2'' w1;
          (res3, w3) = v2_send address ''Message3'' w2
      in [res1, res2, res3])"

definition v2_info :: "bool \<Rightarrow> ident \<Rightarrow> ident \<Rightarrow> ty option \<Rightarrow> nat \<Rightarrow> nat handle_info" where
  "v2_info async var msg out b =
     \<lparr>message_var_ident = var, message_type_path = type_path_from_idents [msg],
      message_return_type = out, method_block = UserBlock b, is_async = async\<rparr>"

definition v2_infos :: "nat handle_info list" where
  "v2_infos =
     [v2_info True ''_msg1'' ''Message1'' None 1,
      v2_info True ''_msg'' ''Message2'' (Some (TyPath (type_path_from_idents [''u8'']))) 2,
      v2_info False ''_msg'' ''Message3'' (Some (TyPath (type_path_from_idents [''u16'']))) 3]"

lemma v2_expands: "expands [] v2_impl ''MyActor'' v2_infos v2_items"
proof -
  have self: "self_ident (impl_self v2_impl) = Some ''MyActor''" by (simp add: v2_impl_def)
  have info: "info_of v2_impl = Some v2_infos"
    by (simp add: info_of_def v2_impl_def v2_method_def v2_infos_def v2_info_def has_attr_def is_ident_def
        handle_info_new_def)
  have paths: "\<forall>h \<in> set v2_infos. get_ident (message_type_path h) \<noteq> None"
    by (simp add: v2_infos_def v2_info_def)
  from handler_v2_shape [OF self info paths, of "[]"] self info paths show ?thesis
    by (auto simp: expands_def v2_infos_def v2_info_def v2_items_def)
qed

lemma v2_send_idle:
  assumes "idle w" and "v2_info async var msg out b \<in> set v2_infos"
  shows "\<exists>w'. v2_send self msg w =
     (Some (Ok (VUser (if async then if b = 1 then V2Unit else V2U8 8 else V2U16 16))), w') \<and> idle w'"
proof -
  let ?h = "v2_info async var msg out b"
  have m: "method_outcome v2_code ?h b env (the_actor w) =
      (Ok (VUser (if async then if b = 1 then V2Unit else V2U8 8 else V2U16 16)), the_actor w)" for env
    by (simp add: method_outcome_def v2_info_def v2_code_def runtime_spawn_blocking_def)
  have blk: "method_block ?h = UserBlock b" and path: "message_type_path ?h = type_path_from_idents [msg]"
    by (simp_all add: v2_info_def)
  from generated_send_idle [OF v2_expands assms(2) blk assms(1) m] show ?thesis
    unfolding v2_send_def v2_actor_def path by blast
qed

text \<open>
  The assertions of \<open>main\<close> in \<open>examples/handler_v2.rs\<close> hold: whatever the methods are called, each
  message gets the result of the method written for its type, the blocking one included.
\<close>

theorem v2_main_results:
  "v2_main = [Some (Ok (VUser V2Unit)), Some (Ok (VUser (V2U8 8))), Some (Ok (VUser (V2U16 16)))]"
proof -
  let ?address = "address_new 0 [] (actor_state_new config_default :: unit actor_state)"
  have mem: "v2_info True ''_msg1'' ''Message1'' None 1 \<in> set v2_infos"
    "v2_info True ''_msg'' ''Message2'' (Some (TyPath (type_path_from_idents [''u8'']))) 2 \<in> set v2_infos"
    "v2_info False ''_msg'' ''Message3'' (Some (TyPath (type_path_from_idents [''u16'']))) 3 \<in> set v2_infos"
    by (simp_all add: v2_infos_def)
  obtain w1 where w1: "v2_send ?address ''Message1'' (world_start v2_actor config_default ()) =
      (Some (Ok (VUser V2Unit)), w1)" "idle w1"
    using v2_send_idle [where self = ?address, OF idle_start mem(1)] by auto
  obtain w2 where w2: "v2_send ?address ''Message2'' w1 = (Some (Ok (VUser (V2U8 8))), w2)" "idle w2"
    using v2_send_idle [where self = ?address, OF w1(2) mem(2)] by auto
  obtain w3 where "v2_send ?address ''Message3'' w2 = (Some (Ok (VUser (V2U16 16))), w3)"
    using v2_send_idle [where self = ?address, OF w2(2) mem(3)] by auto
  with w1 w2 show ?thesis by (simp add: v2_main_def)
qed

text \<open>The blocking method's message, sent through the address.\<close>

theorem send_runs_method_witness:
  "\<exists>w'. v2_send (address_new 0 [] (actor_state_new config_default :: unit actor_state)) ''Message3''
       (world_start v2_actor config_default ()) = (Some (Ok (VUser (V2U16 16))), w') \<and> world_ok w'"
proof -
  let ?h = "v2_info False ''_msg'' ''Message3'' (Some (TyPath (type_path_from_idents [''u16'']))) 3"
  have h: "?h \<in> set v2_infos" and blk: "method_block ?h = UserBlock 3"
    by (simp_all add: v2_infos_def v2_info_def)
  have idle: "idle (world_start v2_actor config_default ())" by (rule idle_start)
  then have ok: "world_ok (world_start v2_actor config_default ())" by (simp add: idle_def)
  have "method_outcome v2_code ?h 3 env s = (Ok (VUser (V2U16 16)), s)" for env s
    by (simp add: method_outcome_def v2_info_def v2_code_def runtime_spawn_blocking_def)
  from send_runs_method [OF v2_expands h blk v2_actor_def ok idle_gets_to [OF idle] this, of "()"]
  show ?thesis unfolding v2_send_def by (auto simp: v2_info_def)
qed

subsection \<open>\<open>examples/no_macro.rs\<close>\<close>

text \<open>
  The hand written actor: its messages, the two enums, the conversions, and the handler. A wrong
  variant is \<open>unreachable!()\<close>.
\<close>

datatype message1 = Message1 (m1_0: "8 word")
datatype message2 = Message2 (m2_0: "16 word")

datatype my_actor_message = MyActorMessage1 message1 | MyActorMessage2 message2
datatype my_actor_result = Message1Res "32 word" | Message2Res "64 word"

definition from_message1 :: "message1 \<Rightarrow> my_actor_message" where
  "from_message1 msg = MyActorMessage1 msg"

definition from_message2 :: "message2 \<Rightarrow> my_actor_message" where
  "from_message2 msg = MyActorMessage2 msg"

definition map_message1 :: "my_actor_result \<Rightarrow> 32 word send_result option" where
  "map_message1 msg = (case msg of Message1Res res \<Rightarrow> Some (Ok res) | _ \<Rightarrow> None)"

definition map_message2 :: "my_actor_result \<Rightarrow> 64 word send_result option" where
  "map_message2 msg = (case msg of Message2Res res \<Rightarrow> Some (Ok res) | _ \<Rightarrow> None)"

definition nm_handle :: "my_actor_message \<Rightarrow> string \<Rightarrow> my_actor_result \<times> string" where
  "nm_handle msg self =
     (case msg of
        MyActorMessage1 msg \<Rightarrow> (Message1Res (ucast (m1_0 msg)), self)
      | MyActorMessage2 msg \<Rightarrow> (Message2Res (ucast (m2_0 msg)), self))"

definition nm_impl :: "(string, my_actor_message, my_actor_result, unit, unit, unit) actor_impl" where
  "nm_impl =
     \<lparr>impl_handle = nm_handle, impl_call = (\<lambda>f s. (((), ()), f, s)),
      impl_on_start = default_on_start, impl_on_stop = default_on_stop\<rparr>"

definition nm_main :: "32 word send_result option \<times> 64 word send_result option" where
  "nm_main =
     (let address = address_new 0 [] (actor_state_new config_default :: unit actor_state);
          w = world_start nm_impl config_default ''running'';
          (res1, w1) = address_send (world_env nm_impl) from_message1 map_message1 address (Message1 8) w;
          (res2, w2) = address_send (world_env nm_impl) from_message2 map_message2 address (Message2 16) w1
      in (res1, res2))"

lemma nm_send1:
  "idle w \<Longrightarrow> \<exists>w'. address_send (world_env nm_impl) from_message1 map_message1 self (Message1 n) w =
     (Some (Ok (ucast n)), w') \<and> the_actor w' = the_actor w \<and> idle w'"
  using send_idle [where into = from_message1 and msg = "Message1 n" and impl = nm_impl and mapr = map_message1
      and r = "Message1Res (ucast n)" and a = "the_actor w" and self = self and w = w]
  by (auto simp: nm_impl_def nm_handle_def from_message1_def map_message1_def)

lemma nm_send2:
  "idle w \<Longrightarrow> \<exists>w'. address_send (world_env nm_impl) from_message2 map_message2 self (Message2 n) w =
     (Some (Ok (ucast n)), w') \<and> the_actor w' = the_actor w \<and> idle w'"
  using send_idle [where into = from_message2 and msg = "Message2 n" and impl = nm_impl and mapr = map_message2
      and r = "Message2Res (ucast n)" and a = "the_actor w" and self = self and w = w]
  by (auto simp: nm_impl_def nm_handle_def from_message2_def map_message2_def)

text \<open>The assertions of \<open>main\<close>.\<close>

lemma nm_main_results: "nm_main = (Some (Ok 8), Some (Ok 16))"
proof -
  let ?address = "address_new 0 [] (actor_state_new config_default :: unit actor_state)"
  obtain w1 where w1: "address_send (world_env nm_impl) from_message1 map_message1 ?address (Message1 8)
      (world_start nm_impl config_default ''running'') = (Some (Ok (ucast (8 :: 8 word))), w1)" "idle w1"
    using nm_send1 [where self = ?address and n = 8, OF idle_start [of nm_impl config_default "''running''"]] by auto
  obtain w2 where "address_send (world_env nm_impl) from_message2 map_message2 ?address (Message2 16) w1 =
      (Some (Ok (ucast (16 :: 16 word))), w2)"
    using nm_send2 [where self = ?address and n = 16, OF w1(2)] by auto
  with w1 show ?thesis by (simp add: nm_main_def)
qed

text \<open>
  The same actor for the macro: its two methods as a user of \<open>handler_v2\<close> writes them.
\<close>

datatype nm_value = NMsg1 message1 | NMsg2 message2 | NU32 "32 word" | NU64 "64 word"

definition nm_block :: "nat item_impl" where
  "nm_block =
     \<lparr>impl_attrs = [], impl_trait = None, impl_self = TyPath (type_path_from_idents [''MyActor'']),
      impl_items =
        [Method (v2_method True ''handle_1'' (PIdent False ''msg'') ''Message1'' (Some (TyPath (type_path_from_idents [''u32'']))) 1),
         Method (v2_method True ''handle_2'' (PIdent False ''msg'') ''Message2'' (Some (TyPath (type_path_from_idents [''u64'']))) 2)]\<rparr>"

text \<open>The bodies: \<open>msg.0 as u32\<close> and \<open>msg.0 as u64\<close>.\<close>

definition nm_code :: "(nm_value, nat, string) user_code" where
  "nm_code =
     \<lparr>run_async = (\<lambda>b env s. (case map_of env ''msg'' of
          Some (VUser (NMsg1 msg)) \<Rightarrow> NU32 (ucast (m1_0 msg))
        | Some (VUser (NMsg2 msg)) \<Rightarrow> NU64 (ucast (m2_0 msg))
        | _ \<Rightarrow> NU32 0, s)),
      run_blocking = (\<lambda>b env. NU32 0), spawn_blocking = Ok\<rparr>"

definition nm_items :: "nat item list" where "nm_items = the (handler_v2 [] nm_block)"

definition nm_infos :: "nat handle_info list" where
  "nm_infos =
     [v2_info True ''msg'' ''Message1'' (Some (TyPath (type_path_from_idents [''u32'']))) 1,
      v2_info True ''msg'' ''Message2'' (Some (TyPath (type_path_from_idents [''u64'']))) 2]"

lemma nm_expands: "expands [] nm_block ''MyActor'' nm_infos nm_items"
proof -
  have self: "self_ident (impl_self nm_block) = Some ''MyActor''" by (simp add: nm_block_def)
  have info: "info_of nm_block = Some nm_infos"
    by (simp add: info_of_def nm_block_def v2_method_def nm_infos_def v2_info_def has_attr_def is_ident_def
        handle_info_new_def)
  have paths: "\<forall>h \<in> set nm_infos. get_ident (message_type_path h) \<noteq> None"
    by (simp add: nm_infos_def v2_info_def)
  from handler_v2_shape [OF self info paths, of "[]"] self info paths show ?thesis
    by (auto simp: expands_def nm_infos_def v2_info_def nm_items_def)
qed

definition nm_generated :: "(string, (nm_value, nat) val, (nm_value, nat) val, unit, unit, unit) actor_impl" where
  "nm_generated = generated_impl nm_code nm_items ''MyActor'' (\<lambda>f s. (((), ()), f, s)) default_on_start default_on_stop"

definition nm_generated_send where
  "nm_generated_send self msg v w =
     address_send (world_env nm_generated)
       (generated_into nm_code nm_items ''MyActor'' (type_path_from_idents [msg]) ''running'')
       (generated_map nm_code nm_items ''MyActor'' (type_path_from_idents [msg]) ''running'') self v w"

lemma nm_generated_idle:
  assumes "idle w" and "v2_info True ''msg'' msg out b \<in> set nm_infos"
    and "\<And>env. map_of env ''msg'' = Some (VUser v) \<Longrightarrow> run_async nm_code b env (the_actor w) = (r, the_actor w)"
  shows "\<exists>w'. nm_generated_send self msg v w = (Some (Ok (VUser r)), w') \<and> the_actor w' = the_actor w \<and> idle w'"
proof -
  let ?h = "v2_info True ''msg'' msg out b"
  have m: "method_outcome nm_code ?h b [(message_var_ident ?h, VUser v), (x, y)] (the_actor w) =
      (Ok (VUser r), the_actor w)" for x y
    using assms(3) by (simp add: method_outcome_def v2_info_def)
  have blk: "method_block ?h = UserBlock b" and path: "message_type_path ?h = type_path_from_idents [msg]"
    by (simp_all add: v2_info_def)
  from generated_send_idle [OF nm_expands assms(2) blk assms(1) m] show ?thesis
    unfolding nm_generated_send_def nm_generated_def path by blast
qed

text \<open>
  A caller's sends, one after the other, through either actor; the results are compared as the values
  of the generated one.
\<close>

type_synonym nm_message = "message1 + message2"

definition hand_send ::
  "(unit, unit, my_actor_message) address \<Rightarrow> nm_message \<Rightarrow>
     (string, my_actor_message, my_actor_result, unit, unit, unit) world \<Rightarrow>
     nm_value send_result option \<times> (string, my_actor_message, my_actor_result, unit, unit, unit) world" where
  "hand_send self m w =
     (case m of
        Inl msg \<Rightarrow> (case address_send (world_env nm_impl) from_message1 map_message1 self msg w of
                      (res, w') \<Rightarrow> (map_option (map_sum id NU32) res, w'))
      | Inr msg \<Rightarrow> (case address_send (world_env nm_impl) from_message2 map_message2 self msg w of
                      (res, w') \<Rightarrow> (map_option (map_sum id NU64) res, w')))"

definition macro_send ::
  "(unit, unit, (nm_value, nat) val) address \<Rightarrow> nm_message \<Rightarrow>
     (string, (nm_value, nat) val, (nm_value, nat) val, unit, unit, unit) world \<Rightarrow>
     (nm_value, nat) val send_result option \<times> (string, (nm_value, nat) val, (nm_value, nat) val, unit, unit, unit) world" where
  "macro_send self m w =
     (case m of
        Inl msg \<Rightarrow> nm_generated_send self ''Message1'' (NMsg1 msg) w
      | Inr msg \<Rightarrow> nm_generated_send self ''Message2'' (NMsg2 msg) w)"

fun sends :: "('m \<Rightarrow> 'w \<Rightarrow> 'x \<times> 'w) \<Rightarrow> 'm list \<Rightarrow> 'w \<Rightarrow> 'x list" where
  "sends f [] w = []"
| "sends f (m # ms) w = (case f m w of (x, w') \<Rightarrow> x # sends f ms w')"

lemma both_send:
  assumes "idle w" and "idle u"
  shows "\<exists>w' u' r. macro_send self m w = (Some (Ok (VUser r)), w') \<and> idle w'
     \<and> hand_send self' m u = (Some (Ok r), u') \<and> idle u'"
proof -
  have "v2_info True ''msg'' ''Message1'' (Some (TyPath (type_path_from_idents [''u32'']))) 1 \<in> set nm_infos"
    "v2_info True ''msg'' ''Message2'' (Some (TyPath (type_path_from_idents [''u64'']))) 2 \<in> set nm_infos"
    by (simp_all add: nm_infos_def)
  note gen = nm_generated_idle [OF assms(1) this(1)] nm_generated_idle [OF assms(1) this(2)]
  show ?thesis
  proof (cases m)
    case (Inl msg)
    obtain n where "msg = Message1 n" by (cases msg)
    with Inl nm_send1 [OF assms(2), of self' n] gen(1) [of "NMsg1 msg" "NU32 (ucast n)" self] show ?thesis
      by (fastforce simp: macro_send_def hand_send_def nm_code_def)
  next
    case (Inr msg)
    obtain n where "msg = Message2 n" by (cases msg)
    with Inr nm_send2 [OF assms(2), of self' n] gen(2) [of "NMsg2 msg" "NU64 (ucast n)" self] show ?thesis
      by (fastforce simp: macro_send_def hand_send_def nm_code_def)
  qed
qed

lemma both_sends:
  "idle w \<Longrightarrow> idle u \<Longrightarrow>
     sends (macro_send self) ms w = map (map_option (map_sum id VUser)) (sends (hand_send self') ms u)"
proof (induction ms arbitrary: w u)
  case (Cons m ms)
  obtain w' u' r where "macro_send self m w = (Some (Ok (VUser r)), w')" "idle w'"
    "hand_send self' m u = (Some (Ok r), u')" "idle u'"
    using both_send [OF Cons.prems] by blast
  with Cons.IH show ?case by simp
qed simp


end
