(* ===== verification/Example_Modules.thy ===== *)
theory Example_Modules
  imports Mod_System Address_Refs
begin

section \<open>Modules under \<open>actor_mod\<close>: \<open>tests/actor.rs\<close> and \<open>examples/basic.rs\<close>\<close>

subsection \<open>A module of one actor\<close>

text \<open>
  The modules of the tests and examples have one shape: an import, the actor, the messages with their
  attributes, each a struct or a type alias, and a handler for each. Bodies are numbered; every text of a result type parses.
\<close>

record mod_message =
  mm_ident :: ident
  mm_tokens :: string
  mm_pat :: pat
  mm_output :: "ty option"
  mm_block :: nat
  mm_async :: bool
  mm_alias :: bool

definition mm_decl :: "mod_message \<Rightarrow> item_decl" where
  "mm_decl x =
     \<lparr>decl_attrs = [\<lparr>attr_path = path_from_ident_str [''message''], attr_tokens = mm_tokens x\<rparr>],
      decl_ident = mm_ident x, decl_rest = []\<rparr>"

definition mm_item :: "mod_message \<Rightarrow> nat item" where
  "mm_item x = (if mm_alias x then TypeItem (mm_decl x) else StructItem (mm_decl x))"

definition mm_handler :: "ident \<Rightarrow> mod_message \<Rightarrow> nat item" where
  "mm_handler nm x =
     ImplItem \<lparr>impl_attrs = [attr_from_ident_str [''handler'']],
       impl_trait = Some (path_from_ident_str [''Handler'']),
       impl_self = TyPath (type_path_from_idents [nm]),
       impl_items = [Method
         \<lparr>m_attrs = [], m_pub = False, m_async = mm_async x, m_ident = ''handle'',
          m_inputs = [Receiver, Typed (mm_pat x) (TyPath (type_path_from_idents [mm_ident x]))],
          m_output = mm_output x, m_block = UserBlock (mm_block x)\<rparr>]\<rparr>"

definition actor_decl :: "ident \<Rightarrow> item_decl" where
  "actor_decl nm = \<lparr>decl_attrs = [attr_from_ident_str [''actor'']], decl_ident = nm, decl_rest = []\<rparr>"

definition module_of :: "ident \<Rightarrow> mod_message list \<Rightarrow> nat item list" where
  "module_of nm ms =
     [OtherTopItem ''use super::*'', StructItem (actor_decl nm)]
       @ map mm_item ms @ map (mm_handler nm) ms"

definition text_type :: "string \<Rightarrow> ty option" where "text_type s = Some (TyOther s)"

fun mm_var :: "mod_message \<Rightarrow> ident" where
  "mm_var x = (case mm_pat x of PIdent _ v \<Rightarrow> v | _ \<Rightarrow> ''_msg'')"

text \<open>What the macro makes of the module.\<close>

definition module_items :: "ident \<Rightarrow> mod_message list \<Rightarrow> nat item list" where
  "module_items nm ms = mod_items (the (actor_mod text_type (Some (module_of nm ms))))"

lemma decl_message [simp]: "is_message (mm_decl x)" "\<not> is_message (actor_decl nm)"
  "is_ident (decl_attrs (actor_decl nm)) ''actor'' \<noteq> None"
  by (simp_all add: is_message_def mm_decl_def actor_decl_def syntax_defs)

lemma decl_ident_simps [simp]: "decl_ident (mm_decl x) = mm_ident x" "decl_ident (actor_decl nm) = nm"
  by (simp_all add: mm_decl_def actor_decl_def)

lemma mm_item_simps [simp]:
  "decl_of (mm_item x) = Some (mm_decl x)"
  "\<not> is_handler (mm_item x)" "handler_method (mm_item x) = None" "impl_key (strip_item (mm_item x)) = None"
  by (simp_all add: mm_item_def)

lemma no_decls [simp]:
  "message_decls (map (mm_handler nm) ms) = []" "actor_decls (map (mm_handler nm) ms) = []"
  by (induction ms) (simp_all add: mm_handler_def)

lemma module_decls [simp]:
  "message_decls (module_of nm ms) = map mm_decl ms" "actor_decls (module_of nm ms) = [actor_decl nm]"
proof -
  have "message_decls (map mm_item ms @ map (mm_handler nm) ms') = map mm_decl ms
      \<and> actor_decls (map mm_item ms @ map (mm_handler nm) ms') = []" for ms ms'
    by (induction ms) simp_all
  then show "message_decls (module_of nm ms) = map mm_decl ms" "actor_decls (module_of nm ms) = [actor_decl nm]"
    by (simp_all add: module_of_def)
qed

lemma handler_attr [simp]: "is_ident (impl_attrs i) ''handler'' \<noteq> None \<Longrightarrow> is_handler (ImplItem i)"
  by simp

lemma is_handler_mm [simp]: "is_handler (mm_handler nm x)"
  by (simp add: mm_handler_def syntax_defs)

lemma module_methods [simp]:
  "handle_methods (module_of nm ms) = Some (map (\<lambda>x. (mm_var x, mm_ident x, UserBlock (mm_block x))) ms)"
proof -
  have "List.map_filter handler_method (map mm_item ms @ its) = List.map_filter handler_method its"
    for ms and its :: "nat item list"
    by (induction ms) (simp_all add: List.map_filter_simps)
  then have "handle_methods (module_of nm ms) = handle_methods (map (mm_handler nm) ms)"
    by (simp add: handle_methods_def module_of_def List.map_filter_simps)
  also have "\<dots> = Some (map (\<lambda>x. (mm_var x, mm_ident x, UserBlock (mm_block x))) ms)"
  proof (induction ms)
    case (Cons x ms)
    have "handler_method (mm_handler nm x) \<noteq> None"
      "handle_method (the (handler_method (mm_handler nm x))) = Some (mm_var x, mm_ident x, UserBlock (mm_block x))"
      by (cases "mm_pat x"; simp add: mm_handler_def handle_method_def syntax_defs)+
    with Cons show ?case by (auto simp: handle_methods_def List.map_filter_simps)
  qed (simp add: handle_methods_def List.map_filter_simps)
  finally show ?thesis .
qed

lemma find_handler:
  "distinct (map mm_ident ms) \<Longrightarrow> x \<in> set ms \<Longrightarrow>
     find (\<lambda>(v, i, stmts). i = mm_ident x) (map (\<lambda>x. (mm_var x, mm_ident x, UserBlock (mm_block x))) ms)
       = Some (mm_var x, mm_ident x, UserBlock (mm_block x))"
  by (induction ms) (auto simp del: mm_var.simps)

lemma module_handled_by:
  "distinct (map mm_ident ms) \<Longrightarrow> x \<in> set ms \<Longrightarrow>
     handled_by (module_of nm ms) (mm_decl x) (mm_var x) (mm_block x)"
  using find_handler [of ms x] by (auto simp: handled_by_def simp del: mm_var.simps)

lemma module_expands:
  assumes "nm \<noteq> []" and "distinct (map mm_ident ms)"
  shows "\<exists>e. actor_mod text_type (Some (module_of nm ms)) = Some e \<and> module_items nm ms = mod_items e"
proof -
  have "arm_ident (map (\<lambda>x. (mm_var x, mm_ident x, UserBlock (mm_block x))) ms) (mm_ident x) \<noteq> None"
    if "x \<in> set ms" for x
    using find_arm(1) [OF find_handler [OF assms(2) that]] by (simp del: mm_var.simps)
  then have "\<exists>e. actor_mod text_type (Some (module_of nm ms)) = Some e"
    using assms(1) by (auto simp: actor_mod_eq types_parse_def text_type_def simp del: mm_var.simps)
  then show ?thesis by (auto simp: module_items_def)
qed

lemma distinct_keys:
  assumes "distinct xs" and "inj f" "inj g" and "\<And>x y. f x \<noteq> g y" "\<And>x. f x \<noteq> k" "\<And>x. g x \<noteq> k"
  shows "distinct (concat (map (\<lambda>x. [f x, g x]) xs) @ [k])"
  using assms(1)
proof (induction xs)
  case (Cons x xs)
  have "f x \<notin> set (concat (map (\<lambda>x. [f x, g x]) xs))" "g x \<notin> set (concat (map (\<lambda>x. [f x, g x]) xs))"
    using Cons.prems assms(2-4) by (auto dest: injD) (metis assms(4))
  with Cons assms(4-6) show ?case by auto
qed simp

lemma module_coherent:
  assumes "nm \<noteq> []" and "distinct (map mm_ident ms)"
  shows "coherent (module_items nm ms)"
proof -
  let ?c = "mod_collected text_type (module_of nm ms)"
  obtain e where e: "actor_mod text_type (Some (module_of nm ms)) = Some e" and items: "module_items nm ms = mod_items e"
    using module_expands [OF assms] by blast
  from e obtain methods where
    gen: "mod_items e = map strip_item (without_handlers (module_of nm ms)) @ mod_generated ?c methods"
    by (auto simp: actor_mod_eq)
  have "filter (\<lambda>it. \<not> is_handler it) (map mm_item ms @ map (mm_handler nm) ms') =
      map mm_item ms" for ms ms'
    by (induction ms) simp_all
  then have "without_handlers (module_of nm ms) =
      [OtherTopItem ''use super::*'', StructItem (actor_decl nm)] @ map mm_item ms"
    by (simp add: module_of_def without_handlers_def)
  moreover have "List.map_filter impl_key (map strip_item (map mm_item ms)) = []" for ms
    by (induction ms) (simp_all add: List.map_filter_simps)
  ultimately have none: "List.map_filter impl_key (map strip_item (without_handlers (module_of nm ms))) = []"
    by (simp add: List.map_filter_simps)
  have ps: "params ?c = map (the_param text_type \<circ> mm_decl) ms" by simp
  have "List.map_filter impl_key (mod_generated ?c methods) =
     concat (map (\<lambda>i.
       [(Path False [Segment ''From'' (AngleArgs [TyPath (type_path_from_idents [i])])],
         TyPath (type_path_from_idents [nm @ ''Message''])),
        (Path False [Segment ''MapResult'' (AngleArgs [TyPath (type_path_from_idents [nm @ ''Result''])])],
         TyPath (type_path_from_idents [i]))]) (map mm_ident ms)) @
     [(path_from_ident_str [''Handler''], TyPath (type_path_from_idents [nm]))]"
    by (simp add: generated_keys the_param_def o_def)
  also have "distinct \<dots>"
    by (rule distinct_keys [OF assms(2)]) (auto simp: inj_def type_path_from_idents_def path_from_ident_str_def)
  finally show ?thesis by (simp add: items coherent_def gen map_filter_append none)
qed

subsection \<open>Sending to it\<close>

definition module_actor ::
  "('v, nat, 's) user_code \<Rightarrow> ident \<Rightarrow> mod_message list \<Rightarrow> ('s, ('v, nat) val, ('v, nat) val, unit, unit, unit) actor_impl" where
  "module_actor U nm ms = generated_impl U (module_items nm ms) nm (\<lambda>f s. (((), ()), f, s)) default_on_start default_on_stop"

definition module_send ::
  "('v, nat, 's) user_code \<Rightarrow> ident \<Rightarrow> mod_message list \<Rightarrow> 's \<Rightarrow> (unit, unit, ('v, nat) val) address \<Rightarrow> ident \<Rightarrow> 'v
     \<Rightarrow> ('s, ('v, nat) val, ('v, nat) val, unit, unit, unit) world
     \<Rightarrow> ('v, nat) val send_result option \<times> ('s, ('v, nat) val, ('v, nat) val, unit, unit, unit) world" where
  "module_send U nm ms s0 self msg v w =
     address_send (world_env (module_actor U nm ms))
       (generated_into U (module_items nm ms) nm (type_path_from_idents [msg]) s0)
       (generated_map U (module_items nm ms) nm (type_path_from_idents [msg]) s0) self v w"

lemma module_send_idle:
  assumes "nm \<noteq> []" and "distinct (map mm_ident ms)" and "x \<in> set ms" and "idle w" and "mm_ident x = msg"
    and "handler_outcome U (snd (message_attr (mm_tokens x))) (mm_block x)
           [(mm_var x, VUser v), (''msg'', VEnum (nm @ ''Message'') (mm_ident x) (VUser v))] (the_actor w) = (res, s')"
  shows "\<exists>w'. module_send U nm ms s0 self msg v w = (Some res, w') \<and> the_actor w' = s' \<and> idle w' \<and> w_shared w' = w_shared w"
proof -
  obtain e where e: "actor_mod text_type (Some (module_of nm ms)) = Some e" and items: "module_items nm ms = mod_items e"
    using module_expands [OF assms(1,2)] by blast
  have coh: "coherent (mod_items e)" using module_coherent [OF assms(1,2)] items by simp
  have nm: "nm = decl_ident (last (actor_decls (module_of nm ms)))" by simp
  have tokens: "message_text (mm_decl x) = message_attr (mm_tokens x)"
    by (simp add: message_text_def mm_decl_def syntax_defs)
  from mod_send_idle [OF e coh module_handled_by [OF assms(2,3)] nm assms(4), of U v res s'] assms(5,6)
  show ?thesis
    unfolding module_send_def module_actor_def items by (auto simp: tokens simp del: mm_var.simps)
qed

lemma module_start [simp]: "the_actor (world_start (module_actor U nm ms) cfg a) = a"
  by (simp add: module_actor_def default_on_start_def)

subsection \<open>\<open>tests/actor.rs\<close>\<close>

text \<open>The module of the tests. A failed assertion of a handler is the value \<open>AssertFailed\<close>.\<close>

record test_actor =
  state1 :: string
  state2 :: string

datatype test_value =
  DummyMessage1 string | DummyMessage2 "32 word" usize | TestU8 "8 word" | TestU16 "16 word" | AssertFailed

definition test_messages :: "mod_message list" where
  "test_messages =
     [\<lparr>mm_ident = ''DummyMessage1'', mm_tokens = ''(result = \"u8\")'', mm_pat = PIdent False ''msg123'',
       mm_output = Some (TyPath (type_path_from_idents [''u8''])), mm_block = 1,
       mm_async = True, mm_alias = False\<rparr>,
      \<lparr>mm_ident = ''DummyMessage2'', mm_tokens = ''(result = \"u16\")'', mm_pat = PWild,
       mm_output = Some (TyPath (type_path_from_idents [''u16''])), mm_block = 2,
       mm_async = True, mm_alias = False\<rparr>]"

definition test_code :: "(test_value, nat, test_actor) user_code" where
  "test_code =
     \<lparr>run_async = (\<lambda>b env self.
        (if b = 1
         then (case map_of env ''msg123'' of
                 Some (VUser (DummyMessage1 msg_from)) \<Rightarrow>
                   if state1 self = ''running1'' \<and> msg_from = ''a simple test'' then TestU8 8 else AssertFailed
               | _ \<Rightarrow> AssertFailed)
         else if state2 self = ''running2'' then TestU16 16 else AssertFailed, self)),
      run_blocking = (\<lambda>b env. AssertFailed), spawn_blocking = Ok\<rparr>"

text \<open>\<open>test_actor_builder\<close> and the test \<open>basic\<close>.\<close>

definition test_actor_builder :: test_actor where
  "test_actor_builder = \<lparr>state1 = ''running1'', state2 = ''running2''\<rparr>"

definition test_basic :: "((test_value, nat) val send_result option \<times> (test_value, nat) val send_result option) option" where
  "test_basic =
     map_option (\<lambda>cfg.
       (let address = address_new 0 [] (actor_state_new cfg :: unit actor_state);
            w = world_start (module_actor test_code ''TestActor'' test_messages) cfg test_actor_builder;
            send = module_send test_code ''TestActor'' test_messages test_actor_builder address;
            (res, w1) = send ''DummyMessage1'' (DummyMessage1 ''a simple test'') w;
            (res2, w2) = send ''DummyMessage2'' (DummyMessage2 1 2) w1
        in (res, res2)))
       (builder_num 1 config_default)"

text \<open>The test \<open>weak_addr\<close>: what upgrading gives once the only address has been dropped.\<close>

definition test_weak_addr :: upgraded where
  "test_weak_addr =
     (let address = refs_new (actor_state_new config_default :: unit actor_state) :: (unit, unit) refs
      in fst (address_upgrade (fst (address_drop address :: _ \<times> (unit, unit, unit, unit) effect list))))"

lemma test_distinct: "distinct (map mm_ident test_messages)"
  by (simp add: test_messages_def)

lemma u8_tokens: "snd (message_attr ''(result = \"u8\")'') = False" "snd (message_attr ''(result = \"u16\")'') = False"
  "snd (message_attr ''(result = \"()\")'') = False"
  by code_simp+

lemma test_sends:
  fixes self :: "(unit, unit, (test_value, nat) val) address"
  assumes "idle w" and "the_actor w = test_actor_builder"
  shows "\<exists>w'. module_send test_code ''TestActor'' test_messages s0 self ''DummyMessage1'' (DummyMessage1 ''a simple test'') w
       = (Some (Ok (VUser (TestU8 8))), w') \<and> the_actor w' = test_actor_builder \<and> idle w' \<and> w_shared w' = w_shared w"
    and "\<exists>w'. module_send test_code ''TestActor'' test_messages s0 self ''DummyMessage2'' (DummyMessage2 m n) w
       = (Some (Ok (VUser (TestU16 16))), w') \<and> the_actor w' = test_actor_builder \<and> idle w' \<and> w_shared w' = w_shared w"
proof -
  let ?x = "test_messages ! 0" and ?y = "test_messages ! 1"
  have mem: "?x \<in> set test_messages" "?y \<in> set test_messages" by (simp_all add: test_messages_def)
  have tokens: "snd (message_attr (mm_tokens ?x)) = False" "snd (message_attr (mm_tokens ?y)) = False"
    by (simp_all add: test_messages_def u8_tokens)
  show "\<exists>w'. module_send test_code ''TestActor'' test_messages s0 self ''DummyMessage1'' (DummyMessage1 ''a simple test'') w
       = (Some (Ok (VUser (TestU8 8))), w') \<and> the_actor w' = test_actor_builder \<and> idle w' \<and> w_shared w' = w_shared w"
    by (rule module_send_idle [OF _ test_distinct mem(1) assms(1)])
      (simp_all add: assms(2) tokens handler_outcome_def, simp_all add: test_messages_def u8_tokens test_code_def test_actor_builder_def)
  show "\<exists>w'. module_send test_code ''TestActor'' test_messages s0 self ''DummyMessage2'' (DummyMessage2 m n) w
       = (Some (Ok (VUser (TestU16 16))), w') \<and> the_actor w' = test_actor_builder \<and> idle w' \<and> w_shared w' = w_shared w"
    by (rule module_send_idle [OF _ test_distinct mem(2) assms(1)])
      (simp_all add: assms(2) tokens handler_outcome_def, simp_all add: test_messages_def u8_tokens test_code_def test_actor_builder_def)
qed

text \<open>
  The tests \<open>basic\<close> and \<open>weak_addr\<close> pass: through the code \<open>actor_mod\<close> generates for the module each
  message gets the result of its handler, whose own assertions hold, and the last address takes the
  actors' channel with it.
\<close>

theorem tests_pass:
  "test_basic = Some (Some (Ok (VUser (TestU8 8))), Some (Ok (VUser (TestU16 16)))) \<and> test_weak_addr = NoAddress"
proof
  let ?cfg = "config_default\<lparr>num := 1\<rparr>"
  let ?address = "address_new 0 [] (actor_state_new ?cfg :: unit actor_state)"
  let ?send = "module_send test_code ''TestActor'' test_messages test_actor_builder ?address"
  let ?w = "world_start (module_actor test_code ''TestActor'' test_messages) ?cfg test_actor_builder"
  obtain w1 where w1: "?send ''DummyMessage1'' (DummyMessage1 ''a simple test'') ?w = (Some (Ok (VUser (TestU8 8))), w1)"
    "the_actor w1 = test_actor_builder" "idle w1"
    using test_sends(1) [OF idle_start module_start] by blast
  obtain w2 where "?send ''DummyMessage2'' (DummyMessage2 1 2) w1 = (Some (Ok (VUser (TestU16 16))), w2)"
    using test_sends(2) [OF w1(3,2)] by blast
  with w1(1) show "test_basic = Some (Some (Ok (VUser (TestU8 8))), Some (Ok (VUser (TestU16 16))))"
    by (simp add: test_basic_def builder_num_def check_num_def)
next
  let ?r = "refs_new (actor_state_new config_default :: unit actor_state) :: (unit, unit) refs"
  have "tx_count (fst (address_drop ?r :: _ \<times> (unit, unit, unit, unit) effect list)) = 0"
    by (rule drop_only_address) (simp add: actor_state_new_def is_running_def)
  then show "test_weak_addr = NoAddress"
    by (simp add: test_weak_addr_def address_upgrade_def weak_upgrade_def Let_def)
qed

subsection \<open>\<open>examples/basic.rs\<close>\<close>

text \<open>
  The module \<open>my_actor\<close>, and \<open>main\<close>: three sends, and an interval that is registered and later cancelled
  through its handler. What the lines printed say is left out; \<open>Timer_Correct\<close> has what becomes of the
  interval's task.
\<close>

datatype basic_value =
  BasicMessage1 string | BasicMessage2 "32 word" | BasicMessage3 | BasicU8 "8 word" | BasicU16 "16 word" | BasicUnit

definition basic_messages :: "mod_message list" where
  "basic_messages =
     [\<lparr>mm_ident = ''Message1'', mm_tokens = ''(result = \"u8\")'', mm_pat = PIdent False ''msg123'',
       mm_output = Some (TyPath (type_path_from_idents [''u8''])), mm_block = 1,
       mm_async = True, mm_alias = False\<rparr>,
      \<lparr>mm_ident = ''Message2'', mm_tokens = ''(result = \"u16\")'', mm_pat = PIdent False ''msg'',
       mm_output = Some (TyPath (type_path_from_idents [''u16''])), mm_block = 2,
       mm_async = True, mm_alias = False\<rparr>,
      \<lparr>mm_ident = ''Message3'', mm_tokens = ''(result = \"()\")'', mm_pat = PIdent False ''_msg'',
       mm_output = None, mm_block = 3,
       mm_async = True, mm_alias = False\<rparr>]"

definition basic_code :: "(basic_value, nat, test_actor) user_code" where
  "basic_code =
     \<lparr>run_async = (\<lambda>b env self. (if b = 1 then BasicU8 8 else if b = 2 then BasicU16 16 else BasicUnit, self)),
      run_blocking = (\<lambda>b env. BasicUnit), spawn_blocking = Ok\<rparr>"

definition basic_main where
  "basic_main =
     (let actor = \<lparr>state1 = ''running'', state2 = ''running''\<rparr>;
          impl = module_actor basic_code ''MyActor'' basic_messages;
          address = address_new 0 [] (actor_state_new config_default :: unit actor_state);
          w = world_start impl config_default actor;
          send = module_send basic_code ''MyActor'' basic_messages actor address;
          (res, w1) = send ''Message1'' (BasicMessage1 ''a simple test'') w;
          (res2, w2) = send ''Message2'' (BasicMessage2 22) w1;
          (res3, w3) = send ''Message3'' BasicMessage3 w2;
          (handler, w4) = address_run_interval (world_env impl) address (from_secs 1) () w3
      in ([res, res2, res3], handler, w4))"

lemma basic_distinct: "distinct (map mm_ident basic_messages)"
  by (simp add: basic_messages_def)

lemma basic_sends:
  fixes self :: "(unit, unit, (basic_value, nat) val) address"
  assumes "idle w"
  shows "\<exists>w'. module_send basic_code ''MyActor'' basic_messages s0 self ''Message1'' v w
       = (Some (Ok (VUser (BasicU8 8))), w') \<and> the_actor w' = the_actor w \<and> idle w' \<and> w_shared w' = w_shared w"
    and "\<exists>w'. module_send basic_code ''MyActor'' basic_messages s0 self ''Message2'' v w
       = (Some (Ok (VUser (BasicU16 16))), w') \<and> the_actor w' = the_actor w \<and> idle w' \<and> w_shared w' = w_shared w"
    and "\<exists>w'. module_send basic_code ''MyActor'' basic_messages s0 self ''Message3'' v w
       = (Some (Ok (VUser BasicUnit)), w') \<and> the_actor w' = the_actor w \<and> idle w' \<and> w_shared w' = w_shared w"
proof -
  let ?x = "basic_messages ! 0" and ?y = "basic_messages ! 1" and ?z = "basic_messages ! 2"
  have mem: "?x \<in> set basic_messages" "?y \<in> set basic_messages" "?z \<in> set basic_messages"
    by (simp_all add: basic_messages_def)
  have tokens: "snd (message_attr (mm_tokens ?x)) = False" "snd (message_attr (mm_tokens ?y)) = False"
    "snd (message_attr (mm_tokens ?z)) = False"
    by (simp_all add: basic_messages_def u8_tokens)
  note sends = module_send_idle [OF _ basic_distinct mem(1) assms] module_send_idle [OF _ basic_distinct mem(2) assms]
    module_send_idle [OF _ basic_distinct mem(3) assms]
  show "\<exists>w'. module_send basic_code ''MyActor'' basic_messages s0 self ''Message1'' v w
       = (Some (Ok (VUser (BasicU8 8))), w') \<and> the_actor w' = the_actor w \<and> idle w' \<and> w_shared w' = w_shared w"
    by (rule sends(1)) (simp_all add: tokens handler_outcome_def, simp_all add: basic_messages_def u8_tokens basic_code_def)
  show "\<exists>w'. module_send basic_code ''MyActor'' basic_messages s0 self ''Message2'' v w
       = (Some (Ok (VUser (BasicU16 16))), w') \<and> the_actor w' = the_actor w \<and> idle w' \<and> w_shared w' = w_shared w"
    by (rule sends(2)) (simp_all add: tokens handler_outcome_def, simp_all add: basic_messages_def u8_tokens basic_code_def)
  show "\<exists>w'. module_send basic_code ''MyActor'' basic_messages s0 self ''Message3'' v w
       = (Some (Ok (VUser BasicUnit)), w') \<and> the_actor w' = the_actor w \<and> idle w' \<and> w_shared w' = w_shared w"
    by (rule sends(3)) (simp_all add: tokens handler_outcome_def, simp_all add: basic_messages_def u8_tokens basic_code_def)
qed

lemma next_key_start [simp]: "next_key (interval_futures (state (w_shared (world_start impl cfg a)))) = 0"
  by (simp add: world_start_def context_start_def actor_state_new_def inc_active_def modify_active_eq
      interval_default_def split_def)

text \<open>
  \<open>main\<close>: the results printed are those of the three handlers, and \<open>run_interval\<close> gives a handler of the
  task it spawned, whose closure is registered.
\<close>

lemma basic_main_results:
  "\<exists>res h w'. basic_main = ([Some (Ok (VUser (BasicU8 8))), Some (Ok (VUser (BasicU16 16))), Some (Ok (VUser BasicUnit))], Ok h, w')
     \<and> (\<exists>idx. fh_tx h = Some idx \<and> SpawnInterval (fh_cell h) (from_secs 1) idx \<in> set (w_tasks w'))"
proof -
  let ?actor = "\<lparr>state1 = ''running'', state2 = ''running''\<rparr>"
  let ?impl = "module_actor basic_code ''MyActor'' basic_messages"
  let ?address = "address_new 0 [] (actor_state_new config_default :: unit actor_state)"
  let ?send = "module_send basic_code ''MyActor'' basic_messages ?actor ?address"
  let ?w = "world_start ?impl config_default ?actor"
  obtain w1 where w1: "?send ''Message1'' (BasicMessage1 ''a simple test'') ?w = (Some (Ok (VUser (BasicU8 8))), w1)"
    "idle w1" "w_shared w1 = w_shared ?w" using basic_sends(1) [OF idle_start] by blast
  obtain w2 where w2: "?send ''Message2'' (BasicMessage2 22) w1 = (Some (Ok (VUser (BasicU16 16))), w2)"
    "idle w2" "w_shared w2 = w_shared w1" using basic_sends(2) [OF w1(2)] by blast
  obtain w3 where w3: "?send ''Message3'' BasicMessage3 w2 = (Some (Ok (VUser BasicUnit)), w3)"
    "idle w3" "w_shared w3 = w_shared w2" using basic_sends(3) [OF w2(2)] by blast
  have "next_key (interval_futures (state (w_shared w3))) < usize_max"
    by (simp add: w1(3) w2(3) w3(3) word_gt_0)
  from run_interval_idle [OF w3(2) this] obtain w4 h where
    "address_run_interval (world_env ?impl) ?address (from_secs 1) () w3 = (Ok h, w4)"
    and "fh_tx h = Some (next_key (interval_futures (state (w_shared w3))))"
    "SpawnInterval (fh_cell h) (from_secs 1) (next_key (interval_futures (state (w_shared w3)))) \<in> set (w_tasks w4)"
    by blast
  with w1(1) w2(1) w3(1) show ?thesis by (auto simp: basic_main_def Let_def)
qed

text \<open>The first message of the test, sent through the code generated for its module.\<close>

theorem send_runs_handler_witness:
  "\<exists>w'. module_send test_code ''TestActor'' test_messages test_actor_builder
       (address_new 0 [] (actor_state_new config_default :: unit actor_state)) ''DummyMessage1''
       (DummyMessage1 ''a simple test'') (world_start (module_actor test_code ''TestActor'' test_messages) config_default test_actor_builder)
     = (Some (Ok (VUser (TestU8 8))), w') \<and> world_ok w'"
proof -
  let ?x = "\<lparr>mm_ident = ''DummyMessage1'', mm_tokens = ''(result = \"u8\")'', mm_pat = PIdent False ''msg123'',
       mm_output = Some (TyPath (type_path_from_idents [''u8''])), mm_block = 1,
       mm_async = True, mm_alias = False\<rparr>"
  let ?w = "world_start (module_actor test_code ''TestActor'' test_messages) config_default test_actor_builder"
  obtain e where e: "actor_mod text_type (Some (module_of ''TestActor'' test_messages)) = Some e"
    and items: "module_items ''TestActor'' test_messages = mod_items e"
    using module_expands [OF _ test_distinct, of "''TestActor''"] by auto
  have coh: "coherent (mod_items e)" using module_coherent [OF _ test_distinct, of "''TestActor''"] items by simp
  have "?x \<in> set test_messages" by (simp add: test_messages_def)
  from module_handled_by [OF test_distinct this]
  have h: "handled_by (module_of ''TestActor'' test_messages) (mm_decl ?x) ''msg123'' 1" by simp
  have nm: "''TestActor'' = decl_ident (last (actor_decls (module_of ''TestActor'' test_messages)))" by simp
  have tokens: "snd (message_text (mm_decl ?x)) = False"
    by (simp add: message_text_def mm_decl_def syntax_defs u8_tokens)
  have idle: "idle ?w" by (rule idle_start)
  then have ok: "world_ok ?w" by (simp add: idle_def)
  have w: "the_actor ?w = test_actor_builder" by (rule module_start)
  have out: "handler_outcome test_code (snd (message_text (mm_decl ?x))) 1
      [(''msg123'', VUser (DummyMessage1 ''a simple test'')),
       (''msg'', VEnum (''TestActor'' @ ''Message'') (decl_ident (mm_decl ?x)) (VUser (DummyMessage1 ''a simple test'')))]
      (the_actor ?w) = (Ok (VUser (TestU8 8)), test_actor_builder)"
    by (simp only: w tokens) (simp add: handler_outcome_def test_code_def test_actor_builder_def)
  from send_runs_handler [OF e coh h nm module_actor_def [of test_code "''TestActor''" test_messages, unfolded items] ok idle_gets_to [OF idle] out]
  show ?thesis unfolding module_send_def items by auto
qed

end
