(* ===== verification/Example_Broadcast.thy ===== *)
theory Example_Broadcast
  imports Shared_Actors Actor_Set_Play
begin

section \<open>The examples \<open>broadcast.rs\<close> and \<open>concurrency.rs\<close>\<close>

subsection \<open>\<open>examples/broadcast.rs\<close>\<close>

text \<open>
  Every actor holds the same counter. \<open>fetch_add\<close> gives the value before it adds, and wraps. The
  closure given to \<open>run\<close> reads the counter. The builder puts a pointer to the counter into each actor.
\<close>

type_synonym counter_actor = "usize \<times> unit"

definition fetch_add :: "usize \<Rightarrow> usize \<Rightarrow> usize \<times> usize" where
  "fetch_add n mem = (mem, mem + n)"

definition handle_msg1 :: "unit \<Rightarrow> counter_actor \<Rightarrow> usize \<times> counter_actor" where
  "handle_msg1 msg self = (let (old, mem) = fetch_add 1 (fst self) in (old, mem, snd self))"

definition bc_impl :: "(counter_actor, unit, usize, unit, unit, usize) actor_impl" where
  "bc_impl =
     \<lparr>impl_handle = handle_msg1, impl_call = (\<lambda>f self. (((), fst self), f, self)),
      impl_on_start = default_on_start, impl_on_stop = default_on_stop\<rparr>"

definition bc_build :: "'w \<Rightarrow> counter_actor \<times> 'w" where "bc_build w = ((0, ()), w)"

abbreviation bc_config :: "usize \<Rightarrow> config" where
  "bc_config n \<equiv> config_default\<lparr>num := n, allow_broadcast := True\<rparr>"

text \<open>The message \<open>broadcast\<close> sends with a oneshot of its own to each actor.\<close>

abbreviation bc_message :: "oneshot \<Rightarrow> (unit, unit) context_message" where
  "bc_message tx \<equiv> Instant (InstantStatic (Some tx) ())"

subsection \<open>What the actors answer\<close>

lemma unit_update [simp]: "ps[i := ()] = ps"
  by (simp add: list_eq_iff_nth_eq)

lemma serve_fetch_add:
  "\<forall>x \<in> set ms. fst x \<noteq> None \<Longrightarrow>
     serve (shared_handle bc_impl) ms (g, ps) =
       (zip (map (the \<circ> fst) ms) (map (\<lambda>k. g + of_nat k) [0..<length ms]), g + of_nat (length ms), ps)"
proof (induction ms arbitrary: g)
  case (Cons x ms)
  obtain t i where x: "x = (Some t, i, ())" using Cons.prems by (cases x) auto
  have "map (\<lambda>k. g + of_nat k) [0..<length (x # ms)] = g # map (\<lambda>k. g + 1 + of_nat k) [0..<length ms]"
    by (simp add: upt_conv_Cons map_Suc_upt [symmetric] o_def add.assoc del: upt_Suc)
  with Cons show ?case
    by (simp add: x shared_handle_def bc_impl_def handle_msg1_def fetch_add_def add.assoc del: upt_Suc)
qed simp

text \<open>A list is its elements by index.\<close>

lemma mset_by_index:
  "\<forall>x \<in> set ms. f x < n \<Longrightarrow> mset ms = mset (concat (map (\<lambda>i. filter (\<lambda>x. f x = i) ms) [0..<n]))"
proof -
  have "mset (filter (\<lambda>x. f x < n) ms) = mset (concat (map (\<lambda>i. filter (\<lambda>x. f x = i) ms) [0..<n]))"
  proof (induction n)
    case (Suc n)
    have "mset (filter (\<lambda>x. f x < Suc n) ms) = mset (filter (\<lambda>x. f x < n) ms) + mset (filter (\<lambda>x. f x = n) ms)"
      by (induction ms) auto
    with Suc show ?case by simp
  qed simp
  moreover assume "\<forall>x \<in> set ms. f x < n"
  ultimately show ?thesis by (simp add: filter_True)
qed

lemma start_loop_actors:
  "start_loop bc_build bounded st n is senders w = (ctxs, senders', w') \<Longrightarrow>
     map (actor \<circ> fst) ctxs = map (Pair 0) (replicate (length is) ())"
  by (induction "is" arbitrary: senders w ctxs) (auto simp: bc_build_def Let_def split: prod.splits)

lemma builder_start_actors:
  assumes "builder_start bc_build bounded ch c w = (ctxs, addr, st, w')"
  shows "map (actor \<circ> fst) ctxs = map (Pair 0) (replicate (unat (num c)) ())"
  using assms start_loop_actors [of bounded "actor_state_new c" "num c" "[0..<unat (num c)]" "[]" w]
  by (auto simp: builder_start_loop Let_def split: prod.splits)

text \<open>
  C40. The assertions of \<open>examples/broadcast.rs\<close>, for any number of actors: in whatever order the actors
  get to their message, each oneshot is answered once, the answers are all the numbers below the
  number of actors, and the counter ends at that number.
\<close>

theorem broadcast_answers:
  fixes tx :: "nat \<Rightarrow> oneshot"
  assumes start: "builder_start bc_build bounded ch (bc_config n) w = (ctxs, addr :: (unit, usize, unit) address, st, w')"
    and run: "run (shared_step bc_impl open_rx) (pool_new ctxs st) tr s" and static: "list_all static_event tr"
    and "\<forall>i < unat n. handled i tr = [bc_message (tx i)]"
  shows "\<exists>ans. all_effects tr = map (\<lambda>(t, r). OneshotSend t (ReplyResult r)) ans
     \<and> mset (map fst ans) = mset (map tx [0..<unat n])
     \<and> map snd ans = map of_nat [0..<unat n]
     \<and> (\<forall>mb \<in> set (members s). fst (actor (mb_ctx mb)) = n)"
proof -
  define ps where "ps = replicate (unat n) ()"
  have "map (actor \<circ> fst) ctxs = map (Pair 0) ps" using builder_start_actors [OF start] by (simp add: ps_def)
  moreover have "impl_on_start bc_impl = id" by (simp add: bc_impl_def default_on_start_def fun_eq_iff)
  ultimately have "serial_ok bc_impl 0 ps tr s" "impl_on_start bc_impl = id"
    using serial.run_from [OF run serial_ok_new] by blast+
  with static obtain ms rs g' ps' where served: "serve (shared_handle bc_impl) ms (0, ps) = (rs, g', ps')"
    and acts: "map (actor \<circ> mb_ctx) (members s) = map (Pair g') ps'" and eff: "all_effects tr = replies_to rs"
    and idx: "\<forall>x \<in> set ms. fst (snd x) < unat n" and hd: "\<And>i. handled i tr = msgs_of i ms"
    by (auto simp: serial_ok_def ps_def split_def)
  have "filter (\<lambda>x. fst (snd x) = i) ms = [(Some (tx i), i, ())]" if "i < unat n" for i
  proof -
    from assms(4) that hd [of i] have
      "map (\<lambda>(tx, j, m). static_msg (tx, m)) (filter (\<lambda>x. fst (snd x) = i) ms) = [bc_message (tx i)]"
      by (simp add: msgs_of_def split_def)
    then obtain x where x: "filter (\<lambda>x. fst (snd x) = i) ms = [x]" and "fst x = Some (tx i)" by (auto simp: map_eq_Cons_conv)
    moreover have "fst (snd x) = i" using arg_cong [OF x, of set] by auto
    ultimately show ?thesis by (cases x) simp
  qed
  then have "map (\<lambda>i. filter (\<lambda>x. fst (snd x) = i) ms) [0..<unat n] = map (\<lambda>i. [(Some (tx i), i, ())]) [0..<unat n]"
    by simp
  with mset_by_index [OF idx] have ms: "mset ms = mset (map (\<lambda>i. (Some (tx i), i, ())) [0..<unat n])"
    by (simp only: concat_map_singleton)
  have len: "length ms = unat n" using arg_cong [OF ms, of size] by simp
  have some: "\<forall>x \<in> set ms. fst x \<noteq> None" using arg_cong [OF ms, of set_mset] by auto
  have "mset (map (the \<circ> fst) ms) = mset (map tx [0..<unat n])"
    using arg_cong [OF ms, of "image_mset (the \<circ> fst)"] by (simp add: o_def image_mset.compositionality)
  moreover have rs: "rs = zip (map (the \<circ> fst) ms) (map of_nat [0..<unat n])" "g' = n"
    using served serve_fetch_add [OF some, of 0 ps] len by auto
  moreover have "fst (actor (mb_ctx mb)) = g'" if "mb \<in> set (members s)" for mb
  proof -
    from that have "actor (mb_ctx mb) \<in> set (map (actor \<circ> mb_ctx) (members s))" by simp
    then show ?thesis unfolding acts by auto
  qed
  ultimately show ?thesis
    using eff len by (intro exI [of _ rs]) (simp add: replies_to_def)
qed

text \<open>So the sum \<open>main\<close> computes is the same in every order the results come in.\<close>

lemma broadcast_sum:
  assumes "mset results = mset (map of_nat [0..<8] :: usize list)"
  shows "fold (\<lambda>c i. i + c) results 0 = (28 :: usize)"
proof -
  have "fold (\<lambda>c i. i + c) results 0 = sum_list (results :: usize list)"
    by (simp add: fold_plus_sum_list_rev add.commute)
  also have "\<dots> = sum_list (map of_nat [0..<8] :: usize list)"
    using assms by (metis sum_mset_sum_list)
  finally show ?thesis by (simp add: upt_rec)
qed

subsection \<open>\<open>NonSharedActor\<close> of \<open>examples/concurrency.rs\<close>\<close>

text \<open>Each actor counts for itself the messages it handled.\<close>

definition ns_handle :: "unit \<Rightarrow> usize \<Rightarrow> usize \<times> usize" where
  "ns_handle msg self = (let self = self + 1 in (self, self))"

definition ns_impl :: "(usize, unit, usize, unit, unit, unit) actor_impl" where
  "ns_impl =
     \<lparr>impl_handle = ns_handle, impl_call = (\<lambda>f s. (((), ()), f, s)),
      impl_on_start = default_on_start, impl_on_stop = default_on_stop\<rparr>"

lemma serve_ns: "snd (serve ns_handle ms a) = a + of_nat (length ms)"
proof (induction ms arbitrary: a)
  case (Cons x ms)
  then show ?case by (cases x) (simp add: ns_handle_def split_def Let_def add.assoc)
qed simp

lemma non_shared_counts:
  assumes "run (pool_step ns_impl open_rx) (pool_new ctxs st) tr s" and "list_all static_event tr"
    and "\<forall>c \<in> set ctxs. actor (fst c) = 0" and "i < length ctxs"
  shows "actor (mb_ctx (members s ! i)) = of_nat (length (handled i tr))"
proof -
  have "actor (fst (ctxs ! i)) = 0" using assms(3,4) by simp
  moreover have "if mb_phase (members s ! i) = Idle
      then handled i tr = [] \<and> effects_of i tr = [] \<and> actor (mb_ctx (members s ! i)) = actor (fst (ctxs ! i))
      else serves ns_impl (actor (fst (ctxs ! i))) (handled i tr) (effects_of i tr) (actor (mb_ctx (members s ! i)))"
    using serving.run_from [OF assms(1) serve_ok_new] assms(2,4) by (auto simp: serve_ok_def)
  ultimately show ?thesis
    by (auto simp: serves_def ns_impl_def default_on_start_def serve_ns split: if_splits)
qed

subsection \<open>The theorems at work\<close>

text \<open>Two actors; the second one handles its message first and so answers \<open>0\<close>.\<close>

fun shared_play ::
  "('g \<times> 'a, 'm, 'r, 'f, 'ty, 'v) actor_impl \<Rightarrow> (oneshot \<Rightarrow> bool) \<Rightarrow> ('m, 'f) move list
     \<Rightarrow> ('g \<times> 'a, 'm, 'f, 'wk) pool
     \<Rightarrow> (('m, 'r, 'f, 'ty, 'v, 'wk) event list \<times> ('g \<times> 'a, 'm, 'f, 'wk) pool) option" where
  "shared_play impl open_rx [] s = Some ([], s)"
| "shared_play impl open_rx (mv # mvs) s =
     (case fire impl open_rx mv s of
        None \<Rightarrow> None
      | Some (l, s1) \<Rightarrow> map_option (\<lambda>(tr, s2). (l # tr, s2))
          (shared_play impl open_rx mvs (case acting l of Some i \<Rightarrow> spread i s1 | None \<Rightarrow> s1)))"

lemma shared_play_run:
  "shared_play impl open_rx mvs s = Some (tr, s') \<Longrightarrow> run (shared_step impl open_rx) s tr s'"
proof (induction mvs arbitrary: s tr)
  case (Cons mv mvs)
  then obtain l s1 tr1 where l: "fire impl open_rx mv s = Some (l, s1)"
    and rest: "shared_play impl open_rx mvs (case acting l of Some i \<Rightarrow> spread i s1 | None \<Rightarrow> s1) = Some (tr1, s')"
    and tr: "tr = l # tr1" by (auto split: option.splits)
  have "shared_step impl open_rx s l (case acting l of Some i \<Rightarrow> spread i s1 | None \<Rightarrow> s1)"
    using fire_sound [OF l] by (auto simp: shared_step_def)
  from run_append [OF Cons.IH [OF rest] run_one [of "shared_step impl open_rx", OF this]]
  show ?case by (simp add: tr)
qed simp

definition bc_two :: "(counter_actor actor_context \<times> nat option) list" where
  "bc_two = [(context_new 0 (Some 0 :: nat option) (0, ()), Some 0), (context_new 1 (Some 1 :: nat option) (0, ()), Some 1)]"

definition bc_state :: "unit actor_state" where "bc_state = actor_state_new (bc_config 2)"

lemma bc_started:
  "\<exists>addr w'. builder_start bc_build demo_bounded 0 (bc_config 2) 0 =
     (bc_two, addr :: (unit, usize, unit) address, bc_state, w')"
  by (simp add: builder_start_loop bc_two_def bc_state_def bc_build_def broadcast_receiver_def demo_bounded_def
      state_allow_broadcast_def actor_state_new_def config_default_def Let_def upt_rec)

definition bc_moves :: "(unit, unit) move list" where
  "bc_moves =
     [MStart 0, MStart 1, MSendOwn 0 (bc_message 5), MSendOwn 1 (bc_message 6),
      MTakeOwn 1, MTakeOwn 0, MHandle 1, MHandle 0]"

definition bc_trace :: "(unit, usize, unit, unit, usize, nat) event list" where
  "bc_trace =
     [Started 0, Started 1, SentOwn 0 (bc_message 5), SentOwn 1 (bc_message 6),
      TookOwn 1 (bc_message 6), TookOwn 0 (bc_message 5),
      Handled 1 (bc_message 6) False [OneshotSend 6 (ReplyResult 0)],
      Handled 0 (bc_message 5) False [OneshotSend 5 (ReplyResult 1)]]"

lemma bc_plays:
  "\<exists>s. shared_play bc_impl (\<lambda>_. True) bc_moves (pool_new bc_two bc_state) = Some (bc_trace, s)"
  by (simp add: bc_moves_def bc_trace_def bc_two_def pool_new_def bc_impl_def context_new_def sender_from_def
      bc_state_def actor_state_new_def state_allow_broadcast_def put_def inc_active_def modify_active_def
      MARKER_def UNIT_eq config_default_def spread_def set_memory_def handle_msg1_def fetch_add_def
      default_on_start_def)

theorem broadcast_answers_witness:
  "\<exists>ans. all_effects bc_trace = map (\<lambda>(t, r). OneshotSend t (ReplyResult r)) ans
     \<and> mset (map fst ans) = {#5, 6#} \<and> map snd ans = [0, 1]"
proof -
  obtain addr w' where start: "builder_start bc_build demo_bounded 0 (bc_config 2) 0 =
     (bc_two, addr :: (unit, usize, unit) address, bc_state, w')" using bc_started by blast
  obtain s where "shared_play bc_impl (\<lambda>_. True) bc_moves (pool_new bc_two bc_state) = Some (bc_trace, s)"
    using bc_plays by blast
  from shared_play_run [OF this]
  have run: "run (shared_step bc_impl (\<lambda>_. True)) (pool_new bc_two bc_state) bc_trace s" .
  have "list_all static_event bc_trace" by (auto simp: bc_trace_def is_static_def)
  moreover have "\<forall>i < unat (2 :: usize). handled i bc_trace = [bc_message ([5, 6] ! i)]"
    by (auto simp: bc_trace_def less_2_cases_iff)
  ultimately obtain ans where "all_effects bc_trace = map (\<lambda>(t, r). OneshotSend t (ReplyResult r)) ans"
    "mset (map fst ans) = mset (map ((!) [5, 6]) [0..<unat (2 :: usize)])" "map snd ans = map of_nat [0..<unat (2 :: usize)]"
    using broadcast_answers [OF start run] by blast
  then show ?thesis by (intro exI [of _ ans]) (simp add: upt_rec)
qed


end
