(* ===== verification/Example_Benchmark.thy ===== *)
theory Example_Benchmark
  imports Actor_Builder
begin

section \<open>The benchmark (\<open>examples/benchmark.rs\<close>)\<close>

text \<open>
  The command line of the benchmark, what it starts from it, and the file each message reads. What
  \<open>std::env\<close> gives, the arguments and the current directory, are parameters.
\<close>

subsection \<open>Decimal numbers\<close>

text \<open>
  \<open>str::parse::<usize>\<close>: a sign \<open>+\<close> is allowed, there must be digits, and the number must fit.
\<close>

definition digit_of :: "char \<Rightarrow> nat option" where
  "digit_of c = (let n = of_char c in if 48 \<le> n \<and> n \<le> 57 then Some (n - 48) else None)"

fun parse_digits :: "nat \<Rightarrow> string \<Rightarrow> nat option" where
  "parse_digits acc [] = Some acc"
| "parse_digits acc (c # cs) =
     (case digit_of c of
        None \<Rightarrow> None
      | Some d \<Rightarrow> (let n = 10 * acc + d in if n < 2 ^ 64 then parse_digits n cs else None))"

definition parse_usize :: "string \<Rightarrow> usize option" where
  "parse_usize s =
     (let digits = (case s of [] \<Rightarrow> [] | c # cs \<Rightarrow> if c = CHR ''+'' then cs else s)
      in if digits = [] then None else map_option of_nat (parse_digits 0 digits))"

fun show_nat :: "nat \<Rightarrow> string" where
  "show_nat n = (if n < 10 then [char_of (48 + n)] else show_nat (n div 10) @ [char_of (48 + n mod 10)])"

declare show_nat.simps [simp del]

lemma digit_of_digit: "d < 10 \<Longrightarrow> digit_of (char_of (48 + d)) = Some (d :: nat)"
  by (simp add: digit_of_def of_char_of)

lemma digit_not_plus: "digit_of c = Some d \<Longrightarrow> c \<noteq> CHR ''+''"
  by (auto simp: digit_of_def)

lemma parse_show_append: "n < 2 ^ 64 \<Longrightarrow> parse_digits 0 (show_nat n @ t) = parse_digits n t"
proof (induction n arbitrary: t rule: show_nat.induct)
  case (1 n)
  show ?case
  proof (cases "n < 10")
    case True
    with 1 show ?thesis by (simp add: show_nat.simps [of n] digit_of_digit)
  next
    case False
    have "n div 10 < 2 ^ 64" using 1(2) by simp
    from 1(1) [OF False this] have "parse_digits 0 (show_nat n @ t) = parse_digits (n div 10) (char_of (48 + n mod 10) # t)"
      by (simp add: show_nat.simps [of n] False)
    also have "\<dots> = parse_digits n t"
      using 1(2) digit_of_digit [of "n mod 10"] by (simp add: Let_def)
    finally show ?thesis .
  qed
qed

lemma show_nat_head: "\<exists>c d t. show_nat n = c # t \<and> digit_of c = Some d"
proof (induction n rule: show_nat.induct)
  case (1 n)
  show ?case
  proof (cases "n < 10")
    case True
    then show ?thesis using digit_of_digit [of n] by (simp add: show_nat.simps [of n])
  next
    case False
    from 1 [OF this] obtain c d t where "show_nat (n div 10) = c # t" "digit_of c = Some d" by blast
    then show ?thesis by (simp add: show_nat.simps [of n] False)
  qed
qed

lemma parse_show: "parse_usize (show_nat (unat n)) = Some n"
proof -
  obtain c d t where s: "show_nat (unat n) = c # t" "digit_of c = Some d" using show_nat_head by blast
  have "parse_digits 0 (show_nat (unat n)) = Some (unat n)"
    using parse_show_append [of "unat n" "[]"] unat_usize_lt [of n] by simp
  with s digit_not_plus [OF s(2)] show ?thesis by (simp add: parse_usize_def)
qed

subsection \<open>The command line\<close>

record bench_args =
  target :: string
  rounds :: usize
  heap_alloc :: bool
  dynamic :: bool

definition bench_default :: bench_args where
  "bench_default = \<lparr>target = ''actix_send'', rounds = 1000, heap_alloc = False, dynamic = False\<rparr>"

text \<open>An option with a value takes the next argument, whatever it is, if there is one.\<close>

definition take_target :: "string list \<Rightarrow> bench_args \<Rightarrow> string list \<times> bench_args" where
  "take_target rest b = (case rest of [] \<Rightarrow> ([], b) | arg # rest' \<Rightarrow> (rest', b\<lparr>target := arg\<rparr>))"

definition take_rounds :: "string list \<Rightarrow> bench_args \<Rightarrow> string list \<times> bench_args" where
  "take_rounds rest b =
     (case rest of
        [] \<Rightarrow> ([], b)
      | arg # rest' \<Rightarrow> (rest', case parse_usize arg of Some r \<Rightarrow> b\<lparr>rounds := r\<rparr> | None \<Rightarrow> b))"

definition bench_arg :: "string \<Rightarrow> string list \<Rightarrow> bench_args \<Rightarrow> string list \<times> bench_args" where
  "bench_arg arg rest b =
     (let (rest, b) = (if arg = ''--target'' then take_target rest b else (rest, b));
          (rest, b) = (if arg = ''--rounds'' then take_rounds rest b else (rest, b));
          b = (if arg = ''--heap-alloc'' then b\<lparr>heap_alloc := True\<rparr> else b);
          b = (if arg = ''--dynamic'' then b\<lparr>dynamic := True\<rparr> else b)
      in (rest, b))"

lemma bench_arg_shorter: "length (fst (bench_arg arg rest b)) < Suc (length rest)"
  by (simp add: bench_arg_def take_target_def take_rounds_def Let_def split: list.split)

function collect_args :: "string list \<Rightarrow> bench_args \<Rightarrow> bench_args" where
  "collect_args [] b = b"
| "collect_args (arg # rest) b = (case bench_arg arg rest b of (rest', b') \<Rightarrow> collect_args rest' b')"
  by pat_completeness auto
termination collect_args
  by (relation "measure (\<lambda>(args, b). length args)") (simp_all add: split_def bench_arg_shorter)

declare collect_args.simps(2) [simp del]

text \<open>The file: below the current directory, when that is known and valid Unicode.\<close>

definition sample_path :: "string option \<Rightarrow> string" where
  "sample_path cwd = (case cwd of Some path \<Rightarrow> path @ ''/sample/sample.txt'' | None \<Rightarrow> ''./sample/sample.txt'')"

definition collect_arg :: "string list \<Rightarrow> string option \<Rightarrow> bench_args \<Rightarrow> string \<times> bench_args" where
  "collect_arg argv cwd b = (sample_path cwd, collect_args argv b)"

text \<open>A command line as a user means it, and as it is typed.\<close>

datatype bench_option = OTarget string | ORounds usize | OHeapAlloc | ODynamic | OOther string

fun render :: "bench_option \<Rightarrow> string list" where
  "render (OTarget t) = [''--target'', t]"
| "render (ORounds r) = [''--rounds'', show_nat (unat r)]"
| "render OHeapAlloc = [''--heap-alloc'']"
| "render ODynamic = [''--dynamic'']"
| "render (OOther s) = [s]"

fun meant :: "bench_option \<Rightarrow> bench_args \<Rightarrow> bench_args" where
  "meant (OTarget t) b = b\<lparr>target := t\<rparr>"
| "meant (ORounds r) b = b\<lparr>rounds := r\<rparr>"
| "meant OHeapAlloc b = b\<lparr>heap_alloc := True\<rparr>"
| "meant ODynamic b = b\<lparr>dynamic := True\<rparr>"
| "meant (OOther s) b = b"

definition is_option :: "string \<Rightarrow> bool" where
  "is_option s \<longleftrightarrow> s \<in> {''--target'', ''--rounds'', ''--heap-alloc'', ''--dynamic''}"

lemma collect_render:
  "(case o' of OOther s \<Rightarrow> \<not> is_option s | _ \<Rightarrow> True) \<Longrightarrow>
     collect_args (render o' @ rest) b = collect_args rest (meant o' b)"
  by (cases o') (auto simp: collect_args.simps(2) bench_arg_def take_target_def take_rounds_def parse_show is_option_def)

text \<open>
  The command line is read back as it was meant: options in any order, each number in decimal, words
  that are no options in between; the last of several settings counts, and a target may be any
  word, also one that looks like an option.
\<close>

theorem command_line_roundtrip:
  assumes "\<And>s. OOther s \<in> set opts \<Longrightarrow> \<not> is_option s"
  shows "collect_args (concat (map render opts)) b = fold meant opts b"
  using assms
proof (induction opts arbitrary: b)
  case (Cons o' opts)
  have "case o' of OOther s \<Rightarrow> \<not> is_option s | _ \<Rightarrow> True"
    using Cons.prems by (auto split: bench_option.split)
  from collect_render [OF this] Cons show ?case by simp
qed simp

lemma show_250: "show_nat 250 = ''250''"
  by code_simp

theorem command_line_roundtrip_witness:
  "collect_args [''bench'', ''--rounds'', ''250'', ''--target'', ''actix'', ''--dynamic''] bench_default =
     \<lparr>target = ''actix'', rounds = 250, heap_alloc = False, dynamic = True\<rparr>"
  using command_line_roundtrip [of "[OOther ''bench'', ORounds 250, OTarget ''actix'', ODynamic]" bench_default]
  by (simp add: is_option_def show_250 bench_default_def)

subsection \<open>What is started and asked\<close>

text \<open>
  \<open>main\<close> after the command line: the actors on as many arbiters, and the requests that are collected.
  The product of a release build wraps. A panic is \<open>None\<close>: no processors, or another target. The
  printing and the clock are left out; for the target \<open>actix\<close> the actors are that crate's.
\<close>

datatype bench_request = RunReadFile | SendPing

definition bench_requests :: "bool \<Rightarrow> usize \<Rightarrow> bench_request list" where
  "bench_requests dyn n = map (\<lambda>_. if dyn then RunReadFile else SendPing) [0..<unat n]"

definition bench_start ::
  "('w, nat, 'rx) bounded_channel \<Rightarrow> nat \<Rightarrow> usize \<Rightarrow> 'w
     \<Rightarrow> ('rx placement list \<times> ('ty, 'v, 'm) address \<times> 'f actor_state \<times> 'w) option" where
  "bench_start bounded tx n w =
     (let arbiters = [0..<unat n]
      in Option.bind (builder_num n config_default)
           (\<lambda>c. start_with_arbiters bounded tx c (length arbiters) None w))"

datatype 'x bench_run = BenchActixSend 'x "bench_request list" | BenchActix "bench_request list list"

definition bench_main ::
  "('w, nat, 'rx) bounded_channel \<Rightarrow> nat \<Rightarrow> usize \<Rightarrow> bench_args \<Rightarrow> 'w
     \<Rightarrow> ('rx placement list \<times> ('ty, 'v, 'm) address \<times> 'f actor_state \<times> 'w) bench_run option" where
  "bench_main bounded tx n b w =
     (if target b = ''actix_send''
      then map_option (\<lambda>x. BenchActixSend x (bench_requests (dynamic b) (n * rounds b))) (bench_start bounded tx n w)
      else if target b = ''actix''
      then Some (BenchActix (map (\<lambda>_. bench_requests False (rounds b)) [0..<unat n]))
      else None)"

fun asked_requests :: "'x bench_run \<Rightarrow> bench_request list" where
  "asked_requests (BenchActixSend x reqs) = reqs"
| "asked_requests (BenchActix reqs) = concat reqs"

text \<open>Every arbiter gets exactly one actor.\<close>

lemma bench_one_actor_each:
  fixes bounded :: "('w, nat, 'rx) bounded_channel"
  assumes "n \<noteq> 0"
  shows "\<exists>pls (addr :: ('ty, 'v, 'm) address) (st :: 'f actor_state) w'. bench_start bounded tx n w = Some (pls, addr, st, w')
     \<and> map pl_arbiter pls = [0..<unat n] \<and> map pl_id pls = map of_nat [0..<unat n]"
proof (cases "n = 1")
  case True
  then show ?thesis
    by (simp add: bench_start_def builder_num_def check_num_def start_with_arbiters_def Let_def)
next
  case False
  let ?c = "config_default\<lparr>num := n\<rparr>"
  let ?st = "actor_state_new ?c :: 'f actor_state"
  have len: "0 < unat n" using assms by (simp add: unat_gt_0)
  from arbiters_loop_shape [OF len, of bounded ?st n "[0..<unat n]" "[]" w]
  obtain pls senders w' where loop:
      "arbiters_loop bounded ?st n (unat n) [0..<unat n] [] w = Some (pls, senders, w')"
    and shape: "map (\<lambda>p. (pl_arbiter p, pl_id p, pl_rx p \<noteq> None)) pls =
      map (\<lambda>i. (i mod unat n, of_nat i, state_allow_broadcast ?st)) [0..<unat n]" by blast
  have "map pl_arbiter pls = map (\<lambda>i. i mod unat n) [0..<unat n]"
    using arg_cong [OF shape, of "map fst"] by (simp add: o_def)
  also have "\<dots> = [0..<unat n]" by (rule map_idI) simp
  finally have "map pl_arbiter pls = [0..<unat n]" .
  moreover have "map pl_id pls = map of_nat [0..<unat n]"
    using arg_cong [OF shape, of "map (fst \<circ> snd)"] by (simp add: o_def)
  ultimately show ?thesis
    using assms False loop
    by (simp add: bench_start_def builder_num_def check_num_def word_gt_0 start_with_arbiters_def Let_def)
qed

lemma sum_list_const: "sum_list (map (\<lambda>_. c) xs) = length xs * (c :: nat)"
  by (induction xs) simp_all

text \<open>
  Both targets are asked the same number of times, as long as the product of processors and rounds
  fits; without processors the one target panics and the other does nothing.
\<close>

lemma bench_fair:
  fixes bounded :: "('w, nat, 'rx) bounded_channel"
  assumes "n \<noteq> 0" and "unat n * unat (rounds b) < 2 ^ 64" and "t \<in> {''actix_send'', ''actix''}"
  shows "\<exists>run :: ('rx placement list \<times> ('ty, 'v, 'm) address \<times> 'f actor_state \<times> 'w) bench_run.
     bench_main bounded tx n (b\<lparr>target := t\<rparr>) w = Some run
     \<and> length (asked_requests run) = unat n * unat (rounds b)"
proof -
  have "unat (n * rounds b) = unat n * unat (rounds b)"
    using assms(2) by (simp add: unat_mult_lem [THEN iffD1])
  moreover obtain pls addr st w' where "bench_start bounded tx n w =
      Some (pls :: 'rx placement list, addr :: ('ty, 'v, 'm) address, st :: 'f actor_state, w')"
    using bench_one_actor_each [where 'ty = 'ty and 'v = 'v and 'm = 'm and 'f = 'f, OF assms(1), of bounded tx w] by blast
  ultimately show ?thesis
    using assms(3) by (auto simp: bench_main_def bench_requests_def length_concat o_def sum_list_const)
qed

subsection \<open>The file a request reads\<close>

text \<open>
  A request reads into a fresh buffer. Reading is tokio's, a parameter \<open>read\<close> that gets the length of
  the buffer and gives how much was read and the file behind it, or an error, on which \<open>unwrap\<close>
  panics. A vector made with a capacity has length \<open>0\<close>.
\<close>

definition read_file :: "(nat \<Rightarrow> 'file \<Rightarrow> ('e + nat) \<times> 'file) \<Rightarrow> bool \<Rightarrow> 'file \<Rightarrow> 8 word option \<times> 'file" where
  "read_file read heap file =
     (let buffer = (if heap then [] else replicate 1000 (0 :: 8 word))
      in case read (length buffer) file of
           (Inl e, file') \<Rightarrow> (None, file')
         | (Inr n, file') \<Rightarrow> (Some 1, file'))"

text \<open>So with \<open>--heap-alloc\<close> nothing is ever read, when a read into no space reads nothing.\<close>

lemma heap_alloc_reads_nothing:
  "read 0 file = (Inr 0, file) \<Longrightarrow> read_file read True file = (Some 1, file)"
  by (simp add: read_file_def)

end
