(* ===== verification/Example_Active_Count.thy ===== *)
theory Example_Active_Count
  imports Example_Modules Actor_Set_Play
begin

section \<open>The test \<open>active_count\<close> (\<open>tests/actor.rs\<close>)\<close>

text \<open>
  Eight actors, three of them closed one after the other, and then the assertion that five are active.
  The test does not wait for the closed actors to leave: what it asserts depends on the scheduler.
\<close>

definition active_config :: config where "active_config = the (builder_num 8 config_default)"

definition active_build :: "'w \<Rightarrow> test_actor \<times> 'w" where "active_build w = (test_actor_builder, w)"

abbreviation active_actor :: "(test_actor, (test_value, nat) val, (test_value, nat) val, unit, unit, unit) actor_impl" where
  "active_actor \<equiv> module_actor test_code ''TestActor'' test_messages"

type_synonym active_pool = "(test_actor, (test_value, nat) val, unit, nat) pool"

text \<open>
  A schedule of the test: all actors start, \<open>close_one\<close> is answered by the actors \<open>0\<close>, \<open>1\<close> and \<open>2\<close>, and those
  of a list get to the end of their task before \<open>current_active\<close> is read.
\<close>

definition close_moves :: "nat \<Rightarrow> ((test_value, nat) val, unit) move list" where
  "close_moves i = [MSend (ManualShutDown i), MTake i, MHandle i]"

definition active_moves :: "nat list \<Rightarrow> ((test_value, nat) val, unit) move list" where
  "active_moves gone = map MStart [0..<8] @ concat (map close_moves [0..<3]) @ map MLeave gone"

definition active_start :: active_pool where
  "active_start =
     (case builder_start active_build demo_bounded 0 active_config 0
             :: _ \<times> (unit, unit, (test_value, nat) val) address \<times> unit actor_state \<times> nat of
        (ctxs, _, st, _) \<Rightarrow> pool_new ctxs st)"

definition test_active_count :: "nat list \<Rightarrow> nat option" where
  "test_active_count gone =
     map_option (\<lambda>(tr, s). unat (current_active (state (pl_shared s))))
       (play active_actor (\<lambda>_. True) (active_moves gone) active_start)"

text \<open>
  Over all schedules: once all eight actors have started and three requests have been answered, the
  count is five if no actor is on its way out, and too high by those that are.
\<close>

lemma active_count_after_close:
  assumes "builder_start active_build bounded tx active_config w = (ctxs, addr, st, w')"
    and "run (pool_step active_actor open_rx) (pool_new ctxs st) tr s" and "list_all open_event tr"
    and "\<forall>mb \<in> set (members s). mb_phase mb \<noteq> Idle" and "length (filter (closes open_rx) tr) = 3"
  shows "unat (current_active (state (pl_shared s))) = 5 + length (filter (\<lambda>mb. mb_phase mb = Exiting) (members s))"
proof -
  have n: "num active_config = 8" by (simp add: active_config_def builder_num_def check_num_def)
  then have small: "unat (num active_config) < 2 ^ 63" by simp
  have "length (members s) = 8" using pool_counted [OF assms(1) small assms(2)] n by simp
  moreover have "filter (\<lambda>mb. mb_phase mb \<noteq> Idle) (members s) = members s" using assms(4) by simp
  ultimately show ?thesis
    using close_answers_early [OF assms(1) small assms(2,3)] assms(5) by simp
qed

text \<open>
  Both happen: with the three actors gone the assertion holds, and read at once after the last answer
  the count is still eight.
\<close>

lemma active_started:
  "active_start = \<lparr>members = map (\<lambda>i. \<lparr>mb_ctx = context_new (of_nat i) (None :: nat option) test_actor_builder,
       mb_phase = Idle, mb_own = []\<rparr>) [0..<8],
     pl_queue = [], pl_shared = \<lparr>state = actor_state_new active_config, cells = [], tx_strong = sender_from\<rparr>,
     pl_cap = 8, pl_group = False\<rparr>"
  by (simp add: active_start_def builder_start_loop active_config_def builder_num_def check_num_def
      active_build_def broadcast_receiver_def state_allow_broadcast_def actor_state_new_def config_default_def
      pool_new_def Let_def upt_rec)

lemma active_count_both: "test_active_count [0, 1, 2] = Some 5" "test_active_count [] = Some 8"
  by (simp_all add: test_active_count_def active_started active_moves_def close_moves_def upt_rec
      put_def sender_from_def inc_active_def dec_active_def modify_active_def MARKER_def UNIT_eq
      actor_state_new_def context_state_of_def context_exit_def state_restart_on_err_def current_active_def)

end
