(* ===== verification/Example_Aliases.thy ===== *)
theory Example_Aliases
  imports Example_Modules Channel_Sender
begin

section \<open>The examples \<open>type_alias.rs\<close> and \<open>blocking.rs\<close>\<close>

subsection \<open>\<open>examples/type_alias.rs\<close>\<close>

text \<open>
  Two modules whose message is an alias of the same type outside them; each actor answers it in its own
  way. \<open>main\<close> sends the message to both.
\<close>

datatype alias_value = AliasMessage | AliasU8 "8 word" | AliasUsize usize

definition alias_message :: "string \<Rightarrow> ident \<Rightarrow> mod_message" where
  "alias_message tokens out =
     \<lparr>mm_ident = ''Message1'', mm_tokens = tokens, mm_pat = PIdent False ''_msg'',
      mm_output = Some (TyPath (type_path_from_idents [out])), mm_block = 1, mm_async = True, mm_alias = True\<rparr>"

definition alias1 :: "mod_message list" where "alias1 = [alias_message ''(result = \"u8\")'' ''u8'']"
definition alias2 :: "mod_message list" where "alias2 = [alias_message ''(result = \"usize\")'' ''usize'']"

definition alias_code :: "alias_value \<Rightarrow> (alias_value, nat, unit) user_code" where
  "alias_code r = \<lparr>run_async = (\<lambda>b env s. (r, s)), run_blocking = (\<lambda>b env. r), spawn_blocking = Ok\<rparr>"

definition alias_main where
  "alias_main =
     (let address = address_new 0 [] (actor_state_new config_default :: unit actor_state);
          actor1 = module_actor (alias_code (AliasU8 1)) ''Actor1'' alias1;
          actor2 = module_actor (alias_code (AliasUsize 3)) ''Actor2'' alias2;
          (res, _) = module_send (alias_code (AliasU8 1)) ''Actor1'' alias1 () address ''Message1'' AliasMessage
                       (world_start actor1 config_default ());
          (res2, _) = module_send (alias_code (AliasUsize 3)) ''Actor2'' alias2 () address ''Message1'' AliasMessage
                        (world_start actor2 config_default ())
      in (res, res2))"

lemma alias_send:
  assumes "idle w" and "nm \<noteq> []" and "snd (message_attr tokens) = False"
  shows "\<exists>w'. module_send (alias_code r) nm [alias_message tokens out] () self ''Message1'' v w = (Some (Ok (VUser r)), w')"
proof -
  let ?x = "alias_message tokens out"
  have x: "mm_ident ?x = ''Message1''" "mm_tokens ?x = tokens" by (simp_all add: alias_message_def)
  have "distinct (map mm_ident [?x])" "?x \<in> set [?x]" by simp_all
  from module_send_idle [OF assms(2) this assms(1) x(1), of "alias_code r" v "Ok (VUser r)" "the_actor w"] show ?thesis
    by (auto simp: x assms(3) handler_outcome_def alias_code_def)
qed

lemma alias_tokens: "snd (message_attr ''(result = \"u8\")'') = False" "snd (message_attr ''(result = \"usize\")'') = False"
  by code_simp+

text \<open>The assertions of \<open>main\<close>: one message, and the answer of the actor it is sent to.\<close>

theorem alias_main_results: "alias_main = (Some (Ok (VUser (AliasU8 1))), Some (Ok (VUser (AliasUsize 3))))"
proof -
  let ?address = "address_new 0 [] (actor_state_new config_default :: unit actor_state) :: (unit, unit, (alias_value, nat) val) address"
  have "\<exists>w'. module_send (alias_code (AliasU8 1)) ''Actor1'' alias1 () ?address ''Message1'' AliasMessage
      (world_start (module_actor (alias_code (AliasU8 1)) ''Actor1'' alias1) config_default ()) = (Some (Ok (VUser (AliasU8 1))), w')"
    "\<exists>w'. module_send (alias_code (AliasUsize 3)) ''Actor2'' alias2 () ?address ''Message1'' AliasMessage
      (world_start (module_actor (alias_code (AliasUsize 3)) ''Actor2'' alias2) config_default ()) = (Some (Ok (VUser (AliasUsize 3))), w')"
    unfolding alias1_def alias2_def by (rule alias_send [OF idle_start]; simp add: alias_tokens)+
  then show ?thesis by (auto simp: alias_main_def Let_def)
qed

subsection \<open>\<open>examples/blocking.rs\<close>\<close>

text \<open>
  The module of the blocking example. The first handler awaits a blocking call of the runtime, which
  ends without a panic; the second is marked \<open>blocking\<close> and is no \<open>async\<close> method. The state is the two
  counters, which nothing changes; sleeping is left out.
\<close>

datatype blocking_value = BlMessage | BlMessage2 | BlJoined "unit + usize" | BlUsize usize

definition blocking_messages :: "mod_message list" where
  "blocking_messages =
     [\<lparr>mm_ident = ''Message'', mm_tokens = ''(result = \"Result<usize, JoinError>\")'', mm_pat = PWild,
       mm_output = Some (TyOther ''Result<usize, JoinError>''), mm_block = 1, mm_async = True, mm_alias = False\<rparr>,
      \<lparr>mm_ident = ''Message2'', mm_tokens = ''(result = \"usize\", blocking)'', mm_pat = PWild,
       mm_output = Some (TyPath (type_path_from_idents [''usize''])), mm_block = 2, mm_async = False,
       mm_alias = False\<rparr>]"

definition blocking_code :: "(blocking_value, nat, usize \<times> usize) user_code" where
  "blocking_code =
     \<lparr>run_async = (\<lambda>b env s. (BlJoined (Inr 2), s)), run_blocking = (\<lambda>b env. BlUsize 1),
      spawn_blocking = (\<lambda>v. the (runtime_spawn_blocking TokioRuntime (Inr v)))\<rparr>"

text \<open>
  \<open>main\<close> sends both messages at once to the two actors of an address. Each is taken by an actor that
  waits: by one each, or, if \<open>same\<close>, by the same actor one after the other.
\<close>

definition blocking_main where
  "blocking_main same =
     (let address = address_new 0 [] (actor_state_new (config_default\<lparr>num := 2\<rparr>) :: unit actor_state);
          send = module_send blocking_code ''MyActor'' blocking_messages (0, 0) address;
          w = world_start (module_actor blocking_code ''MyActor'' blocking_messages) (config_default\<lparr>num := 2\<rparr>) (0, 0);
          (res, w1) = send ''Message'' BlMessage w;
          (res2, _) = send ''Message2'' BlMessage2 (if same then w1 else w)
      in (res, res2))"

lemma blocking_tokens:
  "snd (message_attr ''(result = \"Result<usize, JoinError>\")'') = False"
  "snd (message_attr ''(result = \"usize\", blocking)'') = True"
  by code_simp+

lemma blocking_sends:
  fixes self :: "(unit, unit, (blocking_value, nat) val) address"
  assumes "idle w"
  shows "\<exists>w'. module_send blocking_code ''MyActor'' blocking_messages s0 self ''Message'' v w
       = (Some (Ok (VUser (BlJoined (Inr 2)))), w') \<and> the_actor w' = the_actor w \<and> idle w' \<and> w_shared w' = w_shared w"
    and "\<exists>w'. module_send blocking_code ''MyActor'' blocking_messages s0 self ''Message2'' v w
       = (Some (Ok (VUser (BlUsize 1))), w') \<and> the_actor w' = the_actor w \<and> idle w' \<and> w_shared w' = w_shared w"
proof -
  let ?x = "blocking_messages ! 0" and ?y = "blocking_messages ! 1"
  have distinct: "distinct (map mm_ident blocking_messages)" by (simp add: blocking_messages_def)
  have mem: "?x \<in> set blocking_messages" "?y \<in> set blocking_messages" by (simp_all add: blocking_messages_def blocking_tokens)
  have tokens: "snd (message_attr (mm_tokens ?x)) = False" "snd (message_attr (mm_tokens ?y)) = True"
    by (simp_all add: blocking_messages_def blocking_tokens)
  note sends = module_send_idle [OF _ distinct mem(1) assms] module_send_idle [OF _ distinct mem(2) assms]
  show "\<exists>w'. module_send blocking_code ''MyActor'' blocking_messages s0 self ''Message'' v w
       = (Some (Ok (VUser (BlJoined (Inr 2)))), w') \<and> the_actor w' = the_actor w \<and> idle w' \<and> w_shared w' = w_shared w"
    by (rule sends(1)) (simp_all add: tokens handler_outcome_def blocking_code_def, simp_all add: blocking_messages_def blocking_tokens)
  show "\<exists>w'. module_send blocking_code ''MyActor'' blocking_messages s0 self ''Message2'' v w
       = (Some (Ok (VUser (BlUsize 1))), w') \<and> the_actor w' = the_actor w \<and> idle w' \<and> w_shared w' = w_shared w"
    by (rule sends(2)) (simp_all add: tokens handler_outcome_def blocking_code_def runtime_spawn_blocking_def,
        simp_all add: blocking_messages_def blocking_tokens)
qed

text \<open>
  Whichever actors take them, the two results are those of the handlers: the blocking one's through the
  \<open>spawn_blocking\<close> the macro generates, and the other's as the \<open>Result\<close> its own call gave.
\<close>

theorem blocking_main_results:
  "blocking_main same = (Some (Ok (VUser (BlJoined (Inr 2)))), Some (Ok (VUser (BlUsize 1))))"
proof -
  let ?address = "address_new 0 [] (actor_state_new (config_default\<lparr>num := 2\<rparr>) :: unit actor_state) :: (unit, unit, (blocking_value, nat) val) address"
  let ?w = "world_start (module_actor blocking_code ''MyActor'' blocking_messages) (config_default\<lparr>num := 2\<rparr>) (0, 0)"
  obtain w1 where w1: "module_send blocking_code ''MyActor'' blocking_messages (0, 0) ?address ''Message'' BlMessage ?w
      = (Some (Ok (VUser (BlJoined (Inr 2)))), w1)" "idle w1"
    using blocking_sends(1) [OF idle_start] by blast
  have "idle (if same then w1 else ?w)" using w1(2) by simp
  from blocking_sends(2) [OF this, of "(0, 0)" ?address BlMessage2] w1(1) show ?thesis
    by (auto simp: blocking_main_def Let_def)
qed

end
