(* ===== verification/Example_Stream.thy ===== *)
theory Example_Stream
  imports Stream_System Example_Handlers
begin

section \<open>The example \<open>stream.rs\<close>\<close>

text \<open>
  The actor under \<open>#[handler_v2]\<close>, whose one method returns the text of its message; the mock stream;
  and \<open>main\<close>, which polls the actor's stream and sends beside it.
\<close>

datatype echo_value = EchoMessage1 (echo_from: string) | EchoString string

definition echo_impl :: "nat item_impl" where
  "echo_impl =
     \<lparr>impl_attrs = [], impl_trait = Some (path_from_ident_str [''Handler'']),
      impl_self = TyPath (type_path_from_idents [''MyActor'']),
      impl_items = [Method (v2_method True ''handle'' (PIdent False ''msg'') ''Message1''
                      (Some (TyPath (type_path_from_idents [''String'']))) 1)]\<rparr>"

text \<open>The body of \<open>handle\<close>: \<open>msg.from\<close>.\<close>

definition echo_code :: "(echo_value, nat, unit) user_code" where
  "echo_code =
     \<lparr>run_async = (\<lambda>b env s. (case map_of env ''msg'' of
          Some (VUser (EchoMessage1 text)) \<Rightarrow> EchoString text
        | _ \<Rightarrow> EchoString [], s)),
      run_blocking = (\<lambda>b env. EchoString []), spawn_blocking = Ok\<rparr>"

definition echo_items :: "nat item list" where "echo_items = the (handler_v2 [] echo_impl)"

definition echo_actor :: "(unit, (echo_value, nat) val, (echo_value, nat) val, unit, unit, unit) actor_impl" where
  "echo_actor = generated_impl echo_code echo_items ''MyActor'' (\<lambda>f s. (((), ()), f, s)) id id"

definition echo_path :: path where "echo_path = type_path_from_idents [''Message1'']"

definition echo_map :: "(echo_value, nat) val \<Rightarrow> (echo_value, nat) val send_result option" where
  "echo_map = generated_map echo_code echo_items ''MyActor'' echo_path ()"

text \<open>\<open>From<String> for Message1\<close>, and then the generated conversion.\<close>

definition into_message1 :: "string \<Rightarrow> echo_value" where "into_message1 text = EchoMessage1 text"

definition echo_into :: "string \<Rightarrow> (echo_value, nat) val" where
  "echo_into text = generated_into echo_code echo_items ''MyActor'' echo_path () (into_message1 text)"

text \<open>\<open>MockStream\<close>: five times the same text; \<open>offset\<close> is a \<open>usize\<close>.\<close>

definition mock_poll_next :: "usize \<Rightarrow> string option poll \<times> usize" where
  "mock_poll_next offset =
     (if offset = 5 then (Ready None, offset) else (Ready (Some ''message from stream''), offset + 1))"

text \<open>
  \<open>main\<close> joins two futures: one asks the stream for its next result five times, the other sends the
  numbered messages one after the other. The executor polls both, then the actor runs, and so on.
\<close>

definition numbered_text :: "nat \<Rightarrow> string" where
  "numbered_text i = ''message from sender '' @ [char_of (48 + i)]"

definition stream_main where
  "stream_main =
     (let address = address_new 0 [] (actor_state_new config_default :: unit actor_state) :: (unit, unit, (echo_value, nat) val) address;
          (new_stream, _) = address_send_stream address 0;
          mvs = concat (map (\<lambda>i. stream_round [echo_into (numbered_text i)]) [0..<5]);
          (outs, txs, _, w) = stream_play echo_actor mock_poll_next echo_into echo_map mvs new_stream
                                (world_start echo_actor config_default ())
      in (outs, map (\<lambda>tx. map_poll (reply_item echo_map) (se_poll_rx world_stream_env tx w)) txs))"

subsection \<open>What the generated code does with a message\<close>

definition echo_info :: "nat handle_info" where
  "echo_info = v2_info True ''msg'' ''Message1'' (Some (TyPath (type_path_from_idents [''String'']))) 1"

lemma echo_expands: "expands [] echo_impl ''MyActor'' [echo_info] echo_items"
proof -
  have self: "self_ident (impl_self echo_impl) = Some ''MyActor''" by (simp add: echo_impl_def)
  have info: "info_of echo_impl = Some [echo_info]"
    by (simp add: info_of_def echo_impl_def v2_method_def echo_info_def v2_info_def has_attr_def is_ident_def
        handle_info_new_def)
  have paths: "\<forall>h \<in> set [echo_info]. get_ident (message_type_path h) \<noteq> None"
    by (simp add: echo_info_def v2_info_def)
  from handler_v2_shape [OF self info paths, of "[]"] self info paths show ?thesis
    by (auto simp: expands_def echo_info_def v2_info_def echo_items_def)
qed

lemma echo_handles: "\<exists>r. impl_handle echo_actor (echo_into t) s = (r, s)
    \<and> echo_map r = Some (Ok (VUser (EchoString t)))"
proof -
  have blk: "method_block echo_info = UserBlock 1" and path: "message_type_path echo_info = echo_path"
    by (simp_all add: echo_info_def v2_info_def echo_path_def)
  have "method_outcome echo_code echo_info 1 [(message_var_ident echo_info, VUser (into_message1 t)), (''msg'', z)] s =
      (Ok (VUser (EchoString t)), s)" for z
    by (simp add: method_outcome_def echo_info_def v2_info_def echo_code_def into_message1_def)
  from generated_method [OF echo_expands _ blk this, of "\<lambda>f s. (((), ()), f, s)" id id "()"] show ?thesis
    by (simp add: path echo_map_def echo_into_def echo_actor_def)
qed

lemma echo_outcome:
  assumes "i < length ms" and "ms ! i = echo_into t"
  shows "echo_map (fst (outcomes (impl_handle echo_actor) ms s) ! i) = Some (Ok (VUser (EchoString t)))"
  using outcomes_take_Suc [OF assms(1), of "impl_handle echo_actor" s]
    echo_handles [of t "snd (outcomes (impl_handle echo_actor) (take i ms) s)"] assms(2)
  by auto

subsection \<open>The mock stream follows a script\<close>

definition mock_script :: "usize \<Rightarrow> string poll list" where
  "mock_script offset = replicate (unat (5 - offset)) (Ready ''message from stream'')"

lemma mock_follows: "script_next (mock_script offset) = map_prod id mock_script (mock_poll_next offset)"
proof (cases "offset = 5")
  case False
  have "unat (5 - offset - 1) = unat (5 - offset) - 1" using False by (intro unat_minus_one) simp
  moreover have "0 < unat (5 - offset)" using False by (simp add: unat_gt_0)
  ultimately have "unat (5 - offset) = Suc (unat (5 - offset - 1))" by linarith
  then have "unat (5 - offset) = Suc (unat (5 - (offset + 1)))" by (simp only: diff_diff_eq)
  with False show ?thesis by (simp add: mock_script_def mock_poll_next_def)
qed (simp add: mock_script_def mock_poll_next_def)

subsection \<open>The assertions of \<open>main\<close>\<close>

lemma caller_messages_append: "caller_messages (xs @ ys) = caller_messages xs @ caller_messages ys"
  by (induction xs rule: caller_messages.induct) simp_all

lemma callers_messages: "caller_messages (map CallerSend ks) = ks"
  by (induction ks) simp_all

lemma round_messages: "caller_messages (concat (map stream_round kss)) = concat kss"
  by (induction kss) (simp_all add: caller_messages_append callers_messages stream_round_def)

text \<open>
  Every result of the stream is its text, and every other send gets its own text back: the assertions
  in the two futures of \<open>main\<close> hold, through the code the macro generates.
\<close>

theorem stream_main_results:
  "stream_main =
     (replicate 5 (Some (Ok (VUser (EchoString ''message from stream'')))),
      map (\<lambda>i. Ready (Some (Ok (VUser (EchoString (numbered_text i)))))) [0..<5])"
proof -
  let ?items = "replicate 5 ''message from stream''"
  let ?kss = "map (\<lambda>i. [echo_into (numbered_text i)]) [0..<5]"
  let ?mvs = "concat (map stream_round ?kss)"
  let ?w = "world_start echo_actor config_default ()"
  let ?new = "actor_stream_new (0 :: usize)"
  let ?plain = "actor_stream_new (map Ready ?items)"
  obtain outs txs s' w where run: "stream_play echo_actor mock_poll_next echo_into echo_map ?mvs ?new ?w = (outs, txs, s', w)"
    by (metis prod_cases4)
  have new: "map_stream mock_script ?new = ?plain"
    by (simp add: map_stream_def actor_stream_new_def mock_script_def)
  from stream_play_map [of script_next mock_script mock_poll_next, OF mock_follows, of echo_actor echo_into echo_map ?mvs ?new ?w]
  have plain: "stream_play echo_actor script_next echo_into echo_map ?mvs ?plain ?w = (outs, txs, map_stream mock_script s', w)"
    by (simp only: new run) simp
  have start: "world_log echo_actor () [] 0 ?w" using world_log_start [of echo_actor "()" config_default] by simp
  then have start': "world_log echo_actor () [] (length []) ?w" by simp
  have "length outs = length ?items \<and> w_queue w = []"
    by (rule rounds_yield_all [OF start' _ _ _ plain]) (simp_all add: actor_stream_new_def)
  then have len: "length outs = 5" and empty: "w_queue w = []" by simp_all
  have items: "script_items (map Ready xs) = xs" for xs :: "string list" by (induction xs) simp_all
  from stream_play_log [of echo_actor "()" "[]" 0 ?w echo_into echo_map, OF _ stream_log_new plain] start
  obtain log n where w: "world_log echo_actor () (map snd log) n w"
    and s: "stream_log echo_actor () echo_into echo_map (script_items (map Ready ?items)) log outs (map_stream mock_script s')"
    and callers: "positions False log = txs" "map snd (filter (\<lambda>e. \<not> fst e) log) = caller_messages ?mvs"
    by auto
  let ?rs = "fst (outcomes (impl_handle echo_actor) (map snd log) ())"
  note echo = echo_outcome [of _ "map snd log"]
  have own: "map (\<lambda>i. snd (log ! i)) (positions True log) = map echo_into (take (length (positions True log)) ?items)"
    using s by (simp only: stream_log_def items)
  have "set (positions True log) \<subseteq> {i. i < length log \<and> snd (log ! i) = echo_into ''message from stream''}"
  proof
    fix i assume i: "i \<in> set (positions True log)"
    then have "snd (log ! i) \<in> set (map (\<lambda>i. snd (log ! i)) (positions True log))" by simp
    also have "\<dots> \<subseteq> {echo_into ''message from stream''}"
      unfolding own by (auto dest: in_set_takeD)
    finally show "i \<in> {i. i < length log \<and> snd (log ! i) = echo_into ''message from stream''}"
      using positions_less [OF i] by simp
  qed
  then have "\<forall>i \<in> set (take (length outs) (positions True log)).
      echo_map (?rs ! i) = Some (Ok (VUser (EchoString ''message from stream'')))"
    using echo by (auto dest!: in_set_takeD)
  moreover have outs: "outs = map (\<lambda>i. echo_map (?rs ! i)) (take (length outs) (positions True log))"
    using s by (simp only: stream_log_def)
  from arg_cong [OF outs, of set]
  have "set outs = (\<lambda>i. echo_map (?rs ! i)) ` set (take (length outs) (positions True log))"
    by (simp only: set_map)
  ultimately have all: "\<forall>y \<in> set outs. y = Some (Ok (VUser (EchoString ''message from stream'')))"
    by simp
  have result: "outs = replicate 5 (Some (Ok (VUser (EchoString ''message from stream''))))"
    using all len by (metis replicate_length_same)
  have mine: "map (\<lambda>i. snd (log ! i)) txs = map (\<lambda>i. echo_into (numbered_text i)) [0..<5]"
  proof -
    have "caller_messages ?mvs = map (\<lambda>i. echo_into (numbered_text i)) [0..<5]"
      unfolding round_messages by simp
    with positions_filter [of log False] callers show ?thesis by simp
  qed
  have "map (\<lambda>tx. map_poll (reply_item echo_map) (se_poll_rx world_stream_env tx w)) txs =
      map (\<lambda>i. Ready (Some (Ok (VUser (EchoString (numbered_text i)))))) [0..<5]"
  proof (rule nth_equalityI)
    from mine show same: "length (map (\<lambda>tx. map_poll (reply_item echo_map) (se_poll_rx world_stream_env tx w)) txs) =
        length (map (\<lambda>i. Ready (Some (Ok (VUser (EchoString (numbered_text i)))))) [0..<5])"
      by (metis length_map)
    fix k assume "k < length (map (\<lambda>tx. map_poll (reply_item echo_map) (se_poll_rx world_stream_env tx w)) txs)"
    then have k: "k < length txs" "k < 5" using same by simp_all
    then have tx: "txs ! k < length log" using callers(1) positions_less by (metis nth_mem)
    moreover have "snd (log ! (txs ! k)) = echo_into (numbered_text k)"
      using arg_cong [OF mine, of "\<lambda>xs. xs ! k"] k by simp
    moreover have "n = length log" using w empty by (auto simp: world_log_def)
    ultimately show "map (\<lambda>tx. map_poll (reply_item echo_map) (se_poll_rx world_stream_env tx w)) txs ! k =
        map (\<lambda>i. Ready (Some (Ok (VUser (EchoString (numbered_text i)))))) [0..<5] ! k"
      using k echo [of "txs ! k"] world_log_rx [OF w, of "txs ! k"] by (simp add: reply_item_def)
  qed
  with result run show ?thesis
    by (simp add: stream_main_def address_send_stream_def Let_def comp_def)
qed

end
