(* ===== verification/Example_Lifecycle.thy ===== *)
theory Example_Lifecycle
  imports Hook_System Example_Handlers Address_Refs
begin

section \<open>The examples \<open>actor_lifecycle_hook.rs\<close> and \<open>dynamic_dispatch.rs\<close>\<close>

subsection \<open>\<open>examples/actor_lifecycle_hook.rs\<close>\<close>

text \<open>
  \<open>MyActor(usize)\<close> and its \<open>impl\<close> block: two hooks and a handler, with the bodies numbered. The first
  adds one to the actor; what the bodies print, and the second one's sleep, are left out.
\<close>

datatype life_value = LifeMessage | LifeUnit

definition life_method :: "attribute list \<Rightarrow> ident \<Rightarrow> fn_arg list \<Rightarrow> nat \<Rightarrow> nat impl_method" where
  "life_method attrs name args b =
     \<lparr>m_attrs = attrs, m_pub = False, m_async = True, m_ident = name, m_inputs = Receiver # args,
      m_output = None, m_block = UserBlock b\<rparr>"

definition life_impl :: "nat item_impl" where
  "life_impl =
     \<lparr>impl_attrs = [], impl_trait = None, impl_self = TyPath (type_path_from_idents [''MyActor'']),
      impl_items =
        [Method (life_method [attr_from_ident_str [''on_start'']] ''on_start'' [] 1),
         Method (life_method [attr_from_ident_str [''on_stop'']] ''on_off_on_off_maybe_stop'' [] 2),
         Method (life_method [] ''handle_msg1''
           [Typed (PIdent False ''_msg1'') (TyPath (type_path_from_idents [''Message'']))] 3)]\<rparr>"

definition life_code :: "(life_value, nat, usize) user_code" where
  "life_code =
     \<lparr>run_async = (\<lambda>b env self. (LifeUnit, if b = 1 then self + 1 else self)),
      run_blocking = (\<lambda>b env. LifeUnit), spawn_blocking = Ok\<rparr>"

definition life_items :: "nat item list" where "life_items = the (handler_v2 [] life_impl)"

definition life_actor :: "(usize, (life_value, nat) val, (life_value, nat) val, unit, unit, unit) actor_impl" where
  "life_actor = hooked_impl life_code (actor_macro [] ''MyActor'') life_items ''MyActor'' (\<lambda>f s. (((), ()), f, s))"

text \<open>
  \<open>main\<close>: start, a send, and the drop of the only address. When that takes the last sender with it, the
  actor's next receive finds the channel closed. What is given back: the result, whether the task
  starts again, and the actor after \<open>on_stop\<close>.
\<close>

definition life_main where
  "life_main =
     (let address = address_new 0 [] (actor_state_new config_default :: unit actor_state) :: (unit, unit, (life_value, nat) val) address;
          w = world_start life_actor config_default 0;
          path = type_path_from_idents [''Message''];
          (res, w1) = address_send (world_env life_actor) (generated_into life_code life_items ''MyActor'' path 0)
                        (generated_map life_code life_items ''MyActor'' path 0) address LifeMessage w;
          dropped = fst (address_drop (refs_new (actor_state_new config_default :: unit actor_state) :: (unit, unit) refs)
                           :: _ \<times> (unit, unit, unit, unit) effect list)
      in (the_actor w, res,
          if tx_count dropped = 0
          then case recv_loop life_actor (\<lambda>_. True) [None] (w_shared w1) (w_actor w1) of
                 (Exited, _, sh, c, _) \<Rightarrow> (case context_exit life_actor sh c of (again, _, c') \<Rightarrow> Some (again, actor c'))
               | _ \<Rightarrow> None
          else None))"

definition life_info :: "nat handle_info" where "life_info = v2_info True ''_msg1'' ''Message'' None 3"

lemma life_expands: "expands [] life_impl ''MyActor'' [life_info] life_items"
proof -
  have self: "self_ident (impl_self life_impl) = Some ''MyActor''" by (simp add: life_impl_def)
  have info: "info_of life_impl = Some [life_info]"
    by (simp add: info_of_def life_impl_def life_method_def life_info_def v2_info_def has_attr_def is_ident_def
        handle_info_new_def syntax_defs)
  have paths: "\<forall>h \<in> set [life_info]. get_ident (message_type_path h) \<noteq> None"
    by (simp add: life_info_def v2_info_def)
  from handler_v2_shape [OF self info paths, of "[]"] self info paths show ?thesis
    by (auto simp: expands_def life_info_def v2_info_def life_items_def)
qed

lemma life_hooks:
  "handler_v2 [] life_impl = Some life_items" "self_ident (impl_self life_impl) = Some ''MyActor''"
  "\<forall>m \<in> set (methods_of (impl_items life_impl)). \<exists>b. m_block m = UserBlock b"
  "\<not> macro_flag ''no_static'' []"
  using life_expands by (simp_all add: expands_def life_impl_def life_method_def macro_flag_def)

lemma life_effects:
  "hook_effect life_code (start_hook life_impl) s = s + 1" "hook_effect life_code (stop_hook life_impl) s = s"
  by (simp_all add: hook_effect_def start_hook_def stop_hook_def life_impl_def life_method_def life_code_def
      has_attr_def is_ident_def syntax_defs)

lemma life_start_stop: "impl_on_start life_actor s = s + 1" "impl_on_stop life_actor s = s"
  by (simp_all add: life_actor_def actor_on_start_def actor_on_stop_def actor_macro_def Let_def macro_flag_def
      call_hooks [OF life_hooks(1-3)] life_effects)

lemma life_send:
  assumes "idle w"
  shows "\<exists>w'. address_send (world_env life_actor) (generated_into life_code life_items ''MyActor'' (type_path_from_idents [''Message'']) 0)
       (generated_map life_code life_items ''MyActor'' (type_path_from_idents [''Message'']) 0) self LifeMessage w
     = (Some (Ok (VUser LifeUnit)), w') \<and> the_actor w' = the_actor w \<and> idle w' \<and> w_shared w' = w_shared w"
proof -
  have blk: "method_block life_info = UserBlock 3"
    and path: "type_path_from_idents [''Message''] = message_type_path life_info"
    by (simp_all add: life_info_def v2_info_def)
  show ?thesis
    unfolding life_actor_def hooked_impl_def path
    by (rule generated_send_idle [OF life_expands _ blk assms])
      (simp_all add: method_outcome_def life_info_def v2_info_def life_code_def)
qed

text \<open>
  The send returns, the actor was started once, and the drop of the only address ends its task: it does
  not start again and \<open>on_stop\<close> runs on the actor the hook and the handler left.
\<close>

theorem life_main_runs: "life_main = (1, Some (Ok (VUser LifeUnit)), Some (False, 1))"
proof -
  let ?address = "address_new 0 [] (actor_state_new config_default :: unit actor_state) :: (unit, unit, (life_value, nat) val) address"
  let ?path = "type_path_from_idents [''Message'']"
  let ?w = "world_start life_actor config_default 0"
  have start: "the_actor ?w = 1" by (simp add: life_start_stop)
  obtain w1 where w1: "address_send (world_env life_actor) (generated_into life_code life_items ''MyActor'' ?path 0)
       (generated_map life_code life_items ''MyActor'' ?path 0) ?address LifeMessage ?w = (Some (Ok (VUser LifeUnit)), w1)"
    "the_actor w1 = 1" "w_shared w1 = w_shared ?w"
    using life_send [OF idle_start [of life_actor config_default 0], of ?address] start by auto
  have "\<not> state_restart_on_err (state (w_shared ?w))"
    by (simp add: world_start_def state_restart_on_err_def actor_state_new_def config_default_def)
  then have exit: "context_exit life_actor (w_shared w1) (w_actor w1) = (False, sh, c) \<Longrightarrow> actor c = 1"
    and "fst (context_exit life_actor (w_shared w1) (w_actor w1)) = False" for sh c
    using w1(2,3) by (auto simp: context_exit_def Let_def split_def life_start_stop state_restart_on_err_def)
  moreover have "tx_count (fst (address_drop (refs_new (actor_state_new config_default :: unit actor_state) :: (unit, unit) refs)
      :: _ \<times> (unit, unit, unit, unit) effect list)) = 0"
    by (rule drop_only_address) (simp add: actor_state_new_def is_running_def)
  ultimately show ?thesis
    using w1(1) start by (simp add: life_main_def Let_def split_def prod_eq_iff)
qed

text \<open>The hooks of this actor.\<close>

definition life_shared :: "(unit, nat) shared" where
  "life_shared = \<lparr>state = actor_state_new config_default, cells = [], tx_strong = 1\<rparr>"

theorem hooks_run_witness:
  "actor (snd (context_start life_actor life_shared (context_new 0 (None :: unit option) 4))) = 5
   \<and> actor (snd (snd (context_exit life_actor life_shared (context_new 0 (None :: unit option) 4)))) = 4"
proof -
  have I: "hooked_impl life_code (actor_macro [] ''MyActor'') life_items ''MyActor'' (\<lambda>f s. (((), ()), f, s)) = life_actor"
    by (simp add: life_actor_def)
  obtain again sh' c' where "context_exit life_actor life_shared (context_new 0 (None :: unit option) 4) = (again, sh', c')"
    by (metis prod_cases3)
  with hooks_run [OF life_hooks, of life_code "\<lambda>f s. (((), ()), f, s)" life_shared "context_new 0 (None :: unit option) 4", unfolded I]
  show ?thesis by (simp add: Let_def life_effects context_new_def)
qed

subsection \<open>\<open>examples/dynamic_dispatch.rs\<close>\<close>

text \<open>
  A \<open>no_static\<close> actor with one counter, and the two closures \<open>main\<close> runs on it: one calls
  \<open>handle_message\<close>, the other captures a string and gives back the state.
\<close>

datatype dyn_type = UnitType | UsizeType

datatype dyn_closure = CallHandleMessage | ReadState string

definition handle_message :: "usize \<Rightarrow> usize" where "handle_message state1 = state1 + 1"

fun call_dyn :: "dyn_closure \<Rightarrow> usize \<Rightarrow> (dyn_type \<times> usize) \<times> dyn_closure \<times> usize" where
  "call_dyn CallHandleMessage self = ((UnitType, 0), CallHandleMessage, handle_message self)"
| "call_dyn (ReadState var) self = ((UsizeType, self), ReadState var, self)"

definition dyn_impl :: "(usize, unit, unit, dyn_closure, dyn_type, usize) actor_impl" where
  "dyn_impl =
     \<lparr>impl_handle = (\<lambda>msg s. ((), s)), impl_call = call_dyn,
      impl_on_start = default_on_start, impl_on_stop = default_on_stop\<rparr>"

definition dyn_main :: "usize send_result" where
  "dyn_main =
     (let address = address_new 0 [] (actor_state_new config_default :: unit actor_state) :: (dyn_type, usize, unit) address;
          w = world_start dyn_impl config_default 0;
          (_, w1) = address_run (world_env dyn_impl) UnitType address CallHandleMessage w;
          (state1, _) = address_run (world_env dyn_impl) UsizeType address (ReadState ''outer variable'') w1
      in state1)"

text \<open>The state read is that after \<open>handle_message\<close>, and the \<open>unwrap\<close> in \<open>main\<close> does not panic.\<close>

theorem dyn_main_result: "dyn_main = Ok 1"
proof -
  let ?address = "address_new 0 [] (actor_state_new config_default :: unit actor_state) :: (dyn_type, usize, unit) address"
  let ?w = "world_start dyn_impl config_default 0"
  have "impl_call dyn_impl CallHandleMessage (the_actor ?w) = ((UnitType, 0), CallHandleMessage, 1)"
    by (simp add: dyn_impl_def handle_message_def default_on_start_def)
  from run_idle [OF idle_start this, of UnitType ?address] obtain w1 where
    w1: "address_run (world_env dyn_impl) UnitType ?address CallHandleMessage ?w = (Ok 0, w1)" "the_actor w1 = 1" "idle w1"
    by auto
  have "impl_call dyn_impl (ReadState v) (the_actor w1) = ((UsizeType, 1), ReadState v, 1)" for v
    by (simp add: dyn_impl_def w1(2))
  from run_idle [OF w1(3) this [of "''outer variable''"], of UsizeType ?address] w1(1) show ?thesis
    by (auto simp: dyn_main_def Let_def)
qed

end
