(* ===== verification/Example_Subscribe.thy ===== *)
theory Example_Subscribe
  imports Subscribe_System Example_Handlers
begin

section \<open>The example \<open>subscribe.rs\<close>\<close>

text \<open>
  Two actors under \<open>#[handler_v2]\<close> with the same two message types; their state is the list of lines
  they have printed, which is all their handlers do.
\<close>

datatype sub_type_id = MessageType | Message2Type

datatype sub_value = SubMessage | SubMessage2 | SubUnit

definition slave_impl :: "ident \<Rightarrow> nat item_impl" where
  "slave_impl nm =
     \<lparr>impl_attrs = [], impl_trait = None, impl_self = TyPath (type_path_from_idents [nm]),
      impl_items =
        [Method (v2_method True ''handle_msg'' (PIdent False ''_msg1'') ''Message'' None 1),
         Method (v2_method True ''handle_msg2'' (PIdent False ''_msg1'') ''Message2'' None 2)]\<rparr>"

definition slave_line :: "ident \<Rightarrow> nat \<Rightarrow> string" where
  "slave_line nm b = nm @ '': we received '' @ (if b = 1 then ''Message'' else ''Message2'') @ '' from our master actor''"

definition slave_code :: "ident \<Rightarrow> (sub_value, nat, string list) user_code" where
  "slave_code nm =
     \<lparr>run_async = (\<lambda>b env printed. (SubUnit, printed @ [slave_line nm b])),
      run_blocking = (\<lambda>b env. SubUnit), spawn_blocking = Ok\<rparr>"

definition slave_items :: "ident \<Rightarrow> nat item list" where "slave_items nm = the (handler_v2 [] (slave_impl nm))"

definition slave_actor ::
  "ident \<Rightarrow> (string list, (sub_value, nat) val, (sub_value, nat) val, unit, sub_type_id, sub_value) actor_impl" where
  "slave_actor nm =
     generated_impl (slave_code nm) (slave_items nm) nm (\<lambda>f s. ((MessageType, SubUnit), f, s))
       default_on_start default_on_stop"

definition slave_into :: "ident \<Rightarrow> ident \<Rightarrow> sub_value \<Rightarrow> (sub_value, nat) val" where
  "slave_into nm msg = generated_into (slave_code nm) (slave_items nm) nm (type_path_from_idents [msg]) []"

text \<open>
  \<open>main\<close>: the master on channel \<open>0\<close>, the slaves on \<open>1\<close> and \<open>2\<close>, all addresses held to the end. What it
  unwraps, and the slaves once they have handled what they were sent. The other operations of an
  address do not occur.
\<close>

type_synonym sub_family = "(string list, (sub_value, nat) val, (sub_value, nat) val, unit, sub_type_id, sub_value) family"

definition slave_name :: "nat \<Rightarrow> ident" where
  "slave_name ch = (if ch = 1 then ''SlaveActor1'' else ''SlaveActor2'')"

definition start_family :: sub_family where
  "start_family = (\<lambda>ch. (world_start (slave_actor (slave_name ch)) config_default [], True))"

definition subscribe_main where
  "subscribe_main E =
     (let state = (\<lambda>cfg. actor_state_new cfg :: unit actor_state);
          address_master = address_new 0 [] (state (builder_allow_subscribe config_default));
          address_slave1 = address_new 1 [] (state config_default);
          address_slave2 = address_new 2 [] (state config_default);
          (r1, m1) = address_subscribe_with MessageType (slave_into ''SlaveActor1'' ''Message'') address_slave1 address_master;
          (r2, m2) = address_subscribe_with MessageType (slave_into ''SlaveActor2'' ''Message'') address_slave2 m1;
          (r3, m3) = address_subscribe_with Message2Type (slave_into ''SlaveActor1'' ''Message2'') address_slave1 m2;
          (r4, m4) = address_subscribe_with Message2Type (slave_into ''SlaveActor2'' ''Message2'') address_slave2 m3;
          (res, F1) = address_send_subscribe (family_env E) join_in_order MessageType m4 SubMessage start_family;
          (res2, F2) = address_send_subscribe (family_env E) join_in_order Message2Type m4 SubMessage2 F1
      in ([r1, r2, r3, r4], res, res2,
          map (\<lambda>ch. the_actor (world_run (slave_actor (slave_name ch)) (fst (F2 ch)))) [1, 2]))"

definition slave_infos :: "nat handle_info list" where
  "slave_infos = [v2_info True ''_msg1'' ''Message'' None 1, v2_info True ''_msg1'' ''Message2'' None 2]"

lemma slave_expands: "expands [] (slave_impl nm) nm slave_infos (slave_items nm)"
proof -
  have self: "self_ident (impl_self (slave_impl nm)) = Some nm" by (simp add: slave_impl_def)
  have info: "info_of (slave_impl nm) = Some slave_infos"
    by (simp add: info_of_def slave_impl_def v2_method_def slave_infos_def v2_info_def has_attr_def is_ident_def
        handle_info_new_def)
  have paths: "\<forall>h \<in> set slave_infos. get_ident (message_type_path h) \<noteq> None"
    by (simp add: slave_infos_def v2_info_def)
  from handler_v2_shape [OF self info paths, of "[]"] self info paths show ?thesis
    by (auto simp: expands_def slave_infos_def v2_info_def slave_items_def)
qed

lemma slave_handles:
  assumes "v2_info True ''_msg1'' msg None b \<in> set slave_infos"
  shows "\<exists>r. impl_handle (slave_actor nm) (slave_into nm msg v) s = (r, s @ [slave_line nm b])"
proof -
  let ?h = "v2_info True ''_msg1'' msg None b"
  have blk: "method_block ?h = UserBlock b" and path: "message_type_path ?h = type_path_from_idents [msg]"
    by (simp_all add: v2_info_def)
  have "method_outcome (slave_code nm) ?h b [(message_var_ident ?h, VUser v), (''msg'', z)] s =
      (Ok (VUser SubUnit), s @ [slave_line nm b])" for z
    by (simp add: method_outcome_def v2_info_def slave_code_def)
  from generated_method [OF slave_expands [of nm] assms blk this,
      of "\<lambda>f s. ((MessageType, SubUnit), f, s)" default_on_start default_on_stop "[]"] show ?thesis
    by (auto simp: slave_actor_def slave_into_def path)
qed

lemma slave_runs:
  "the_actor (world_run (slave_actor nm) ((world_start (slave_actor nm) config_default [])\<lparr>w_queue :=
       [Instant (InstantStatic None (slave_into nm ''Message'' v)), Instant (InstantStatic None (slave_into nm ''Message2'' v'))]\<rparr>))
     = [slave_line nm 1, slave_line nm 2]"
proof -
  have mem: "v2_info True ''_msg1'' ''Message'' None 1 \<in> set slave_infos" "v2_info True ''_msg1'' ''Message2'' None 2 \<in> set slave_infos"
    by (simp_all add: slave_infos_def)
  obtain r where r: "impl_handle (slave_actor nm) (slave_into nm ''Message'' v) [] = (r, [slave_line nm 1])"
    using slave_handles [OF mem(1), of nm v "[]"] by auto
  obtain r' where r': "impl_handle (slave_actor nm) (slave_into nm ''Message2'' v') [slave_line nm 1] = (r', [slave_line nm 1, slave_line nm 2])"
    using slave_handles [OF mem(2), of nm v' "[slave_line nm 1]"] by auto
  have "impl_on_start (slave_actor nm) [] = []" by (simp add: slave_actor_def default_on_start_def)
  then show ?thesis
    using r r' by (simp add: world_run_def world_start_def context_start_def context_new_def Let_def split_def)
qed

definition master_subs :: "(sub_type_id, sub_value, (sub_value, nat) val) subscriber list" where
  "master_subs =
     [\<lparr>sub_sender = 1, sub_type = MessageType, sub_into = slave_into ''SlaveActor1'' ''Message''\<rparr>,
      \<lparr>sub_sender = 2, sub_type = MessageType, sub_into = slave_into ''SlaveActor2'' ''Message''\<rparr>,
      \<lparr>sub_sender = 1, sub_type = Message2Type, sub_into = slave_into ''SlaveActor1'' ''Message2''\<rparr>,
      \<lparr>sub_sender = 2, sub_type = Message2Type, sub_into = slave_into ''SlaveActor2'' ''Message2''\<rparr>]"

lemma start_accepts: "accepts start_family ch"
  by (simp add: accepts_def start_family_def world_start_def split_def)

lemma start_enqueued:
  "fst (enqueue_all ms start_family ch) = (world_start (slave_actor (slave_name ch)) config_default [])\<lparr>w_queue := ms ch\<rparr>"
proof -
  have "fst (enqueue_all ms start_family ch) =
      (fst (start_family ch))\<lparr>w_queue := w_queue (fst (start_family ch)) @ ms ch\<rparr>"
    by (simp add: enqueue_all_def start_accepts)
  then show ?thesis by (simp add: start_family_def world_start_def split_def)
qed

text \<open>
  Every \<open>unwrap\<close> of \<open>main\<close> succeeds, and each slave prints its two lines in the order the master sent the
  messages.
\<close>

theorem subscribe_main_results:
  "subscribe_main E =
     ([Ok (), Ok (), Ok (), Ok ()], [Ok (), Ok ()], [Ok (), Ok ()],
      map (\<lambda>nm. [slave_line nm 1, slave_line nm 2]) [''SlaveActor1'', ''SlaveActor2''])"
proof -
  define m4 :: "(sub_type_id, sub_value, (sub_value, nat) val) address" where
    "m4 = (address_new 0 [] (actor_state_new (builder_allow_subscribe config_default) :: unit actor_state))\<lparr>addr_subs := Some master_subs\<rparr>"
  have subs: "addr_subs m4 = Some master_subs" by (simp add: m4_def)
  have allowed: "state_allow_subscribe (actor_state_new (builder_allow_subscribe config_default))"
    by (simp add: state_allow_subscribe_def actor_state_new_def builder_allow_subscribe_def)
  have "subscribe_main E =
     (let (res, F1) = address_send_subscribe (family_env E) join_in_order MessageType m4 SubMessage start_family;
          (res2, F2) = address_send_subscribe (family_env E) join_in_order Message2Type m4 SubMessage2 F1
      in ([Ok (), Ok (), Ok (), Ok ()], res, res2,
          map (\<lambda>ch. the_actor (world_run (slave_actor (slave_name ch)) (fst (F2 ch)))) [1, 2]))"
    by (simp add: subscribe_main_def address_subscribe_with_def subscribe_push_def address_new_def
        subscribe_default_def allowed m4_def master_subs_def)
  also have "\<dots> = ([Ok (), Ok (), Ok (), Ok ()], [Ok (), Ok ()], [Ok (), Ok ()],
      map (\<lambda>nm. [slave_line nm 1, slave_line nm 2]) [''SlaveActor1'', ''SlaveActor2''])"
    using slave_runs [of "slave_name 1" SubMessage SubMessage2] slave_runs [of "slave_name 2" SubMessage SubMessage2]
    by (simp add: send_subscribe_in_order [OF subs] enqueue_all_simps start_accepts start_enqueued master_subs_def
        sub_message_def slave_name_def)
  finally show ?thesis .
qed

text \<open>The master's first message.\<close>

theorem subscribe_delivers_witness:
  "\<forall>E. \<exists>rs F'. address_send_subscribe (family_env E) join_in_order MessageType
       ((address_new 0 [] (actor_state_new config_default :: unit actor_state))\<lparr>addr_subs := Some master_subs\<rparr>)
       SubMessage start_family = (rs, F') \<and> rs = [Ok (), Ok ()]"
proof
  fix E
  let ?self = "(address_new 0 [] (actor_state_new config_default :: unit actor_state))\<lparr>addr_subs := Some master_subs\<rparr>"
  obtain rs F' where send: "address_send_subscribe (family_env E) join_in_order MessageType ?self SubMessage start_family = (rs, F')"
    by force
  obtain reached where "mset reached = mset (filter (\<lambda>sub. sub_type sub = MessageType) master_subs)"
    "rs = map (sub_result start_family) reached"
    using subscribe_delivers [OF join_in_order_runs _ send, of master_subs] by auto
  then have "length reached = 2" "rs = map (\<lambda>_. Ok ()) reached"
    by (simp_all add: start_accepts master_subs_def flip: size_mset)
  then have "rs = [Ok (), Ok ()]" by (simp add: map_replicate_const numeral_2_eq_2)
  with send show "\<exists>rs F'. address_send_subscribe (family_env E) join_in_order MessageType ?self SubMessage start_family = (rs, F')
      \<and> rs = [Ok (), Ok ()]" by blast
qed

end
