(* ===== verification/Ws_Handshake_Tests.thy ===== *)
theory Ws_Handshake_Tests
  imports Ws_Handshake
begin

section \<open>The unit test of the handshake (\<open>actix_send_websocket/src/lib.rs\<close>)\<close>

text \<open>
  The requests \<open>test_handshake\<close> builds, and its assertions. \<open>TestRequest\<close> belongs to actix-web; a
  request is what it puts into one, and a \<open>Connection: upgrade\<close> header is what \<open>upgrade()\<close> asks for.
  The assertions hold of the model whatever the hash of the key is.
\<close>

definition test_request :: "http_method \<Rightarrow> (header_name \<times> string) list \<Rightarrow> bool \<Rightarrow> http_request" where
  "test_request meth headers upgrade =
     \<lparr>req_method = meth, req_headers = map_of headers, req_upgrade = upgrade\<rparr>"

definition test_errors :: "(string \<Rightarrow> string) \<Rightarrow> bool list" where
  "test_errors hash_key =
     (let fails = (\<lambda>e req. handshake Some hash_key req = Err e);
          websocket = (UPGRADE, ''websocket'')
      in [fails GetMethodRequired (test_request (OtherMethod ''POST'') [] False),
          fails NoWebsocketUpgrade (test_request GET [] False),
          fails NoWebsocketUpgrade (test_request GET [(UPGRADE, ''test'')] False),
          fails NoConnectionUpgrade (test_request GET [websocket] False),
          fails NoVersionHeader (test_request GET [websocket] True),
          fails UnsupportedVersion (test_request GET [websocket, (SEC_WEBSOCKET_VERSION, ''5'')] True),
          fails BadWebsocketKey (test_request GET [websocket, (SEC_WEBSOCKET_VERSION, ''13'')] True)])"

definition test_accepted :: "(string \<Rightarrow> string) \<Rightarrow> string option \<Rightarrow> string list \<Rightarrow> string option \<Rightarrow> bool" where
  "test_accepted hash_key asked protocols answer \<longleftrightarrow>
     (case handshake_with_protocols Some hash_key
             (test_request GET
                ([(UPGRADE, ''websocket''), (SEC_WEBSOCKET_VERSION, ''13''), (SEC_WEBSOCKET_KEY, ''13'')] @
                 (case asked of None \<Rightarrow> [] | Some a \<Rightarrow> [(SEC_WEBSOCKET_PROTOCOL, a)])) True) protocols of
        Inl e \<Rightarrow> False
      | Inr r \<Rightarrow> resp_status r = 101 \<and> map_of (resp_headers r) SEC_WEBSOCKET_PROTOCOL = answer)"

definition test_protocols :: "(string \<Rightarrow> string) \<Rightarrow> bool list" where
  "test_protocols hash_key =
     [test_accepted hash_key None [] None,
      test_accepted hash_key (Some ''graphql'') [''graphql''] (Some ''graphql''),
      test_accepted hash_key (Some ''p1, p2, p3'') [''p3'', ''p2''] (Some ''p2''),
      test_accepted hash_key (Some ''p1,p2,p3'') [''p3'', ''p2''] (Some ''p2'')]"

theorem test_handshake_passes: "list_all id (test_errors hash_key @ test_protocols hash_key)"
proof -
  have lower: "to_ascii_lowercase ''websocket'' = ''websocket''" "to_ascii_lowercase ''test'' = ''test''"
    by code_simp+
  have contains: "str_contains ''websocket'' ''websocket''" "\<not> str_contains ''websocket'' ''test''"
    by code_simp+
  have trims: "trim ''graphql'' = ''graphql''" "trim ''p1'' = ''p1''" "trim ''p2'' = ''p2''" "trim ''p3'' = ''p3''"
    "trim '' p2'' = ''p2''" "trim '' p3'' = ''p3''"
    by code_simp+
  show ?thesis
    by (simp add: test_errors_def test_protocols_def test_accepted_def test_request_def handshake_def
        handshake_with_protocols_def has_upgrade_header_def supported_version_def select_protocol_def
        lower contains trims Let_def)
qed

end
