(* ===== verification/Spec2Isabelle.thy ===== *)
theory Spec2Isabelle
  imports
    Prelude Send_Error Any_Object Messages Interval_Set Future_Handle Actor_Config Actor_State
    Active_Counter Channel_Sender Actor_Context Spawn_Loop Actor_Address Actor_System Address_Refs
    Actor_Builder Actor_Streams Step_Systems Actor_Set Actor_Set_Serve Actor_Set_Play
    Timer_Tasks Timer_Correct Timer_Play Runtime_Features Client_Programs
    Ws_Config Ws_Handshake Ws_Queue Ws_Encode Ws_Decode Ws_Connection
    Chat_Server Chat_Correct Chat_World Chat_Session
    Macro_Syntax Macro_Generate Macro_Meaning Macro_Types Macro_Attr Macro_Mod Macro_Mod_Correct
    Stream_System Subscribe_System Macro_System Mod_System Hook_System
    Shared_Actors Example_Handlers Example_Modules Example_Broadcast Example_Benchmark
    Example_Active_Count Example_Aliases Example_Stream Example_Lifecycle Example_Subscribe
    Ws_Handshake_Tests
begin

text \<open>
  A model of actix_send: an actor library for several asynchronous runtimes (\<open>src/\<close>), the procedural
  macros that generate its message enums (\<open>actix-send-macros/\<close>), and a websocket service for actix-web
  (\<open>actix_send_websocket/\<close>), with the examples and tests that use them.

  The parts and how they work together. A caller holds an \<open>Address\<close> and puts messages into a channel;
  each actor owns an \<open>ActorContext\<close>, whose task takes messages from the channel one at a time, runs the
  user's handler and answers on a oneshot channel. All actors of an address share an \<open>ActorState\<close>: a
  counter of running actors with a shutdown marker, the handles of the delayed and interval tasks, the
  registered interval closures, and the settings. The tasks of delayed messages and intervals wait for
  timers and send into the same channel. The macros write the enums and conversions by which every
  message type of an actor travels in one channel. The websocket crate turns a request into a stream of
  decoded messages and a response stream, which share a local queue.

  What models what: the library.
    \<^item> \<open>Prelude\<close>: \<open>Poll\<close>, \<open>Result\<close>, \<open>usize\<close>, strings and generic lemmas.
    \<^item> \<open>Send_Error\<close> (\<open>src/error.rs\<close>): the errors, their \<open>Debug\<close> text, and \<open>Display\<close>, which calls
      itself and never returns.
    \<^item> \<open>Any_Object\<close> (\<open>src/object.rs\<close>): values packed with their type, boxed closures.
    \<^item> \<open>Messages\<close> (the enums of \<open>src/context.rs\<close>), and the effects an operation asks of the runtime.
    \<^item> \<open>Interval_Set\<close> (\<open>src/interval.rs\<close>): the registered closures under a counter that panics when it
      wraps; locale \<open>registry\<close> is the contract of such a set.
    \<^item> \<open>Future_Handle\<close> (\<open>src/util/future_handle.rs\<close>): cancelable tasks and their handles.
    \<^item> \<open>Actor_Config\<close>, \<open>Actor_Builder\<close> (\<open>src/builder.rs\<close>): settings, and starting actors.
    \<^item> \<open>Runtime_Features\<close> (\<open>src/util/\<close>, \<open>src/receiver.rs\<close>, \<open>src/lib.rs\<close>): what each set of crate features
      compiles to, and starting actors over the channel it chooses.
    \<^item> \<open>Actor_State\<close>, \<open>Active_Counter\<close> (\<open>src/actor.rs\<close>): the shared state; the second theory runs the
      compare-and-exchange loops of several callers in any interleaving.
    \<^item> \<open>Channel_Sender\<close> (\<open>src/sender.rs\<close>, \<open>src/receiver.rs\<close>, \<open>src/util/runtime.rs\<close>): sending,
      reference counts, timeouts.
    \<^item> \<open>Actor_Context\<close>, \<open>Spawn_Loop\<close> (\<open>src/context.rs\<close>): the handlers of the four kinds of messages, and
      the life of the task with its restarts.
    \<^item> \<open>Actor_Address\<close> (\<open>src/address.rs\<close>, \<open>src/subscribe.rs\<close>): every call a caller can make;
      \<open>Address_Refs\<close>: cloning, dropping and upgrading addresses in any order.
    \<^item> \<open>Actor_System\<close>, \<open>Client_Programs\<close>: an address and its actor in one world, for the end-to-end
      properties and for programs that make one call after the other.
    \<^item> \<open>Actor_Streams\<close> (\<open>src/stream.rs\<close>): the two stream adaptors; \<open>Stream_System\<close>: a stream through the
      actor of such a world while other callers send to it.
    \<^item> \<open>Subscribe_System\<close> (\<open>src/subscribe.rs\<close>): subscribers whose channels lead to the worlds of actors.
    \<^item> \<open>Step_Systems\<close>: runs of step relations, with the locales \<open>trace_invariant\<close> (a predicate of labels and
      state that every step keeps) and \<open>draining\<close> (a measure every step lowers).
    \<^item> \<open>Actor_Set\<close>, \<open>Actor_Set_Serve\<close>, \<open>Actor_Set_Play\<close> (\<open>src/builder.rs\<close>, \<open>src/context.rs\<close>): all the
      actors of an address, taking from one channel and sharing one state, as a step relation; what
      they do together; and the same steps as an executable schedule, sound and complete for it.
    \<^item> \<open>Timer_Tasks\<close>, \<open>Timer_Correct\<close>, \<open>Timer_Play\<close> (\<open>src/context.rs\<close>, \<open>src/util/future_handle.rs\<close>): the
      spawned tasks beside the actors, polled in any order with any answers of the timers; what becomes
      of them; and an executable schedule.
    \<^item> \<open>Shared_Actors\<close>: actors of one address that hold a pointer to the same memory.

  What models what: the websocket crate and the chat.
    \<^item> \<open>Ws_Config\<close>, \<open>Ws_Handshake\<close>, \<open>Ws_Queue\<close>, \<open>Ws_Encode\<close>, \<open>Ws_Decode\<close>
      (\<open>actix_send_websocket/src/lib.rs\<close>): settings, handshake, the local queue (locale \<open>fifo\<close>), the
      response stream, and the incoming stream with its heartbeat; \<open>Ws_Connection\<close>: the extractor that
      makes the two streams from a request, and the echo handler of \<open>tests/websockets.rs\<close> over them;
      \<open>Ws_Handshake_Tests\<close>: the crate's unit test.
    \<^item> \<open>Chat_Server\<close> (\<open>examples/websocket-chat2/src/server.rs\<close>): the server of the chat example, whose
      operations call each other until no send fails; \<open>Chat_Correct\<close>: what they do over any channels
      that keep the contract \<open>text_channels\<close> (a locale); \<open>Chat_World\<close>: the channels of the websocket
      crate, which meet it; \<open>Chat_Session\<close> (\<open>examples/websocket-chat2/src/main.rs\<close>): the handler of a
      connection with its commands, and all connections over one server.

  What models what: the macros and the examples.
    \<^item> \<open>Macro_Syntax\<close>, \<open>Macro_Generate\<close> (\<open>actix-send-macros/src/\<close>): the syntax trees and the macros
      \<open>actor\<close>, \<open>handler\<close> and \<open>handler_v2\<close>; \<open>Macro_Meaning\<close>: what the generated code does;
      \<open>Macro_Types\<close>: the types the compiler finds in it; \<open>Macro_Attr\<close>, \<open>Macro_Mod\<close>: the macro \<open>actor_mod\<close>;
      \<open>Macro_Mod_Correct\<close>: \<open>actor_mod\<close> against \<open>handler_v2\<close>.
    \<^item> \<open>Macro_System\<close>, \<open>Mod_System\<close>, \<open>Hook_System\<close>: generated actors behind an address, and their hooks.
    \<^item> \<open>Example_Handlers\<close> (\<open>handler_v2.rs\<close>, \<open>no_macro.rs\<close>), \<open>Example_Modules\<close> (\<open>tests/actor.rs\<close>, \<open>basic.rs\<close>),
      \<open>Example_Active_Count\<close> (the test \<open>active_count\<close>), \<open>Example_Aliases\<close> (\<open>type_alias.rs\<close>, \<open>blocking.rs\<close>),
      \<open>Example_Stream\<close> (\<open>stream.rs\<close>), \<open>Example_Subscribe\<close> (\<open>subscribe.rs\<close>), \<open>Example_Lifecycle\<close>
      (\<open>actor_lifecycle_hook.rs\<close>, \<open>dynamic_dispatch.rs\<close>), \<open>Example_Broadcast\<close> (\<open>broadcast.rs\<close>, part of
      \<open>concurrency.rs\<close>), \<open>Example_Benchmark\<close> (\<open>benchmark.rs\<close>): the programs of the repository over the
      models above, with what their assertions say as theorems.

  What the lemmas show. Each operation is described on all its branches; \<open>shared_ok\<close>, \<open>world_ok\<close>,
  \<open>refs_ok\<close>, \<open>keys_issued\<close>, \<open>stream_ok\<close>, \<open>world_log\<close> and \<open>stream_log\<close> are the invariants of the shared
  state, of the oneshot numbers, of the reference counts, of the interval keys, of a stream, and of an
  actor and a stream against the log of their channel, each kept by every operation. The receive loop
  refines a reference server, alone and among several actors in any interleaving, where each message is
  taken once, \<open>current_active\<close> counts the running actors, and the measure \<open>work_left\<close> bounds the steps
  until all messages are handled; actors that share memory are one sequential server. A delayed message
  that nobody cancels is sent once and taken before the channel closes; a cancelled interval stops, and
  a removed closure never runs again. The counter's loops refine atomic operations, the skipping stream
  refines the plain one, a stream's results are never crossed with those of other callers, a message to
  subscribers reaches exactly those of its type, and the chat server refines one whose channels never
  fail. The code the macros generate refines the user's methods and hooks and type checks, also behind
  an address, and \<open>actor_mod\<close> generates what \<open>handler_v2\<close> does.

  Code outside the repository is a parameter: the channels, the oneshot channels, the runtime's timers
  and tasks, \<open>select\<close>, \<open>FuturesUnordered\<close>, the websocket codec, the request, the type parser of syn,
  the process's arguments and the reading of a file. What is assumed of it (\<open>select_completes\<close>,
  \<open>select_law\<close>, \<open>timeout_law\<close>, \<open>join_law\<close>, \<open>join_runs\<close>, \<open>decoder_law\<close>, \<open>appends\<close>) is its documented
  behaviour, and each is met by a concrete function in a witness. What users write, handlers, hooks and
  closures, is a parameter without assumptions. The order in which Rust iterates over a hash map is a
  parameter too, as are the moments at which timers fire and at which the receivers of the chat's
  channels go.

  Bounds and fuel. \<open>usize\<close> is a 64-bit word, so the counter and the interval keys wrap as the code's
  do. No definition needs fuel: \<open>spawn_loop\<close> terminates on the list of its inputs, the evaluation of
  generated code on its syntax, the chat server's recursion on the number of its sessions, and the
  loops of \<open>poll_next\<close>, which a foreign stream can keep busy forever, are partial functions whose result
  \<open>None\<close> is not returning; the theorems about them prove that they return.

  Not modelled: type aliases that choose a runtime's pointers and locks, and re-exports; the lines
  written to the console, except where a handler does nothing else; the shared actors of
  \<open>concurrency.rs\<close>, whose handler takes a lock between two accesses to the memory, while a handler is one
  step of \<open>Shared_Actors\<close>; the benchmark's actor for the crate actix and its clock; \<open>actix.rs\<close>, which
  compares with that crate, \<open>delayed_message.rs\<close>, which waits for its timers and asserts nothing, and
  \<open>actix-runtime-mpsc.rs\<close>, which repeats the others over another runtime; and \<open>main\<close> of the chat, which
  configures an HTTP server.
\<close>

end
